(* ===== verification/Go_Text.thy ===== *)
theory Go_Text
  imports Main "HOL-Library.Sublist"
begin

text \<open>
  Prelude, part one: Go strings. A Go string is a sequence of bytes, and so is an Isabelle
  \<open>string\<close>: a \<open>char\<close> is a byte. This theory holds what the program uses of the packages
  \<open>strings\<close>, \<open>strconv\<close> and \<open>bufio\<close>, with the lemmas the components share. The two places
  where those packages look at code points beyond ASCII are written out at the byte level:
  \<open>TrimSpace\<close> removes the UTF-8 encodings of the Unicode white space, and \<open>ToLower\<close>
  maps the only two non-ASCII code points whose lower case is an ASCII letter. Every other
  non-ASCII letter is left as it is, which no caller can see: the program compares lower-cased
  text with ASCII words only.
\<close>

named_theorems text_simps \<open>evaluation rules for the string functions\<close>

section \<open>Prefixes and substrings\<close>

definition has_prefix :: "string \<Rightarrow> string \<Rightarrow> bool" where
  "has_prefix p s \<longleftrightarrow> take (length p) s = p"

definition trim_prefix :: "string \<Rightarrow> string \<Rightarrow> string" where
  "trim_prefix p s = (if has_prefix p s then drop (length p) s else s)"

fun index_of :: "string \<Rightarrow> string \<Rightarrow> nat option" where
  "index_of p [] = (if p = [] then Some 0 else None)"
| "index_of p (c # s) =
     (if has_prefix p (c # s) then Some 0 else map_option Suc (index_of p s))"

definition contains :: "string \<Rightarrow> string \<Rightarrow> bool" where
  "contains s p \<longleftrightarrow> index_of p s \<noteq> None"

fun index_any :: "string \<Rightarrow> string \<Rightarrow> nat option" where
  "index_any cs [] = None"
| "index_any cs (c # s) = (if c \<in> set cs then Some 0 else map_option Suc (index_any cs s))"

definition trim_right_slash :: "string \<Rightarrow> string" where
  "trim_right_slash s = rev (dropWhile (\<lambda>c. c = CHR ''/'') (rev s))"

fun split_on :: "char \<Rightarrow> string \<Rightarrow> string list" where
  "split_on d [] = [[]]"
| "split_on d (c # s) =
     (if c = d then [] # split_on d s
      else case split_on d s of [] \<Rightarrow> [[c]] | w # ws \<Rightarrow> (c # w) # ws)"

lemma has_prefix_iff: "has_prefix p s \<longleftrightarrow> (\<exists>t. s = p @ t)"
  by (metis append_eq_conv_conj append_take_drop_id has_prefix_def)

lemma has_prefix_append [simp]: "has_prefix p (p @ s)"
  by (simp add: has_prefix_iff)

lemma has_prefix_Nil [simp]: "has_prefix [] s"
  by (simp add: has_prefix_def)

lemma trim_prefix_append [simp]: "trim_prefix p (p @ s) = s"
  by (simp add: trim_prefix_def)

lemma has_prefix_trans: "has_prefix w s \<Longrightarrow> has_prefix w (s @ t)"
  by (auto simp: has_prefix_iff)

lemma has_prefix_length: "has_prefix p s \<Longrightarrow> length p \<le> length s"
  by (auto simp: has_prefix_iff)

lemma index_of_Some:
  "index_of p s = Some i \<Longrightarrow> i + length p \<le> length s \<and> has_prefix p (drop i s)"
  by (induction s arbitrary: i) (auto dest: has_prefix_length split: if_splits)

lemma index_of_first:
  "index_of p s = Some i \<Longrightarrow> j < i \<Longrightarrow> \<not> has_prefix p (drop j s)"
proof (induction s arbitrary: i j)
  case Nil
  then show ?case by (simp split: if_splits)
next
  case (Cons c s)
  then show ?case by (cases j) (auto split: if_splits)
qed

lemma contains_Cons:
  "contains (c # s) p \<longleftrightarrow> has_prefix p (c # s) \<or> contains s p"
  by (simp add: contains_def)

lemma contains_iff: "contains s p \<longleftrightarrow> (\<exists>a b. s = a @ p @ b)"
proof (induction s)
  case Nil
  then show ?case by (simp add: contains_def)
next
  case (Cons c s)
  have "(\<exists>a b. c # s = a @ p @ b) \<longleftrightarrow> has_prefix p (c # s) \<or> (\<exists>a b. s = a @ p @ b)"
    by (auto simp: has_prefix_iff Cons_eq_append_conv)
  with Cons show ?case by (simp add: contains_Cons)
qed

lemma contains_append [intro]: "contains s p \<Longrightarrow> contains (a @ s @ b) p"
  by (metis append.assoc contains_iff)

section \<open>ToLower, TrimSpace and EqualFold\<close>

definition lower_char :: "char \<Rightarrow> char" where
  "lower_char c =
     (if 65 \<le> (of_char c :: nat) \<and> (of_char c :: nat) \<le> 90
      then char_of ((of_char c :: nat) + 32) else c)"

text \<open>U+212A (Kelvin sign) is \<open>E2 84 AA\<close> and U+0130 is \<open>C4 B0\<close> in UTF-8.\<close>

function to_lower :: "string \<Rightarrow> string" where
  "to_lower [] = []"
| "to_lower (c # s) =
     (if c = CHR 0xE2 \<and> has_prefix [CHR 0x84, CHR 0xAA] s then CHR ''k'' # to_lower (drop 2 s)
      else if c = CHR 0xC4 \<and> has_prefix [CHR 0xB0] s then CHR ''i'' # to_lower (drop 1 s)
      else lower_char c # to_lower s)"
  by pat_completeness auto
termination
  by (relation "measure length") auto

definition is_ascii :: "string \<Rightarrow> bool" where
  "is_ascii s \<longleftrightarrow> (\<forall>c \<in> set s. (of_char c :: nat) < 128)"

lemma to_lower_ascii: "is_ascii s \<Longrightarrow> to_lower s = map lower_char s"
  by (induction s) (auto simp: is_ascii_def)

definition equal_fold :: "string \<Rightarrow> string \<Rightarrow> bool" where
  "equal_fold a b \<longleftrightarrow> map lower_char a = map lower_char b"

text \<open>
  The UTF-8 encodings of the code points that \<open>unicode.IsSpace\<close> accepts: U+0009 to U+000D,
  U+0020, U+0085, U+00A0, U+1680, U+2000 to U+200A, U+2028, U+2029, U+202F, U+205F, U+3000.
\<close>

definition space_seqs :: "string list" where
  "space_seqs =
     [[CHR 0x20], [CHR 0x09], [CHR 0x0A], [CHR 0x0B], [CHR 0x0C], [CHR 0x0D],
      [CHR 0xC2, CHR 0x85], [CHR 0xC2, CHR 0xA0], [CHR 0xE1, CHR 0x9A, CHR 0x80],
      [CHR 0xE2, CHR 0x80, CHR 0x80], [CHR 0xE2, CHR 0x80, CHR 0x81],
      [CHR 0xE2, CHR 0x80, CHR 0x82], [CHR 0xE2, CHR 0x80, CHR 0x83],
      [CHR 0xE2, CHR 0x80, CHR 0x84], [CHR 0xE2, CHR 0x80, CHR 0x85],
      [CHR 0xE2, CHR 0x80, CHR 0x86], [CHR 0xE2, CHR 0x80, CHR 0x87],
      [CHR 0xE2, CHR 0x80, CHR 0x88], [CHR 0xE2, CHR 0x80, CHR 0x89],
      [CHR 0xE2, CHR 0x80, CHR 0x8A], [CHR 0xE2, CHR 0x80, CHR 0xA8],
      [CHR 0xE2, CHR 0x80, CHR 0xA9], [CHR 0xE2, CHR 0x80, CHR 0xAF],
      [CHR 0xE2, CHR 0x81, CHR 0x9F], [CHR 0xE3, CHR 0x80, CHR 0x80]]"

text \<open>\<open>strip_any ws s\<close> removes from the front, for as long as it can, a member of \<open>ws\<close>.\<close>

function strip_any :: "string list \<Rightarrow> string \<Rightarrow> string" where
  "strip_any ws s =
     (case find (\<lambda>w. w \<noteq> [] \<and> has_prefix w s) ws of
        None \<Rightarrow> s
      | Some w \<Rightarrow> strip_any ws (drop (length w) s))"
  by pat_completeness auto
termination
proof (relation "measure (length \<circ> snd)")
  fix ws s w
  assume "find (\<lambda>w. w \<noteq> [] \<and> has_prefix w s) ws = Some w"
  then have "w \<noteq> []" and "has_prefix w s" by (auto simp: find_Some_iff)
  then show "((ws, drop (length w) s), ws, s) \<in> measure (length \<circ> snd)"
    by (auto simp: has_prefix_iff)
qed simp

declare strip_any.simps [simp del]

definition trim_space :: "string \<Rightarrow> string" where
  "trim_space s = rev (strip_any (map rev space_seqs) (rev (strip_any space_seqs s)))"

lemma strip_any_suffix: "\<exists>a. s = a @ strip_any ws s"
proof (induction ws s rule: strip_any.induct)
  case (1 ws s)
  show ?case
  proof (cases "find (\<lambda>w. w \<noteq> [] \<and> has_prefix w s) ws")
    case None
    then show ?thesis by (simp add: strip_any.simps)
  next
    case (Some w)
    with 1 obtain a where "drop (length w) s = a @ strip_any ws (drop (length w) s)"
      by blast
    then have "s = (take (length w) s @ a) @ strip_any ws (drop (length w) s)"
      by (metis append.assoc append_take_drop_id)
    moreover from Some have "strip_any ws s = strip_any ws (drop (length w) s)"
      by (subst strip_any.simps) simp
    ultimately show ?thesis by metis
  qed
qed

lemma strip_any_done: "w \<in> set ws \<Longrightarrow> w \<noteq> [] \<Longrightarrow> \<not> has_prefix w (strip_any ws s)"
proof (induction ws s rule: strip_any.induct)
  case (1 ws s)
  then show ?case
    by (subst strip_any.simps)
      (auto simp: find_None_iff split: option.splits)
qed

text \<open>What is left has no white space at either end, and trimming it again changes nothing.\<close>

lemma strip_any_fixed:
  "(\<And>w. w \<in> set ws \<Longrightarrow> w \<noteq> [] \<Longrightarrow> \<not> has_prefix w s) \<Longrightarrow> strip_any ws s = s"
  by (subst strip_any.simps) (auto simp: find_Some_iff split: option.splits)


lemma space_seqs_nonempty: "w \<in> set space_seqs \<Longrightarrow> w \<noteq> []"
  by (auto simp: space_seqs_def)

lemma trim_space_no_prefix:
  assumes "w \<in> set space_seqs"
  shows "\<not> has_prefix w (trim_space s)"
proof
  assume pre: "has_prefix w (trim_space s)"
  obtain a where "rev (strip_any space_seqs s) = a @ rev (trim_space s)"
    using strip_any_suffix [of "rev (strip_any space_seqs s)" "map rev space_seqs"]
    by (auto simp: trim_space_def)
  then have "strip_any space_seqs s = trim_space s @ rev a"
    by (metis rev_append rev_rev_ident)
  with pre have "has_prefix w (strip_any space_seqs s)"
    by (simp add: has_prefix_trans)
  with assms show False
    using strip_any_done space_seqs_nonempty by blast
qed

lemma trim_space_idem [simp]: "trim_space (trim_space s) = trim_space s"
proof -
  have left: "strip_any space_seqs (trim_space s) = trim_space s"
    by (rule strip_any_fixed) (use trim_space_no_prefix in blast)
  have right: "strip_any (map rev space_seqs) (rev (trim_space s)) = rev (trim_space s)"
    by (rule strip_any_fixed) (use strip_any_done in \<open>force simp: trim_space_def\<close>)
  show ?thesis
    by (simp add: trim_space_def [of "trim_space s"] left right)
qed

lemma trim_space_Nil [simp]: "trim_space [] = []"
  by (metis append_is_Nil_conv rev_is_Nil_conv strip_any_suffix trim_space_def)

section \<open>Atoi and Itoa\<close>

definition digit_val :: "char \<Rightarrow> int option" where
  "digit_val c = (let n = (of_char c :: nat) in if 48 \<le> n \<and> n \<le> 57 then Some (int n - 48) else None)"

fun digits_val :: "int \<Rightarrow> string \<Rightarrow> int option" where
  "digits_val acc [] = Some acc"
| "digits_val acc (c # s) =
     (case digit_val c of None \<Rightarrow> None | Some d \<Rightarrow> digits_val (10 * acc + d) s)"

definition in_int64 :: "int \<Rightarrow> bool" where
  "in_int64 n \<longleftrightarrow> - (2 ^ 63) \<le> n \<and> n < 2 ^ 63"

text \<open>\<open>strconv.Atoi\<close>: an optional sign, at least one digit, and a value that fits an \<open>int\<close>.\<close>

definition atoi :: "string \<Rightarrow> int option" where
  "atoi s =
     (let neg = has_prefix ''-'' s;
          ds = (if neg \<or> has_prefix ''+'' s then drop 1 s else s)
      in if ds = [] then None
         else case digits_val 0 ds of
                None \<Rightarrow> None
              | Some n \<Rightarrow> let v = (if neg then - n else n) in if in_int64 v then Some v else None)"

fun itoa_nat :: "nat \<Rightarrow> string" where
  "itoa_nat n = (if n < 10 then [char_of (48 + n)] else itoa_nat (n div 10) @ [char_of (48 + n mod 10)])"

declare itoa_nat.simps [simp del]

definition itoa :: "int \<Rightarrow> string" where
  "itoa i = (if i < 0 then CHR ''-'' # itoa_nat (nat (- i)) else itoa_nat (nat i))"

lemma digits_val_append:
  "digits_val acc (s @ t) =
     (case digits_val acc s of None \<Rightarrow> None | Some n \<Rightarrow> digits_val n t)"
  by (induction s arbitrary: acc) (auto split: option.splits)

lemma digit_val_char_of: "d < 10 \<Longrightarrow> digit_val (char_of (48 + d)) = Some (int d)"
  by (simp add: digit_val_def)

lemma digits_val_itoa_nat: "digits_val 0 (itoa_nat n) = Some (int n)"
proof (induction n rule: itoa_nat.induct)
  case (1 n)
  show ?case
  proof (cases "n < 10")
    case True
    then show ?thesis by (simp add: itoa_nat.simps [of n] digit_val_char_of)
  next
    case False
    with 1 show ?thesis
      by (simp add: itoa_nat.simps [of n] digits_val_append digit_val_char_of zdiv_int zmod_int)
  qed
qed

lemma itoa_nat_nonempty: "itoa_nat n \<noteq> []"
  by (subst itoa_nat.simps) simp

lemma itoa_nat_hd: "\<exists>d < 10. \<exists>t. itoa_nat n = char_of (48 + d :: nat) # t"
proof (induction n rule: itoa_nat.induct)
  case (1 n)
  then show ?case
    by (cases "n < 10") (auto simp: itoa_nat.simps [of n])
qed

lemma char_digit_not_sign:
  "d < 10 \<Longrightarrow> char_of (48 + d :: nat) \<noteq> CHR ''-'' \<and> char_of (48 + d :: nat) \<noteq> CHR ''+''"
  by (auto simp: take_bit_eq_mod dest: arg_cong [where f = "of_char :: char \<Rightarrow> nat"])

lemma itoa_nat_no_sign: "\<not> has_prefix ''-'' (itoa_nat n) \<and> \<not> has_prefix ''+'' (itoa_nat n)"
  using itoa_nat_hd [of n] char_digit_not_sign by (auto simp: has_prefix_def)

text \<open>Printing and parsing a Go \<open>int\<close> round-trips.\<close>

lemma atoi_itoa: "in_int64 n \<Longrightarrow> atoi (itoa n) = Some n"
  using itoa_nat_no_sign [of "nat n"]
  by (auto simp: atoi_def itoa_def Let_def itoa_nat_nonempty digits_val_itoa_nat has_prefix_def)

text \<open>A printed number is digits only: trimming leaves it, and a separator ends it.\<close>

definition is_digit :: "char \<Rightarrow> bool" where
  "is_digit c \<longleftrightarrow> 48 \<le> (of_char c :: nat) \<and> (of_char c :: nat) \<le> 57"

lemma is_digit_char_of: "d < 10 \<Longrightarrow> is_digit (char_of (48 + d :: nat))"
  by (simp add: is_digit_def)

lemma itoa_nat_digits: "c \<in> set (itoa_nat n) \<Longrightarrow> is_digit c"
proof (induction n rule: itoa_nat.induct)
  case (1 n)
  then show ?case
    by (cases "n < 10") (auto simp: itoa_nat.simps [of n] is_digit_char_of)
qed

lemma has_prefix_hd: "has_prefix (w # ws) s \<Longrightarrow> w \<in> set s"
  by (auto simp: has_prefix_iff)

lemma strip_any_digits:
  assumes "\<forall>c \<in> set s. is_digit c" and "\<forall>w \<in> set ws. w = [] \<or> \<not> is_digit (hd w)"
  shows "strip_any ws s = s"
  using assms by (intro strip_any_fixed) (metis has_prefix_hd list.collapse)

lemma trim_space_digits:
  assumes "\<forall>c \<in> set s. is_digit c"
  shows "trim_space s = s"
proof -
  have 1: "\<forall>w \<in> set space_seqs. w = [] \<or> \<not> is_digit (hd w)"
    by (simp add: space_seqs_def is_digit_def)
  have 2: "\<forall>w \<in> set (map rev space_seqs). w = [] \<or> \<not> is_digit (hd w)"
    by (simp add: space_seqs_def is_digit_def)
  show ?thesis
    using assms by (simp add: trim_space_def strip_any_digits [OF _ 1] strip_any_digits [OF _ 2])
qed

lemma index_any_digits:
  assumes "\<forall>c \<in> set s. is_digit c" and "\<forall>c \<in> set cs. \<not> is_digit c"
  shows "index_any cs (s @ t) = map_option (\<lambda>i. length s + i) (index_any cs t)"
  using assms
proof (induction s)
  case Nil
  show ?case by (cases "index_any cs t") simp_all
next
  case (Cons c s)
  then show ?case by (cases "index_any cs t") auto
qed

lemma index_of_append: "index_of p s = Some i \<Longrightarrow> index_of p (s @ t) = Some i"
proof (induction s arbitrary: i)
  case Nil
  then show ?case by (cases t) (auto split: if_splits)
next
  case (Cons c s)
  show ?case
  proof (cases "has_prefix p (c # s)")
    case True
    with Cons.prems show ?thesis using has_prefix_trans [of p "c # s" t] by simp
  next
    case False
    with Cons.prems obtain j where j: "index_of p s = Some j" "i = Suc j" by auto
    then have "length p \<le> length s" by (auto dest: index_of_Some)
    then have "take (length p) ((c # s) @ t) = take (length p) (c # s)"
      by (subst take_append) simp
    with False have "\<not> has_prefix p (c # s @ t)"
      by (simp add: has_prefix_def)
    with Cons.IH j show ?thesis by simp
  qed
qed

section \<open>bufio.Scanner with ScanLines\<close>

text \<open>
  The lines of a text: the pieces between newlines, without a last empty piece. The scanner
  fails with \<open>ErrTooLong\<close> as soon as its buffer of \<open>limit\<close> bytes is full and holds no newline,
  that is at the first piece of \<open>limit\<close> bytes or more; the lines before it are delivered.
\<close>

definition raw_lines :: "string \<Rightarrow> string list" where
  "raw_lines s =
     (let ps = split_on (CHR 0x0A) s in if last ps = [] then butlast ps else ps)"

definition drop_cr :: "string \<Rightarrow> string" where
  "drop_cr l = (if l \<noteq> [] \<and> last l = CHR 0x0D then butlast l else l)"

definition scan_lines :: "nat \<Rightarrow> string \<Rightarrow> string list" where
  "scan_lines limit s = map drop_cr (takeWhile (\<lambda>l. length l < limit) (raw_lines s))"

definition scan_too_long :: "nat \<Rightarrow> string \<Rightarrow> bool" where
  "scan_too_long limit s \<longleftrightarrow> (\<exists>l \<in> set (raw_lines s). limit \<le> length l)"

lemma split_on_nonempty [simp]: "split_on d s \<noteq> []"
  by (induction s) (auto split: list.splits)

lemma split_on_no_sep: "w \<in> set (split_on d s) \<Longrightarrow> d \<notin> set w"
proof (induction s arbitrary: w)
  case (Cons c s)
  then show ?case
    by (cases "split_on d s") (auto split: if_splits)
qed simp

lemma split_on_append_sep: "d \<notin> set w \<Longrightarrow> split_on d (w @ d # s) = w # split_on d s"
  by (induction w) (auto split: list.splits)

lemma split_on_plain: "d \<notin> set w \<Longrightarrow> split_on d w = [w]"
  by (induction w) auto

text \<open>A text written line by line is scanned back line by line.\<close>

lemma raw_lines_concat:
  "(\<forall>l \<in> set ls. CHR 0x0A \<notin> set l) \<Longrightarrow> raw_lines (concat (map (\<lambda>l. l @ [CHR 0x0A]) ls)) = ls"
proof (induction ls)
  case Nil
  then show ?case by (simp add: raw_lines_def)
next
  case (Cons l ls)
  then show ?case
    by (auto simp: raw_lines_def Let_def split_on_append_sep)
qed

lemma scan_lines_all: "\<not> scan_too_long limit s \<Longrightarrow> scan_lines limit s = map drop_cr (raw_lines s)"
  unfolding scan_too_long_def scan_lines_def
  by (subst takeWhile_eq_all_conv [THEN iffD2]) (auto simp: not_le)

end
