(* ===== verification/Float64.thy ===== *)
theory Float64
  imports Complex_Main "HOL-Library.Log_Nat"
begin

text \<open>
  Prelude, part two: Go's \<open>float64\<close>. A value is a rational, an infinity or NaN; the two zeros
  are one value, which no comparison of the program tells apart. Sums, differences, products
  and quotients are the exact rational result rounded to nearest, ties to even, with 53 bits
  of precision and the exponent range of binary64. The locale \<open>rounding\<close> states the laws of the
  rounding that the client of floating point (the rate limiter) rests on, and is interpreted
  on \<open>round64\<close>.
\<close>

section \<open>Rounding to nearest even\<close>

text \<open>\<open>ilog2 x\<close> is the exponent of the binade that holds the positive \<open>x\<close>.\<close>

definition ilog2 :: "rat \<Rightarrow> int" where
  "ilog2 x =
     (let (a, b) = quotient_of x;
          k = int (floorlog 2 (nat a)) - int (floorlog 2 (nat b))
      in if 2 powi k \<le> x then k else k - 1)"

definition quantum :: "rat \<Rightarrow> int" where
  "quantum x = max (-1074) (ilog2 \<bar>x\<bar> - 52)"

definition nearest_even :: "rat \<Rightarrow> int" where
  "nearest_even y =
     (let f = \<lfloor>y\<rfloor>; d = y - of_int f
      in if d < 1 / 2 then f else if 1 / 2 < d then f + 1 else if even f then f else f + 1)"

definition round64 :: "rat \<Rightarrow> rat" where
  "round64 x = (if x = 0 then 0 else of_int (nearest_even (x / 2 powi quantum x)) * 2 powi quantum x)"

lemma nearest_even_of_int [simp]: "nearest_even (of_int n) = n"
  by (simp add: nearest_even_def)

lemma nearest_even_mono:
  assumes "x \<le> y"
  shows "nearest_even x \<le> nearest_even y"
proof -
  have le: "\<lfloor>x\<rfloor> \<le> \<lfloor>y\<rfloor>" using assms by (rule floor_mono)
  show ?thesis
  proof (cases "\<lfloor>x\<rfloor> = \<lfloor>y\<rfloor>")
    case True
    with assms show ?thesis by (auto simp: nearest_even_def Let_def)
  next
    case False
    with le show ?thesis by (auto simp: nearest_even_def Let_def)
  qed
qed

lemma nearest_even_le: "y \<le> of_int n \<Longrightarrow> nearest_even y \<le> n"
  using nearest_even_mono [of y "of_int n"] by simp

lemma nearest_even_ge: "of_int n \<le> y \<Longrightarrow> n \<le> nearest_even y"
  using nearest_even_mono [of "of_int n" y] by simp

lemma floorlog2_bounds:
  assumes "0 < (n::nat)"
  shows "(2::rat) powi (int (floorlog 2 n) - 1) \<le> of_nat n" "of_nat n < (2::rat) powi int (floorlog 2 n)"
proof -
  have pos: "0 < floorlog 2 n" using assms by (simp add: floorlog_eq_zero_iff neq0_conv [symmetric] del: neq0_conv)
  from floorlog_bounds [of n 2] assms
  have b: "2 ^ (floorlog 2 n - 1) \<le> n" "n < 2 ^ floorlog 2 n" by auto
  have "(2::rat) powi (int (floorlog 2 n) - 1) = of_nat (2 ^ (floorlog 2 n - 1))"
    using pos by (simp add: power_int_def nat_diff_distrib)
  with b(1) show "(2::rat) powi (int (floorlog 2 n) - 1) \<le> of_nat n"
    by (metis of_nat_le_iff)
  have "(2::rat) powi int (floorlog 2 n) = of_nat (2 ^ floorlog 2 n)"
    by (simp add: power_int_def)
  with b(2) show "of_nat n < (2::rat) powi int (floorlog 2 n)"
    by (metis of_nat_less_iff)
qed

lemma ilog2_bounds:
  assumes "0 < x"
  shows "2 powi ilog2 x \<le> x" and "x < 2 powi (ilog2 x + 1)"
proof -
  obtain a b where q: "quotient_of x = (a, b)" by fastforce
  have x: "x = of_int a / of_int b" and b: "0 < b"
    using q by (auto intro: quotient_of_div quotient_of_denom_pos)
  with assms have a: "0 < a" by (simp add: zero_less_divide_iff)
  let ?A = "int (floorlog 2 (nat a))" and ?B = "int (floorlog 2 (nat b))"
  have A: "(2::rat) powi (?A - 1) \<le> of_int a" "of_int a < (2::rat) powi ?A"
    using floorlog2_bounds [of "nat a"] a by auto
  have B: "(2::rat) powi (?B - 1) \<le> of_int b" "of_int b < (2::rat) powi ?B"
    using floorlog2_bounds [of "nat b"] b by auto
  have up: "x < 2 powi (?A - ?B + 1)"
  proof -
    have "x < 2 powi ?A / 2 powi (?B - 1)"
      unfolding x using A B a b by (intro frac_less) auto
    also have "\<dots> = 2 powi (?A - (?B - 1))" by (subst power_int_diff) simp_all
    finally have "x < 2 powi (?A - (?B - 1))" .
    moreover have "?A - (?B - 1) = ?A - ?B + 1" by simp
    ultimately show ?thesis by metis
  qed
  have lo: "2 powi (?A - ?B - 1) \<le> x"
  proof -
    have "?A - ?B - 1 = (?A - 1) - ?B" by simp
    then have "2 powi (?A - ?B - 1) = (2::rat) powi (?A - 1) / 2 powi ?B"
      by (metis power_int_diff zero_neq_numeral)
    also have "\<dots> \<le> x"
      unfolding x using A B a b by (intro frac_le) auto
    finally show ?thesis .
  qed
  show "2 powi ilog2 x \<le> x" "x < 2 powi (ilog2 x + 1)"
    using up lo by (auto simp: ilog2_def q Let_def)
qed

lemma powi2_less: "(2::rat) powi i < 2 powi j \<longleftrightarrow> i < j"
  by (metis less_irrefl linorder_neqE_linordered_idom one_less_numeral_iff order_less_asym
      power_int_strict_increasing semiring_norm(76))

lemma powi2_le: "(2::rat) powi i \<le> 2 powi j \<longleftrightarrow> i \<le> j"
  using powi2_less [of j i] by (simp add: not_less [symmetric])

lemma ilog2_mono:
  assumes "0 < x" and "x \<le> y"
  shows "ilog2 x \<le> ilog2 y"
proof -
  have "2 powi ilog2 x < (2::rat) powi (ilog2 y + 1)"
    using ilog2_bounds(1) [of x] ilog2_bounds(2) [of y] assms by linarith
  then show ?thesis by (simp add: powi2_less)
qed

lemma powi2_nat: "i \<le> j \<Longrightarrow> (2::rat) powi j / 2 powi i = of_int (2 ^ nat (j - i))"
proof -
  assume "i \<le> j"
  then have "(2::rat) powi (j - i) = of_int (2 ^ nat (j - i))" by (simp add: power_int_def)
  then show ?thesis by (subst power_int_diff [symmetric]) simp_all
qed

lemma round64_0 [simp]: "round64 0 = 0"
  by (simp add: round64_def)

lemma quantum_mono: "0 < x \<Longrightarrow> x \<le> y \<Longrightarrow> quantum x \<le> quantum y"
  using ilog2_mono [of x y] by (auto simp: quantum_def)

text \<open>
  A binade is a whole multiple of the quantum of any number below it, so a number of a lower
  binade never rounds past it.
\<close>

lemma round64_mono:
  assumes "0 \<le> x" and "x \<le> y"
  shows "round64 x \<le> round64 y"
proof (cases "x = 0")
  case True
  have "0 \<le> nearest_even (y / 2 powi quantum y)"
    using assms by (intro nearest_even_ge) simp
  with True show ?thesis by (simp add: round64_def)
next
  case False
  with assms have x: "0 < x" and y: "0 < y" by simp_all
  show ?thesis
  proof (cases "quantum x = quantum y")
    case True
    have "nearest_even (x / 2 powi quantum y) \<le> nearest_even (y / 2 powi quantum y)"
      using assms by (intro nearest_even_mono divide_right_mono) auto
    with True x y show ?thesis by (simp add: round64_def)
  next
    case False
    with quantum_mono [OF x assms(2)] have less: "quantum x < quantum y" by simp
    then have qy: "quantum y = ilog2 y - 52" and ilog: "ilog2 x < ilog2 y"
      using x y by (auto simp: quantum_def split: if_splits)
    let ?z = "(2::rat) powi ilog2 y"
    have "x \<le> ?z"
    proof -
      have "x < 2 powi (ilog2 x + 1)" using ilog2_bounds(2) [OF x] .
      also have "\<dots> \<le> ?z" using ilog by (simp add: powi2_le)
      finally show ?thesis by simp
    qed
    then have "x / 2 powi quantum x \<le> ?z / 2 powi quantum x"
      by (rule divide_right_mono) simp
    moreover have zx: "?z / 2 powi quantum x = of_int (2 ^ nat (ilog2 y - quantum x))"
      using less qy by (intro powi2_nat) simp
    ultimately have "x / 2 powi quantum x \<le> of_int (2 ^ nat (ilog2 y - quantum x))"
      by simp
    then have "of_int (nearest_even (x / 2 powi quantum x)) \<le> ?z / 2 powi quantum x"
      unfolding zx of_int_le_iff by (rule nearest_even_le)
    then have upper: "round64 x \<le> ?z"
      using x by (simp add: round64_def pos_le_divide_eq)
    have zy: "?z / 2 powi quantum y = of_int (2 ^ nat (ilog2 y - quantum y))"
      using qy by (intro powi2_nat) simp
    have "?z / 2 powi quantum y \<le> y / 2 powi quantum y"
      using ilog2_bounds(1) [OF y] by (rule divide_right_mono) simp
    then have "?z / 2 powi quantum y \<le> of_int (nearest_even (y / 2 powi quantum y))"
      unfolding zy of_int_le_iff by (rule nearest_even_ge)
    then have lower: "?z \<le> round64 y"
      using y by (simp add: round64_def pos_divide_le_eq)
    from upper lower show ?thesis by simp
  qed
qed

text \<open>A number with at most 53 significant bits is not changed by rounding.\<close>

lemma round64_representable:
  assumes "0 \<le> m" and "m \<le> 2 ^ 53" and "-1074 \<le> e"
  shows "round64 (of_int m * 2 powi e) = of_int m * 2 powi e"
proof (cases "m = 0")
  case True
  then show ?thesis by simp
next
  case False
  let ?r = "of_int m * (2::rat) powi e"
  let ?q = "quantum ?r"
  have r: "0 < ?r" using False assms(1) by simp
  have "\<exists>n. ?r / 2 powi ?q = of_int n"
  proof (cases "?q \<le> e")
    case True
    then have "?r / 2 powi ?q = of_int m * of_int (2 ^ nat (e - ?q))"
      by (metis powi2_nat times_divide_eq_right)
    then show ?thesis by (metis of_int_mult)
  next
    case False
    with assms(3) r have q: "?q = ilog2 ?r - 52" by (auto simp: quantum_def split: if_splits)
    have "(2::rat) powi ilog2 ?r \<le> ?r" using ilog2_bounds(1) [OF r] .
    also have le53: "?r \<le> 2 ^ 53 * 2 powi e"
      using assms(2) by (intro mult_right_mono) (metis of_int_le_iff of_int_numeral of_int_power, simp)
    also have p53: "2 ^ 53 * (2::rat) powi e = 2 powi (53 + e)"
      by (subst power_int_add) simp_all
    finally have "ilog2 ?r \<le> 53 + e" by (simp add: powi2_le)
    with False q have qe: "?q = e + 1" and il: "ilog2 ?r = 53 + e" by simp_all
    have "?r = 2 powi (53 + e)"
      using ilog2_bounds(1) [OF r] le53 il p53 by (metis order_antisym)
    then have "?r / 2 powi ?q = of_int (2 ^ nat (53 + e - ?q))"
      using qe by (metis powi2_nat add_le_cancel_right add.commute one_le_numeral)
    then show ?thesis by blast
  qed
  then obtain n where n: "?r / 2 powi ?q = of_int n" ..
  then have "?r = of_int n * 2 powi ?q" by (simp add: divide_eq_eq)
  with r n show ?thesis by (simp add: round64_def)
qed

lemma round64_int: "0 \<le> n \<Longrightarrow> n \<le> 2 ^ 53 \<Longrightarrow> round64 (of_int n) = of_int n"
  using round64_representable [of n 0] by simp

lemma round64_form:
  assumes "0 \<le> x"
  shows "\<exists>m e. round64 x = of_int m * 2 powi e \<and> 0 \<le> m \<and> m \<le> 2 ^ 53 \<and> -1074 \<le> e"
proof (cases "x = 0")
  case True
  then show ?thesis by (intro exI [of _ 0]) simp
next
  case False
  with assms have x: "0 < x" by simp
  let ?q = "quantum x" and ?m = "nearest_even (x / 2 powi quantum x)"
  have "ilog2 x + 1 \<le> 53 + ?q" using x by (auto simp: quantum_def)
  then have "x \<le> 2 powi (53 + ?q)"
    using ilog2_bounds(2) [OF x] powi2_le [of "ilog2 x + 1" "53 + ?q"] by linarith
  then have "x / 2 powi ?q \<le> 2 powi (53 + ?q) / 2 powi ?q" by (rule divide_right_mono) simp
  also have "\<dots> = of_int (2 ^ nat (53 + ?q - ?q))" by (rule powi2_nat) simp
  finally have "?m \<le> 2 ^ nat (53 + ?q - ?q)" by (rule nearest_even_le)
  then have "?m \<le> 2 ^ 53" by simp
  moreover have "0 \<le> ?m" using x by (intro nearest_even_ge) simp
  moreover have "-1074 \<le> ?q" by (simp add: quantum_def)
  ultimately show ?thesis using x by (auto simp: round64_def)
qed

lemma round64_idem: "0 \<le> x \<Longrightarrow> round64 (round64 x) = round64 x"
  using round64_form [of x] round64_representable by metis

section \<open>The interface of a rounding\<close>

locale rounding =
  fixes rnd :: "rat \<Rightarrow> rat"
  assumes mono: "0 \<le> x \<Longrightarrow> x \<le> y \<Longrightarrow> rnd x \<le> rnd y"
    and int_exact: "0 \<le> n \<Longrightarrow> n \<le> 2 ^ 53 \<Longrightarrow> rnd (of_int n) = of_int n"
    and idem: "0 \<le> x \<Longrightarrow> rnd (rnd x) = rnd x"
begin

lemma zero: "rnd 0 = 0"
  using int_exact [of 0] by simp

lemma nonneg: "0 \<le> x \<Longrightarrow> 0 \<le> rnd x"
  using mono [of 0 x] zero by simp

lemma below_int: "0 \<le> x \<Longrightarrow> x \<le> of_int n \<Longrightarrow> n \<le> 2 ^ 53 \<Longrightarrow> rnd x \<le> of_int n"
  using mono [of x "of_int n"] int_exact [of n] by (simp add: order_trans)

lemma above_int: "0 \<le> n \<Longrightarrow> n \<le> 2 ^ 53 \<Longrightarrow> of_int n \<le> x \<Longrightarrow> of_int n \<le> rnd x"
  using mono [of "of_int n" x] int_exact [of n] by simp

lemma decrease: "0 \<le> d \<Longrightarrow> d \<le> x \<Longrightarrow> rnd x = x \<Longrightarrow> rnd (x - d) \<le> x"
  using mono [of "x - d" x] by simp

lemma increase: "0 \<le> x \<Longrightarrow> 0 \<le> d \<Longrightarrow> rnd x = x \<Longrightarrow> x \<le> rnd (x + d)"
  using mono [of x "x + d"] by simp

end

interpretation f64: rounding round64
  by unfold_locales (auto intro: round64_mono round64_int round64_idem)

section \<open>Values and operations\<close>

datatype float64 = NaN | Inf bool | Fin rat

text \<open>\<open>Inf True\<close> is the negative infinity.\<close>

definition to_float :: "rat \<Rightarrow> float64" where
  "to_float x =
     (let r = round64 x
      in if 2 ^ 1024 \<le> r then Inf False else if r \<le> - (2 ^ 1024) then Inf True else Fin r)"

definition float_of_int :: "int \<Rightarrow> float64" where
  "float_of_int n = to_float (of_int n)"

fun flt :: "float64 \<Rightarrow> float64 \<Rightarrow> bool" where
  "flt NaN y = False"
| "flt x NaN = False"
| "flt (Inf a) (Inf b) = (a \<and> \<not> b)"
| "flt (Inf a) (Fin y) = a"
| "flt (Fin x) (Inf b) = (\<not> b)"
| "flt (Fin x) (Fin y) = (x < y)"

fun fle :: "float64 \<Rightarrow> float64 \<Rightarrow> bool" where
  "fle NaN y = False"
| "fle x NaN = False"
| "fle (Inf a) (Inf b) = (a \<or> \<not> b)"
| "fle (Inf a) (Fin y) = a"
| "fle (Fin x) (Inf b) = (\<not> b)"
| "fle (Fin x) (Fin y) = (x \<le> y)"

fun fadd :: "float64 \<Rightarrow> float64 \<Rightarrow> float64" where
  "fadd NaN y = NaN"
| "fadd x NaN = NaN"
| "fadd (Inf a) (Inf b) = (if a = b then Inf a else NaN)"
| "fadd (Inf a) (Fin y) = Inf a"
| "fadd (Fin x) (Inf b) = Inf b"
| "fadd (Fin x) (Fin y) = to_float (x + y)"

fun fneg :: "float64 \<Rightarrow> float64" where
  "fneg NaN = NaN"
| "fneg (Inf a) = Inf (\<not> a)"
| "fneg (Fin x) = Fin (- x)"

definition fsub :: "float64 \<Rightarrow> float64 \<Rightarrow> float64" where
  "fsub x y = fadd x (fneg y)"

fun fmul :: "float64 \<Rightarrow> float64 \<Rightarrow> float64" where
  "fmul NaN y = NaN"
| "fmul x NaN = NaN"
| "fmul (Inf a) (Inf b) = Inf (a \<noteq> b)"
| "fmul (Inf a) (Fin y) = (if y = 0 then NaN else Inf (a \<noteq> (y < 0)))"
| "fmul (Fin x) (Inf b) = (if x = 0 then NaN else Inf ((x < 0) \<noteq> b))"
| "fmul (Fin x) (Fin y) = to_float (x * y)"

text \<open>\<open>math.Min\<close>: the negative infinity first, then NaN, then the smaller value.\<close>

definition fmin :: "float64 \<Rightarrow> float64 \<Rightarrow> float64" where
  "fmin x y =
     (if x = Inf True \<or> y = Inf True then Inf True
      else if x = NaN \<or> y = NaN then NaN
      else if flt x y then x else y)"

text \<open>
  \<open>int(x)\<close> truncates. Outside the range of \<open>int64\<close>, and for NaN, Go leaves the value to the
  implementation; the model takes the one of amd64, the least \<open>int64\<close>.
\<close>

definition int_of_float :: "float64 \<Rightarrow> int" where
  "int_of_float x =
     (case x of
        Fin r \<Rightarrow> let t = (if 0 \<le> r then \<lfloor>r\<rfloor> else - \<lfloor>- r\<rfloor>)
                 in if - (2 ^ 63) \<le> t \<and> t < 2 ^ 63 then t else - (2 ^ 63)
      | _ \<Rightarrow> - (2 ^ 63))"

lemma to_float_Fin: "0 \<le> round64 x \<Longrightarrow> round64 x < 2 ^ 1024 \<Longrightarrow> to_float x = Fin (round64 x)"
  by (simp add: to_float_def Let_def not_le)

lemma to_float_nonneg: "0 \<le> x \<Longrightarrow> to_float x = (if 2 ^ 1024 \<le> round64 x then Inf False else Fin (round64 x))"
  using f64.nonneg [of x] by (auto simp: to_float_def Let_def)

lemma float_of_small_int: "0 \<le> n \<Longrightarrow> n \<le> 2 ^ 53 \<Longrightarrow> float_of_int n = Fin (of_int n)"
  using round64_int [of n]
  by (simp add: float_of_int_def to_float_nonneg)

end
