(* ===== verification/Keyed.thy ===== *)
theory Keyed
  imports Main
begin

text \<open>
  Prelude, part six: the contract of a component that keeps an independent state per key (the
  watchdog per backend, the rate limiter per API key). An event for one key moves that key's
  state by a transition function of the configuration and leaves every other key alone. What a
  run of interleaved events does to a key is then what its own events do, in their order.
\<close>

locale keyed_machine =
  fixes state_of :: "'s \<Rightarrow> 'k \<Rightarrow> 'a"
    and conf :: "'s \<Rightarrow> 'c"
    and event :: "'k \<Rightarrow> 'e \<Rightarrow> 's \<Rightarrow> 's"
    and trans :: "'c \<Rightarrow> 'e \<Rightarrow> 'a \<Rightarrow> 'a"
  assumes state_same: "state_of (event k e s) k = trans (conf s) e (state_of s k)"
    and state_other: "m \<noteq> k \<Longrightarrow> state_of (event k e s) m = state_of s m"
    and conf_event: "conf (event k e s) = conf s"
begin

abbreviation run :: "('k \<times> 'e) list \<Rightarrow> 's \<Rightarrow> 's" where
  "run es s \<equiv> fold (\<lambda>(k, e). event k e) es s"

abbreviation events_of :: "'k \<Rightarrow> ('k \<times> 'e) list \<Rightarrow> 'e list" where
  "events_of m es \<equiv> map snd (filter (\<lambda>(k, e). k = m) es)"

lemma conf_run: "conf (run es s) = conf s"
  by (induction es arbitrary: s) (auto simp: conf_event)

lemma run_project: "state_of (run es s) m = fold (trans (conf s)) (events_of m es) (state_of s m)"
  by (induction es arbitrary: s) (auto simp: conf_event state_same state_other)

lemma run_untouched: "m \<notin> fst ` set es \<Longrightarrow> state_of (run es s) m = state_of s m"
  by (induction es arbitrary: s) (auto simp: state_other)

lemma run_once:
  assumes "distinct (map fst es)" and "(m, e) \<in> set es"
  shows "state_of (run es s) m = trans (conf s) e (state_of s m)"
  using assms
proof (induction es arbitrary: s)
  case (Cons x es)
  obtain k d where x: "x = (k, d)" by fastforce
  show ?case
  proof (cases "k = m")
    case True
    with Cons.prems x have "e = d" and "m \<notin> fst ` set es" by force+
    with True x show ?thesis by (simp add: run_untouched state_same)
  next
    case False
    with Cons x show ?thesis by (auto simp: state_other conf_event)
  qed
qed simp

lemma run_invariant:
  assumes "\<And>e a. P a \<Longrightarrow> P (trans (conf s) e a)" and "P (state_of s m)"
  shows "P (state_of (run es s) m)"
proof -
  have "P a \<Longrightarrow> P (fold (trans (conf s)) ds a)" for ds a
    by (induction ds arbitrary: a) (auto simp: assms(1))
  with assms(2) show ?thesis by (simp add: run_project)
qed

end

end
