(* ===== verification/Rate_Limiter.thy ===== *)
theory Rate_Limiter
  imports Go_Text Float64 Keyed
begin

text \<open>
  The token bucket rate limiter (\<open>internal/middleware/ratelimit.go\<close>, without the middleware
  around it). Time is the monotonic clock in nanoseconds; tokens are \<open>float64\<close>, with the
  rounding of every operation. The arithmetic of one bucket is proved in the locale \<open>rounding\<close>,
  the independence of the keys comes from the locale \<open>keyed_machine\<close>.
\<close>

section \<open>State and operations\<close>

record bucket =
  bk_tokens :: float64
  bk_lastSeen :: int

record limiter =
  rl_buckets :: "string \<rightharpoonup> bucket"
  rl_rate :: float64
  rl_burst :: int
  rl_done :: bool

definition NewRateLimiter :: "float64 \<Rightarrow> int \<Rightarrow> limiter" where
  "NewRateLimiter rps burst =
     \<lparr>rl_buckets = Map.empty, rl_rate = (if fle rps (Fin 0) then Fin 1 else rps),
      rl_burst = (if burst < 1 then 1 else burst), rl_done = False\<rparr>"

text \<open>\<open>Duration.Seconds\<close>: whole seconds and the rest, which Go divides truncating.\<close>

definition Seconds :: "int \<Rightarrow> float64" where
  "Seconds d =
     (let sec = sgn d * (\<bar>d\<bar> div 1000000000); nsec = sgn d * (\<bar>d\<bar> mod 1000000000)
      in fadd (float_of_int sec) (to_float (of_int nsec / 1000000000)))"

text \<open>One call for one key: the refill, the check and the consumption of a token.\<close>

definition refill :: "float64 \<Rightarrow> int \<Rightarrow> int \<Rightarrow> bucket \<Rightarrow> bucket" where
  "refill rate burst now b =
     \<lparr>bk_tokens = fmin (float_of_int burst) (fadd (bk_tokens b) (fmul (Seconds (now - bk_lastSeen b)) rate)),
      bk_lastSeen = now\<rparr>"

definition take_token :: "bucket \<Rightarrow> int \<times> bool \<times> bucket" where
  "take_token b =
     (if flt (bk_tokens b) (Fin 1) then (0, False, b)
      else let t = fsub (bk_tokens b) (Fin 1) in (int_of_float t, True, b\<lparr>bk_tokens := t\<rparr>))"

definition bucket_or_new :: "int \<Rightarrow> int \<Rightarrow> bucket option \<Rightarrow> bucket" where
  "bucket_or_new burst now ob =
     (case ob of None \<Rightarrow> \<lparr>bk_tokens = float_of_int burst, bk_lastSeen = now\<rparr> | Some b \<Rightarrow> b)"

definition Allow :: "string \<Rightarrow> int \<Rightarrow> limiter \<Rightarrow> int \<times> bool \<times> limiter" where
  "Allow key now rl =
     (let b = bucket_or_new (rl_burst rl) now (rl_buckets rl key);
          (remaining, ok, b') = take_token (refill (rl_rate rl) (rl_burst rl) now b)
      in (remaining, ok, rl\<lparr>rl_buckets := (rl_buckets rl)(key \<mapsto> b')\<rparr>))"

text \<open>One tick of the cleanup loop, which ends for good once \<open>Stop\<close> has closed the channel.\<close>

definition stale :: "int \<Rightarrow> bucket \<Rightarrow> bool" where
  "stale now b \<longleftrightarrow> bk_lastSeen b < now - 600 * 1000000000"

definition cleanup :: "int \<Rightarrow> limiter \<Rightarrow> limiter" where
  "cleanup now rl =
     (if rl_done rl then rl
      else rl\<lparr>rl_buckets := (\<lambda>key. case rl_buckets rl key of
                                   None \<Rightarrow> None | Some b \<Rightarrow> if stale now b then None else Some b)\<rparr>)"

definition StopLimiter :: "limiter \<Rightarrow> limiter" where
  "StopLimiter rl = rl\<lparr>rl_done := True\<rparr>"

section \<open>Keys are independent\<close>

definition bucket_step :: "float64 \<times> int \<Rightarrow> int \<Rightarrow> bucket option \<Rightarrow> bucket option" where
  "bucket_step = (\<lambda>(rate, burst) now ob.
     Some (snd (snd (take_token (refill rate burst now (bucket_or_new burst now ob))))))"

definition answer :: "float64 \<times> int \<Rightarrow> int \<Rightarrow> bucket option \<Rightarrow> int \<times> bool" where
  "answer = (\<lambda>(rate, burst) now ob.
     let (remaining, ok, b) = take_token (refill rate burst now (bucket_or_new burst now ob))
     in (remaining, ok))"

abbreviation rl_conf :: "limiter \<Rightarrow> float64 \<times> int" where
  "rl_conf rl \<equiv> (rl_rate rl, rl_burst rl)"

abbreviation charge :: "string \<Rightarrow> int \<Rightarrow> limiter \<Rightarrow> limiter" where
  "charge key now rl \<equiv> snd (snd (Allow key now rl))"

lemma charge_simps [simp]:
  "rl_buckets (charge key now rl) = (rl_buckets rl)(key \<mapsto> the (bucket_step (rl_conf rl) now (rl_buckets rl key)))"
  "rl_rate (charge key now rl) = rl_rate rl"
  "rl_burst (charge key now rl) = rl_burst rl"
  "rl_done (charge key now rl) = rl_done rl"
  by (simp_all add: Allow_def bucket_step_def Let_def split: prod.splits)

lemma Allow_answer:
  "(fst (Allow key now rl), fst (snd (Allow key now rl))) = answer (rl_conf rl) now (rl_buckets rl key)"
  by (simp add: Allow_def answer_def Let_def split: prod.splits)

lemma Allow_ok:
  "fst (snd (Allow key now rl)) =
     fst (snd (take_token (refill (rl_rate rl) (rl_burst rl) now
       (bucket_or_new (rl_burst rl) now (rl_buckets rl key)))))"
  by (simp add: Allow_def Let_def split: prod.splits)

interpretation rl: keyed_machine rl_buckets rl_conf charge bucket_step
  by unfold_locales (auto simp: bucket_step_def)

section \<open>The arithmetic of one bucket, for any rounding\<close>

definition core_refill :: "(rat \<Rightarrow> rat) \<Rightarrow> int \<Rightarrow> rat \<Rightarrow> rat \<Rightarrow> rat \<Rightarrow> rat" where
  "core_refill rnd burst rate t dt = min (of_int burst) (rnd (t + rnd (dt * rate)))"

context rounding begin

lemma core_bounds:
  assumes "0 \<le> t" "0 \<le> dt" "0 \<le> rate" "0 \<le> burst"
  shows "0 \<le> core_refill rnd burst rate t dt" "core_refill rnd burst rate t dt \<le> of_int burst"
  using assms by (auto simp: core_refill_def nonneg)

lemma core_representable:
  assumes "0 \<le> t" "0 \<le> dt" "0 \<le> rate" "0 \<le> burst" "burst \<le> 2 ^ 53"
  shows "rnd (core_refill rnd burst rate t dt) = core_refill rnd burst rate t dt"
  using assms int_exact [of burst] idem [of "t + rnd (dt * rate)"]
  by (auto simp: core_refill_def min_def nonneg)

lemma core_no_time:
  assumes "rnd t = t" "t \<le> of_int burst"
  shows "core_refill rnd burst rate t 0 = t"
  using assms by (simp add: core_refill_def zero)

lemma core_full:
  assumes "0 \<le> t" "0 \<le> burst" "burst \<le> 2 ^ 53" "of_int burst \<le> dt * rate"
  shows "core_refill rnd burst rate t dt = of_int burst"
proof -
  have "of_int burst \<le> rnd (dt * rate)" by (rule above_int) (use assms in auto)
  then have "of_int burst \<le> t + rnd (dt * rate)" using assms by simp
  then have "of_int burst \<le> rnd (t + rnd (dt * rate))" by (intro above_int) (use assms in auto)
  then show ?thesis by (simp add: core_refill_def)
qed

lemma core_exact:
  assumes "0 \<le> t" "0 \<le> x" "burst \<le> 2 ^ 53"
  shows "min (of_int burst) (rnd (of_int t + rnd (of_int x))) = of_int (min burst (t + x))"
proof (cases "t + x \<le> 2 ^ 53")
  case True
  then have "rnd (of_int x) = of_int x" using assms by (intro int_exact) auto
  moreover have "rnd (of_int (t + x)) = of_int (t + x)" using True assms by (intro int_exact) auto
  ultimately show ?thesis by simp
next
  case False
  have "of_int (2 ^ 53) \<le> of_int t + rnd (of_int x)"
  proof (cases "x \<le> 2 ^ 53")
    case True
    with assms have "rnd (of_int x) = of_int x" by (intro int_exact)
    with False show ?thesis by (metis less_le_not_le linorder_not_le of_int_add of_int_le_iff)
  next
    case False
    then have "of_int (2 ^ 53) \<le> rnd (of_int x)" by (intro above_int) auto
    with assms show ?thesis by (simp add: add_increasing)
  qed
  then have "of_int (2 ^ 53) \<le> rnd (of_int t + rnd (of_int x))" by (intro above_int) auto
  moreover have "of_int burst \<le> (of_int (2 ^ 53) :: rat)" using assms by (simp only: of_int_le_iff)
  ultimately have "of_int burst \<le> rnd (of_int t + rnd (of_int x))" by (rule order_trans [rotated])
  with False assms show ?thesis by (simp add: min_absorb1)
qed

lemma core_take:
  assumes "1 \<le> t" "rnd t = t"
  shows "0 \<le> rnd (t - 1)" "rnd (t - 1) \<le> t" "rnd (rnd (t - 1)) = rnd (t - 1)"
  using assms nonneg [of "t - 1"] decrease [of 1 t] idem [of "t - 1"] by auto

lemma core_take_below:
  assumes "1 \<le> t" "t \<le> of_int burst" "burst \<le> 2 ^ 53"
  shows "rnd (t - 1) \<le> of_int (burst - 1)"
  using assms by (intro below_int) auto

end

section \<open>The bridge to floating point values\<close>

definition secs :: "int \<Rightarrow> rat" where
  "secs d =
     round64 (round64 (of_int (d div 1000000000)) + round64 (of_int (d mod 1000000000) / 1000000000))"

lemma secs_nonneg: "0 \<le> d \<Longrightarrow> 0 \<le> secs d"
  unfolding secs_def by (intro f64.nonneg add_nonneg_nonneg) (auto simp: pos_imp_zdiv_nonneg_iff)

lemma secs_0 [simp]: "secs 0 = 0"
  by (simp add: secs_def)

lemma secs_whole:
  assumes "0 \<le> k" "k \<le> 2 ^ 53"
  shows "secs (k * 1000000000) = of_int k"
  using assms by (simp add: secs_def round64_int)

lemma secs_ge:
  assumes "0 \<le> k" "k \<le> 2 ^ 53" "k * 1000000000 \<le> d"
  shows "of_int k \<le> secs d"
proof -
  have d: "0 \<le> d" using assms by (meson mult_nonneg_nonneg order_trans zero_le_numeral)
  have "k \<le> d div 1000000000" using zdiv_mono1 [OF assms(3), of 1000000000] by simp
  then have "of_int k \<le> round64 (of_int (d div 1000000000))"
    by (intro f64.above_int) (use assms in auto)
  moreover have "0 \<le> round64 (of_int (d mod 1000000000) / 1000000000)"
    by (rule f64.nonneg) simp
  ultimately show ?thesis
    unfolding secs_def by (intro f64.above_int) (use assms in auto)
qed

lemma round64_pow2: "-1074 \<le> e \<Longrightarrow> round64 (2 powi e) = 2 powi e"
  using round64_representable [of 1 e] by simp

lemma round64_le_pow2: "0 \<le> x \<Longrightarrow> x \<le> 2 ^ e \<Longrightarrow> round64 x \<le> 2 ^ e"
  using round64_mono [of x "2 ^ e"] round64_pow2 [of "int e"] by (simp add: power_int_def)

lemma to_float_small:
  assumes "0 \<le> x" "x \<le> 2 ^ e" "e < 1024"
  shows "to_float x = Fin (round64 x)"
proof -
  have "(2::rat) ^ e < 2 ^ 1024" using assms(3) by (intro power_strict_increasing) auto
  with round64_le_pow2 [OF assms(1,2)] have "round64 x < 2 ^ 1024" by linarith
  with assms(1) show ?thesis by (simp add: to_float_nonneg not_le)
qed

lemma Seconds_Fin:
  assumes "0 \<le> d" "d < 2 ^ 63"
  shows "Seconds d = Fin (secs d)"
proof -
  let ?s = "d div 1000000000" and ?n = "d mod 1000000000"
  have s: "0 \<le> ?s" "?s \<le> 2 ^ 63"
    using assms zdiv_mono2 [of d 1 1000000000] by (auto simp: pos_imp_zdiv_nonneg_iff)
  have sr: "(of_int ?s :: rat) \<le> 2 ^ 63"
    using s(2) by (metis of_int_le_iff of_int_numeral of_int_power)
  have sec: "float_of_int ?s = Fin (round64 (of_int ?s))"
    unfolding float_of_int_def using s sr by (intro to_float_small [of _ 63]) auto
  have n: "0 \<le> (of_int ?n :: rat) / 1000000000" "(of_int ?n :: rat) / 1000000000 \<le> 2 ^ 0"
    by (simp_all add: pos_divide_le_eq)
  have nsec: "to_float (of_int ?n / 1000000000) = Fin (round64 (of_int ?n / 1000000000))"
    using n by (intro to_float_small [of _ 0]) auto
  have "round64 (of_int ?s) + round64 (of_int ?n / 1000000000) \<le> 2 ^ 63 + 2 ^ 0"
    using round64_le_pow2 [OF _ sr] round64_le_pow2 [OF n] s(1) by (intro add_mono) auto
  also have "\<dots> \<le> (2::rat) ^ 64" by simp
  finally have sum: "round64 (of_int ?s) + round64 (of_int ?n / 1000000000) \<le> 2 ^ 64" .
  have "0 \<le> round64 (of_int ?s) + round64 (of_int ?n / 1000000000)"
    using s(1) n(1) by (intro add_nonneg_nonneg f64.nonneg) auto
  then have "to_float (round64 (of_int ?s) + round64 (of_int ?n / 1000000000)) = Fin (secs d)"
    unfolding secs_def using sum by (intro to_float_small [of _ 64]) auto
  moreover have "sgn d * (\<bar>d\<bar> div 1000000000) = ?s" "sgn d * (\<bar>d\<bar> mod 1000000000) = ?n"
    using assms(1) by (cases "d = 0"; simp)+
  ultimately show ?thesis by (simp add: Seconds_def Let_def sec nsec)
qed

text \<open>A sum that overflows to infinity is cut to the burst, as its rational value would be.\<close>

lemma fmin_refill:
  assumes "0 \<le> t" "0 \<le> x" "0 \<le> burst" "burst \<le> 2 ^ 53"
  shows "fmin (float_of_int burst) (fadd (Fin t) (to_float x)) = Fin (min (of_int burst) (round64 (t + round64 x)))"
proof -
  have big: "(of_int burst :: rat) < 2 ^ 1024"
  proof -
    have "(of_int burst :: rat) \<le> 2 ^ 53" using assms(4) by (metis of_int_le_iff of_int_numeral of_int_power)
    also have "\<dots> < 2 ^ 1024" by (intro power_strict_increasing) auto
    finally show ?thesis .
  qed
  have b: "float_of_int burst = Fin (of_int burst)"
    using assms by (intro float_of_small_int)
  have nn: "0 \<le> round64 x" using assms by (intro f64.nonneg)
  show ?thesis
  proof (cases "2 ^ 1024 \<le> round64 x")
    case True
    have "round64 x \<le> round64 (t + round64 x)"
      using f64.mono [of "round64 x" "t + round64 x"] f64.idem [of x] assms nn by simp
    with True big have "of_int burst \<le> round64 (t + round64 x)" by linarith
    with True assms(2) show ?thesis
      by (simp add: to_float_nonneg b fmin_def min_absorb1)
  next
    case False
    then have x: "to_float x = Fin (round64 x)" using assms by (simp add: to_float_nonneg)
    show ?thesis
    proof (cases "2 ^ 1024 \<le> round64 (t + round64 x)")
      case True
      with big have "of_int burst \<le> round64 (t + round64 x)" by linarith
      with True x assms nn show ?thesis by (simp add: to_float_nonneg b fmin_def min_absorb1)
    next
      case False
      with x assms nn show ?thesis by (auto simp: to_float_nonneg b fmin_def)
    qed
  qed
qed

lemma refill_Fin:
  assumes "0 \<le> t" "0 < r" "0 \<le> burst" "burst \<le> 2 ^ 53" "0 \<le> now - seen" "now - seen < 2 ^ 63"
  shows "refill (Fin r) burst now \<lparr>bk_tokens = Fin t, bk_lastSeen = seen\<rparr> =
           \<lparr>bk_tokens = Fin (core_refill round64 burst r t (secs (now - seen))), bk_lastSeen = now\<rparr>"
  using fmin_refill [of t "secs (now - seen) * r" burst] secs_nonneg [of "now - seen"] assms
  by (simp add: refill_def Seconds_Fin core_refill_def)

section \<open>The invariant\<close>

definition bucket_ok :: "int \<Rightarrow> int \<Rightarrow> bucket \<Rightarrow> bool" where
  "bucket_ok burst now b \<longleftrightarrow>
     (case bk_tokens b of Fin t \<Rightarrow> 0 \<le> t \<and> t \<le> of_int burst \<and> round64 t = t | _ \<Rightarrow> False)
     \<and> 0 \<le> bk_lastSeen b \<and> bk_lastSeen b \<le> now"

definition limiter_ok :: "int \<Rightarrow> limiter \<Rightarrow> bool" where
  "limiter_ok now rl \<longleftrightarrow>
     (case rl_rate rl of Fin r \<Rightarrow> 0 < r | _ \<Rightarrow> False) \<and> 1 \<le> rl_burst rl \<and> rl_burst rl \<le> 2 ^ 53
     \<and> (\<forall>key b. rl_buckets rl key = Some b \<longrightarrow> bucket_ok (rl_burst rl) now b)"

lemma bucket_okE:
  assumes "bucket_ok burst now b"
  obtains t seen where "b = \<lparr>bk_tokens = Fin t, bk_lastSeen = seen\<rparr>"
    "0 \<le> t" "t \<le> of_int burst" "round64 t = t" "0 \<le> seen" "seen \<le> now"
  using assms by (cases b; cases "bk_tokens b") (auto simp: bucket_ok_def)

lemma limiter_ok_rate:
  assumes "limiter_ok now rl"
  obtains r where "rl_rate rl = Fin r" "0 < r"
  using assms by (cases "rl_rate rl") (auto simp: limiter_ok_def)

lemma bucket_or_new_ok:
  assumes "limiter_ok now rl" "now \<le> now'" "0 \<le> now'"
  shows "bucket_ok (rl_burst rl) now' (bucket_or_new (rl_burst rl) now' (rl_buckets rl key))"
proof (cases "rl_buckets rl key")
  case None
  with assms show ?thesis
    by (auto simp: bucket_or_new_def bucket_ok_def limiter_ok_def float_of_small_int round64_int)
next
  case (Some b)
  with assms have "bucket_ok (rl_burst rl) now b" by (auto simp: limiter_ok_def)
  with Some assms show ?thesis by (auto simp: bucket_or_new_def bucket_ok_def)
qed

text \<open>What one call does to a well-formed bucket, and what it answers.\<close>

lemma step_ok:
  assumes b: "bucket_ok burst now b" and r: "0 < r" and burst: "1 \<le> burst" "burst \<le> 2 ^ 53"
    and now: "now < 2 ^ 63"
    and step: "take_token (refill (Fin r) burst now b) = (remaining, ok, b')"
  shows "bucket_ok burst now b'" and "bk_lastSeen b' = now" and "0 \<le> remaining"
    and "remaining \<le> burst - 1" and "\<not> ok \<Longrightarrow> remaining = 0"
proof -
  obtain t seen where t: "b = \<lparr>bk_tokens = Fin t, bk_lastSeen = seen\<rparr>"
    "0 \<le> t" "t \<le> of_int burst" "round64 t = t" "0 \<le> seen" "seen \<le> now"
    using b by (rule bucket_okE)
  define c where "c = core_refill round64 burst r t (secs (now - seen))"
  have ref: "refill (Fin r) burst now b = \<lparr>bk_tokens = Fin c, bk_lastSeen = now\<rparr>"
    unfolding t(1) c_def using t r burst now by (intro refill_Fin) auto
  have c: "0 \<le> c" "c \<le> of_int burst" "round64 c = c"
    unfolding c_def using t r burst secs_nonneg [of "now - seen"]
    by (auto intro!: f64.core_bounds f64.core_representable)
  have all: "bucket_ok burst now b' \<and> bk_lastSeen b' = now \<and> 0 \<le> remaining \<and> remaining \<le> burst - 1
      \<and> (\<not> ok \<longrightarrow> remaining = 0)"
  proof (cases "c < 1")
    case True
    then have "remaining = 0" "\<not> ok" "b' = \<lparr>bk_tokens = Fin c, bk_lastSeen = now\<rparr>"
      using step by (auto simp: ref take_token_def)
    with c t burst
    show "bucket_ok burst now b' \<and> bk_lastSeen b' = now \<and> 0 \<le> remaining \<and> remaining \<le> burst - 1
          \<and> (\<not> ok \<longrightarrow> remaining = 0)"
      by (auto simp: take_token_def bucket_ok_def)
  next
    case False
    define u where "u = round64 (c - 1)"
    have u: "0 \<le> u" "u \<le> c" "round64 u = u" "u \<le> of_int (burst - 1)"
      using f64.core_take [of c] f64.core_take_below [of c burst] c False burst by (auto simp: u_def)
    have "c - 1 \<le> 2 ^ 53"
      using c(2) burst(2) by (metis diff_ge_0_iff_ge le_diff_eq of_int_le_iff of_int_numeral of_int_power order_trans zero_le_one diff_left_mono diff_zero)
    then have sub: "fsub (Fin c) (Fin 1) = Fin u"
      using False to_float_small [of "c - 1" 53] by (simp add: fsub_def u_def)
    have fl: "0 \<le> \<lfloor>u\<rfloor>" "\<lfloor>u\<rfloor> \<le> burst - 1" using u by (auto simp: floor_le_iff le_floor_iff) linarith
    then have "int_of_float (Fin u) = \<lfloor>u\<rfloor>" using u burst by (auto simp: int_of_float_def Let_def)
    then have "remaining = \<lfloor>u\<rfloor>" "ok" "b' = \<lparr>bk_tokens = Fin u, bk_lastSeen = now\<rparr>"
      using step False by (auto simp: ref take_token_def sub)
    with fl u c t
    show "bucket_ok burst now b' \<and> bk_lastSeen b' = now \<and> 0 \<le> remaining \<and> remaining \<le> burst - 1
          \<and> (\<not> ok \<longrightarrow> remaining = 0)"
      by (auto simp: bucket_ok_def)
  qed
  then show "bucket_ok burst now b'" "bk_lastSeen b' = now" "0 \<le> remaining" "remaining \<le> burst - 1"
    "\<not> ok \<Longrightarrow> remaining = 0"
    by auto
qed

section \<open>Properties of single calls\<close>

lemma Allow_keeps:
  assumes ok: "limiter_ok now rl" and now: "now \<le> now'" "0 \<le> now'" "now' < 2 ^ 63"
    and call: "Allow key now' rl = (remaining, allowed, rl')"
  shows "limiter_ok now' rl' \<and> 0 \<le> remaining \<and> remaining \<le> rl_burst rl - 1
         \<and> (\<not> allowed \<longrightarrow> remaining = 0)"
proof -
  obtain r where r: "rl_rate rl = Fin r" "0 < r" using ok by (rule limiter_ok_rate)
  let ?b = "bucket_or_new (rl_burst rl) now' (rl_buckets rl key)"
  have b: "bucket_ok (rl_burst rl) now' ?b" using ok now by (intro bucket_or_new_ok)
  have burst: "1 \<le> rl_burst rl" "rl_burst rl \<le> 2 ^ 53" using ok by (auto simp: limiter_ok_def)
  obtain b' where step: "take_token (refill (Fin r) (rl_burst rl) now' ?b) = (remaining, allowed, b')"
    and rl': "rl' = rl\<lparr>rl_buckets := (rl_buckets rl)(key \<mapsto> b')\<rparr>"
    using call r by (auto simp: Allow_def Let_def split: prod.splits)
  note facts = step_ok [OF b r(2) burst now(3) step]
  have "bucket_ok (rl_burst rl) now' c" if "rl_buckets rl k = Some c" for k c
  proof -
    have "bucket_ok (rl_burst rl) now c" using ok that by (auto simp: limiter_ok_def)
    with now show ?thesis by (auto simp: bucket_ok_def)
  qed
  with facts ok r rl' show ?thesis by (auto simp: limiter_ok_def)
qed

lemma limiter_ok_New: "0 < r \<Longrightarrow> 1 \<le> burst \<Longrightarrow> burst \<le> 2 ^ 53 \<Longrightarrow> limiter_ok now (NewRateLimiter (Fin r) burst)"
  by (simp add: limiter_ok_def NewRateLimiter_def)

text \<open>
  C23: while the clock does not run backwards, every call keeps every bucket between zero and the
  burst, and answers with a remaining count between zero and the burst less one; a refused call
  answers zero.
\<close>

theorem Allow_invariant:
  assumes ok: "limiter_ok now rl" and now: "now \<le> now'" "0 \<le> now'" "now' < 2 ^ 63"
    and call: "Allow key now' rl = (remaining, allowed, rl')"
  shows "limiter_ok now' rl' \<and> 0 \<le> remaining \<and> remaining \<le> rl_burst rl - 1
         \<and> (\<not> allowed \<longrightarrow> remaining = 0)"
  using assms by (rule Allow_keeps)

theorem Allow_invariant_witness:
  "\<exists>n a rl'. Allow ''k'' 0 (NewRateLimiter (Fin 10) 20) = (n, a, rl') \<and> limiter_ok 0 rl' \<and> n \<le> 19"
proof -
  obtain n a rl' where call: "Allow ''k'' 0 (NewRateLimiter (Fin 10) 20) = (n, a, rl')"
    by (metis prod_cases3)
  have "limiter_ok 0 (NewRateLimiter (Fin 10) 20)" by (intro limiter_ok_New) auto
  from Allow_invariant [OF this _ _ _ call] call show ?thesis
    by (auto simp: NewRateLimiter_def)
qed

section \<open>A burst\<close>

fun Allow_times :: "nat \<Rightarrow> string \<Rightarrow> int \<Rightarrow> limiter \<Rightarrow> (int \<times> bool) list" where
  "Allow_times 0 key now rl = []"
| "Allow_times (Suc k) key now rl =
     (case Allow key now rl of (n, ok, rl') \<Rightarrow> (n, ok) # Allow_times k key now rl')"

lemma take_token_int:
  assumes "0 \<le> n" "n \<le> 2 ^ 53"
  shows "take_token \<lparr>bk_tokens = Fin (of_int n), bk_lastSeen = t\<rparr> =
           (if n < 1 then (0, False, \<lparr>bk_tokens = Fin (of_int n), bk_lastSeen = t\<rparr>)
            else (n - 1, True, \<lparr>bk_tokens = Fin (of_int (n - 1)), bk_lastSeen = t\<rparr>))"
proof (cases "n < 1")
  case True
  then have "(of_int n :: rat) < 1" by simp
  with True show ?thesis by (simp add: take_token_def)
next
  case False
  then have "fsub (Fin (of_int n)) (Fin 1) = Fin (of_int (n - 1))"
    using float_of_small_int [of "n - 1"] assms by (simp add: fsub_def float_of_int_def)
  moreover have "\<not> (of_int n :: rat) < 1" using False by simp
  ultimately show ?thesis using assms False by (simp add: take_token_def int_of_float_def Let_def)
qed

lemma refill_same_time:
  assumes "0 \<le> n" "n \<le> burst" "0 < r" "burst \<le> 2 ^ 53"
  shows "refill (Fin r) burst now \<lparr>bk_tokens = Fin (of_int n), bk_lastSeen = now\<rparr> =
           \<lparr>bk_tokens = Fin (of_int n), bk_lastSeen = now\<rparr>"
  using refill_Fin [of "of_int n" r burst now now] assms f64.core_no_time [of "of_int n" burst r]
    round64_int [of n] by simp

lemma refill_fresh_bucket:
  assumes "0 < r" "1 \<le> burst" "burst \<le> 2 ^ 53"
  shows "refill (Fin r) burst now (bucket_or_new burst now None) = \<lparr>bk_tokens = Fin (of_int burst), bk_lastSeen = now\<rparr>"
  using refill_same_time [of burst burst r now] assms by (simp add: bucket_or_new_def float_of_small_int)

lemma Allow_times_tokens:
  assumes "rl_rate rl = Fin r" "0 < r" "rl_burst rl \<le> 2 ^ 53" "0 \<le> n" "n \<le> rl_burst rl"
    and "bucket_or_new (rl_burst rl) now (rl_buckets rl key) = \<lparr>bk_tokens = Fin (of_int n), bk_lastSeen = now\<rparr>"
  shows "Allow_times k key now rl =
           map (\<lambda>i. if int i < n then (n - 1 - int i, True) else (0, False)) [0..<k]"
  using assms
proof (induction k arbitrary: rl n)
  case (Suc k)
  let ?b = "\<lparr>bk_tokens = Fin (of_int n), bk_lastSeen = now\<rparr>"
  let ?n' = "if n < 1 then n else n - 1"
  let ?rl' = "rl\<lparr>rl_buckets := (rl_buckets rl)(key \<mapsto> \<lparr>bk_tokens = Fin (of_int ?n'), bk_lastSeen = now\<rparr>)\<rparr>"
  have call: "Allow key now rl = (if n < 1 then (0, False, ?rl') else (n - 1, True, ?rl'))"
    using Suc.prems refill_same_time [of n "rl_burst rl" r now] take_token_int [of n now]
    by (simp add: Allow_def)
  have rest: "Allow_times k key now ?rl' =
      map (\<lambda>i. if int i < ?n' then (?n' - 1 - int i, True) else (0, False)) [0..<k]"
    by (rule Suc.IH) (use Suc.prems in \<open>auto simp: bucket_or_new_def\<close>)
  have "[0..<Suc k] = 0 # map Suc [0..<k]"
    by (metis map_Suc_upt upt_conv_Cons zero_less_Suc)
  with call rest Suc.prems show ?case by (auto simp: comp_def)
qed simp

text \<open>
  A key that has not been seen may make exactly \<open>burst\<close> requests at one instant: the first
  \<open>burst\<close> calls are allowed, with a remaining count that runs down to zero, and every further
  call is refused.
\<close>

theorem Allow_burst:
  assumes "0 < r" and "1 \<le> burst" and "burst \<le> 2 ^ 53"
  shows "Allow_times k key now (NewRateLimiter (Fin r) burst) =
           map (\<lambda>i. if int i < burst then (burst - 1 - int i, True) else (0, False)) [0..<k]"
  using assms by (intro Allow_times_tokens [of _ r])
    (auto simp: NewRateLimiter_def bucket_or_new_def float_of_small_int)

theorem Allow_burst_witness:
  "Allow_times 4 ''key'' 0 (NewRateLimiter (Fin 10) 3) = [(2, True), (1, True), (0, True), (0, False)]"
  using Allow_burst [of 10 3 4 "''key''" 0] by (simp add: upt_rec)

section \<open>Keys do not interfere\<close>

text \<open>
  What a key is answered after any interleaving of calls depends only on the calls made for
  that key, in their order.
\<close>

theorem Allow_isolated:
  "fst (Allow key now (fold (\<lambda>(k, t). charge k t) calls rl)) =
     fst (Allow key now (fold (\<lambda>(k, t). charge k t) (filter (\<lambda>(k, t). k = key) calls) rl))
   \<and> fst (snd (Allow key now (fold (\<lambda>(k, t). charge k t) calls rl))) =
     fst (snd (Allow key now (fold (\<lambda>(k, t). charge k t) (filter (\<lambda>(k, t). k = key) calls) rl)))"
proof -
  let ?mine = "filter (\<lambda>(k, t). k = key) calls"
  have "rl_buckets (fold (\<lambda>(k, t). charge k t) calls rl) key = rl_buckets (fold (\<lambda>(k, t). charge k t) ?mine rl) key"
  proof -
    have "map snd (filter (\<lambda>(k, t). k = key) ?mine) = map snd (filter (\<lambda>(k, t). k = key) calls)"
      by (induction calls) auto
    then show ?thesis unfolding rl.run_project by (simp only:)
  qed
  moreover have "rl_conf (fold (\<lambda>(k, t). charge k t) calls rl) = rl_conf (fold (\<lambda>(k, t). charge k t) ?mine rl)"
    unfolding rl.conf_run ..
  ultimately show ?thesis
    using Allow_answer [of key now "fold (\<lambda>(k, t). charge k t) calls rl"]
      Allow_answer [of key now "fold (\<lambda>(k, t). charge k t) ?mine rl"]
    by (metis prod.inject)
qed

section \<open>A rate that is not a number\<close>

lemma fmul_NaN [simp]: "fmul x NaN = NaN"
  by (cases x) auto

lemma fadd_NaN [simp]: "fadd x NaN = NaN"
  by (cases x) auto

lemma take_token_NaN: "fst (snd (take_token \<lparr>bk_tokens = NaN, bk_lastSeen = t\<rparr>))"
  by (simp add: take_token_def Let_def)

text \<open>
  C35: a rate of NaN passes the constructor's check for a positive rate and then disables the
  limiter: whatever calls were made before, every call is allowed.
\<close>

theorem NaN_rate_never_limits:
  assumes "1 \<le> burst"
  shows "fst (snd (Allow key now (fold (\<lambda>(k, t). charge k t) calls (NewRateLimiter NaN burst))))"
proof -
  let ?rl = "fold (\<lambda>(k, t). charge k t) calls (NewRateLimiter NaN burst)"
  have conf: "rl_conf ?rl = (NaN, burst)"
    unfolding rl.conf_run using assms by (simp add: NewRateLimiter_def)
  have "float_of_int burst \<noteq> Inf True"
    using assms to_float_nonneg [of "of_int burst"] by (simp add: float_of_int_def)
  then have "bk_tokens (refill NaN burst now b) = NaN" for b
    by (simp add: refill_def fmin_def)
  then have "fst (snd (take_token (refill NaN burst now b)))" for b
    using take_token_NaN [of now] by (simp add: refill_def)
  with conf show ?thesis by (simp add: Allow_ok)
qed

theorem NaN_rate_never_limits_witness:
  "fst (snd (Allow ''k'' 0 (charge ''k'' 0 (NewRateLimiter NaN 1))))"
  using NaN_rate_never_limits [of 1 "''k''" 0 "[(''k'', 0)]"] by simp

section \<open>The ideal token bucket\<close>

text \<open>
  The abstract specification: whole tokens and whole seconds, no rounding. The answers of the
  code refine it whenever the rate is a whole number and the calls come at whole seconds.
\<close>

definition ideal_refill :: "int \<Rightarrow> int \<Rightarrow> int \<Rightarrow> int \<times> int \<Rightarrow> int" where
  "ideal_refill rate burst now = (\<lambda>(t, seen). min burst (t + rate * (now - seen)))"

fun ideal_run :: "int \<Rightarrow> int \<Rightarrow> int list \<Rightarrow> int \<times> int \<Rightarrow> bool list" where
  "ideal_run rate burst [] s = []"
| "ideal_run rate burst (now # ts) s =
     (let t = ideal_refill rate burst now s
      in (1 \<le> t) # ideal_run rate burst ts (if 1 \<le> t then t - 1 else t, now))"

fun Allow_at :: "string \<Rightarrow> int list \<Rightarrow> limiter \<Rightarrow> bool list" where
  "Allow_at key [] rl = []"
| "Allow_at key (now # ts) rl =
     (case Allow key now rl of (n, ok, rl') \<Rightarrow> ok # Allow_at key ts rl')"

abbreviation nanos :: "int \<Rightarrow> int" where
  "nanos s \<equiv> s * 1000000000"

lemma refill_whole:
  assumes "0 \<le> t" "0 < rate" "0 \<le> burst" "burst \<le> 2 ^ 53" "0 \<le> now - seen" "nanos (now - seen) < 2 ^ 63"
  shows "refill (Fin (of_int rate)) burst (nanos now) \<lparr>bk_tokens = Fin (of_int t), bk_lastSeen = nanos seen\<rparr> =
           \<lparr>bk_tokens = Fin (of_int (ideal_refill rate burst now (t, seen))), bk_lastSeen = nanos now\<rparr>"
proof -
  have diff: "nanos now - nanos seen = nanos (now - seen)" by (simp add: algebra_simps)
  have "now - seen \<le> 2 ^ 53" using assms(6) by simp
  then have secs: "secs (nanos (now - seen)) = of_int (now - seen)"
    using assms(5) by (intro secs_whole)
  have core: "core_refill round64 burst (of_int rate) (of_int t) (secs (nanos (now - seen))) =
      of_int (ideal_refill rate burst now (t, seen))"
    unfolding core_refill_def secs ideal_refill_def prod.case mult.commute [of rate] of_int_mult [symmetric]
    by (rule f64.core_exact) (use assms in simp_all)
  have "refill (Fin (of_int rate)) burst (nanos now) \<lparr>bk_tokens = Fin (of_int t), bk_lastSeen = nanos seen\<rparr> =
      \<lparr>bk_tokens = Fin (core_refill round64 burst (of_int rate) (of_int t) (secs (nanos now - nanos seen))),
       bk_lastSeen = nanos now\<rparr>"
    by (rule refill_Fin) (use assms in simp_all)
  then show ?thesis unfolding diff core .
qed

lemma Allow_at_ideal:
  assumes "rl_rate rl = Fin (of_int rate)" "0 < rate" "1 \<le> rl_burst rl" "rl_burst rl \<le> 2 ^ 53"
    and "rl_buckets rl key = Some \<lparr>bk_tokens = Fin (of_int t), bk_lastSeen = nanos seen\<rparr>"
    and "0 \<le> t" "t \<le> rl_burst rl" "0 \<le> seen" "sorted (seen # ts)" "\<forall>s \<in> set ts. nanos s < 2 ^ 63"
  shows "Allow_at key (map nanos ts) rl = ideal_run rate (rl_burst rl) ts (t, seen)"
  using assms
proof (induction ts arbitrary: rl t seen)
  case (Cons now ts)
  let ?t = "ideal_refill rate (rl_burst rl) now (t, seen)"
  let ?t' = "if 1 \<le> ?t then ?t - 1 else ?t"
  let ?rl' = "rl\<lparr>rl_buckets := (rl_buckets rl)(key \<mapsto> \<lparr>bk_tokens = Fin (of_int ?t'), bk_lastSeen = nanos now\<rparr>)\<rparr>"
  have le: "seen \<le> now" using Cons.prems(9) by simp
  have t: "0 \<le> ?t" "?t \<le> rl_burst rl" using Cons.prems le by (auto simp: ideal_refill_def)
  have "nanos (now - seen) < 2 ^ 63" using Cons.prems(8,10) by (simp add: algebra_simps)
  then have "refill (rl_rate rl) (rl_burst rl) (nanos now) \<lparr>bk_tokens = Fin (of_int t), bk_lastSeen = nanos seen\<rparr> =
      \<lparr>bk_tokens = Fin (of_int ?t), bk_lastSeen = nanos now\<rparr>"
    using refill_whole [of t rate "rl_burst rl" now seen] Cons.prems le by simp
  then have call: "Allow key (nanos now) rl = (if ?t < 1 then 0 else ?t - 1, 1 \<le> ?t, ?rl')"
    using take_token_int [of ?t "nanos now"] t Cons.prems(4,5)
    by (simp add: Allow_def bucket_or_new_def not_less)
  have "Allow_at key (map nanos ts) ?rl' = ideal_run rate (rl_burst ?rl') ts (?t', now)"
    by (rule Cons.IH) (use Cons.prems t le in auto)
  with call show ?case by (simp add: Let_def)
qed simp

lemma Allow_at_new_ideal:
  assumes "0 < rate" and "1 \<le> burst" and "burst \<le> 2 ^ 53"
    and "sorted (start # ts)" and "0 \<le> start" and "\<forall>s \<in> set (start # ts). nanos s < 2 ^ 63"
  shows "Allow_at key (map nanos (start # ts)) (NewRateLimiter (Fin (of_int rate)) burst) =
           ideal_run rate burst (start # ts) (burst, start)"
proof -
  let ?rl = "NewRateLimiter (Fin (of_int rate)) burst"
  let ?full = "\<lparr>bk_tokens = Fin (of_int burst), bk_lastSeen = nanos start\<rparr>"
  let ?rl1 = "?rl\<lparr>rl_buckets := (rl_buckets ?rl)(key \<mapsto> ?full)\<rparr>"
  have "Allow key (nanos start) ?rl = Allow key (nanos start) ?rl1"
    using assms(2,3) by (simp add: Allow_def bucket_or_new_def NewRateLimiter_def float_of_small_int)
  then have "Allow_at key (map nanos (start # ts)) ?rl = Allow_at key (map nanos (start # ts)) ?rl1"
    by simp
  also have "\<dots> = ideal_run rate (rl_burst ?rl1) (start # ts) (burst, start)"
    by (rule Allow_at_ideal) (use assms in \<open>auto simp: NewRateLimiter_def\<close>)
  finally show ?thesis using assms(2) by (simp add: NewRateLimiter_def)
qed

text \<open>
  C21: for a whole-number rate and calls at whole seconds the limiter answers exactly as the
  ideal token bucket does; floating point rounding never shows.
\<close>

theorem Allow_refines_ideal:
  assumes "0 < rate" and "1 \<le> burst" and "burst \<le> 2 ^ 53"
    and "sorted (start # ts)" and "0 \<le> start" and "\<forall>s \<in> set (start # ts). nanos s < 2 ^ 63"
  shows "Allow_at key (map nanos (start # ts)) (NewRateLimiter (Fin (of_int rate)) burst) =
           ideal_run rate burst (start # ts) (burst, start)"
  using assms by (rule Allow_at_new_ideal)

theorem Allow_refines_ideal_witness:
  "Allow_at ''k'' (map nanos [0, 0, 0, 1]) (NewRateLimiter (Fin (of_int 1)) 2) = [True, True, False, True]"
  using Allow_refines_ideal [of 1 2 0 "[0, 0, 1]" "''k''"]
  by (simp add: ideal_refill_def Let_def)

lemma ideal_run_bound:
  assumes "0 \<le> rate" "0 \<le> t" "sorted (seen # ts)"
  shows "int (length (filter id (ideal_run rate burst ts (t, seen)))) \<le> t + rate * (List.last (seen # ts) - seen)"
  using assms
proof (induction ts arbitrary: t seen)
  case (Cons now ts)
  let ?t = "ideal_refill rate burst now (t, seen)"
  let ?t' = "if 1 \<le> ?t then ?t - 1 else ?t"
  let ?z = "List.last (now # ts)"
  show ?case
  proof (cases "0 \<le> ?t'")
    case True
    have "int (length (filter id (ideal_run rate burst ts (?t', now)))) \<le> ?t' + rate * (?z - now)"
      by (rule Cons.IH) (use Cons.prems True in auto)
    moreover have "?t - ?t' + ?t' \<le> t + rate * (now - seen)" by (simp add: ideal_refill_def)
    moreover have "int (length (filter id (ideal_run rate burst (now # ts) (t, seen)))) =
        ?t - ?t' + int (length (filter id (ideal_run rate burst ts (?t', now))))"
      by (simp add: Let_def)
    ultimately have "int (length (filter id (ideal_run rate burst (now # ts) (t, seen)))) \<le>
        t + (rate * (now - seen) + rate * (?z - now))"
      by (smt (verit))
    also have "rate * (now - seen) + rate * (?z - now) = rate * (List.last (seen # now # ts) - seen)"
      by (simp add: right_diff_distrib)
    finally show ?thesis .
  next
    case False
    then have burst: "?t = burst" "burst < 0"
      using Cons.prems by (auto simp: ideal_refill_def min_def split: if_splits)
    have none: "filter id (ideal_run rate burst us (u, v)) = []" for us u v
      using burst(2) by (induction us arbitrary: u v) (auto simp: Let_def ideal_refill_def)
    have "seen \<le> List.last (seen # now # ts)"
      using Cons.prems(3) last_in_set [of "now # ts"] by auto
    with Cons.prems none show ?thesis by (metis add_nonneg_nonneg diff_ge_0_iff_ge length_0_conv mult_nonneg_nonneg of_nat_0)
  qed
qed simp

text \<open>A window of an ideal run, after any calls before it.\<close>

abbreviation ideal_after :: "int \<Rightarrow> int \<Rightarrow> int list \<Rightarrow> int \<times> int \<Rightarrow> int \<times> int" where
  "ideal_after rate burst \<equiv>
     fold (\<lambda>now s. let t = ideal_refill rate burst now s in (if 1 \<le> t then t - 1 else t, now))"

lemma ideal_run_append:
  "ideal_run rate burst (ts @ us) s = ideal_run rate burst ts s @ ideal_run rate burst us (ideal_after rate burst ts s)"
  by (induction ts arbitrary: s) (auto simp: Let_def)

lemma ideal_run_length [simp]: "length (ideal_run rate burst ts s) = length ts"
  by (induction ts arbitrary: s) (auto simp: Let_def)

lemma ideal_after_ok:
  assumes "0 \<le> rate" "0 \<le> burst" "0 \<le> t" "sorted (seen # ts)" "\<forall>s \<in> set (seen # ts). s \<le> w"
  shows "0 \<le> fst (ideal_after rate burst ts (t, seen)) \<and> snd (ideal_after rate burst ts (t, seen)) \<le> w"
  using assms
proof (induction ts arbitrary: t seen)
  case (Cons now ts)
  then have "0 \<le> ideal_refill rate burst now (t, seen)" by (simp add: ideal_refill_def)
  with Cons show ?case by (simp add: Let_def)
qed simp

lemma ideal_window_bound:
  assumes "0 \<le> rate" "0 \<le> burst" "0 \<le> t" "sorted (seen # ts @ w # ws)"
  shows "int (length (filter id (ideal_run rate burst (w # ws) (ideal_after rate burst ts (t, seen))))) \<le>
           burst + rate * (List.last (w # ws) - w)"
proof -
  obtain u v where uv: "ideal_after rate burst ts (t, seen) = (u, v)" by fastforce
  have "sorted (seen # ts)" "\<forall>s \<in> set (seen # ts). s \<le> w" using assms(4) by (auto simp: sorted_append)
  with ideal_after_ok [OF assms(1-3)] uv have "0 \<le> u" "v \<le> w" by fastforce+
  define x where "x = ideal_refill rate burst w (u, v)"
  have x: "0 \<le> x" "x \<le> burst"
    using \<open>0 \<le> u\<close> \<open>v \<le> w\<close> assms(1,2) by (auto simp: x_def ideal_refill_def)
  then have "ideal_refill rate burst w (x, w) = x" by (simp add: ideal_refill_def)
  then have same: "ideal_run rate burst (w # ws) (u, v) = ideal_run rate burst (w # ws) (x, w)"
    by (simp add: x_def)
  have "sorted (w # w # ws)" using assms(4) by (auto simp: sorted_append)
  from ideal_run_bound [OF assms(1) x(1) this, of burst] x(2) show ?thesis
    unfolding uv same by simp
qed

text \<open>Calls of several keys, with the answers in their order.\<close>

fun serve_calls :: "(string \<times> int) list \<Rightarrow> limiter \<Rightarrow> (string \<times> bool) list" where
  "serve_calls [] rl = []"
| "serve_calls ((key, now) # cs) rl =
     (case Allow key now rl of (n, ok, rl') \<Rightarrow> (key, ok) # serve_calls cs rl')"

abbreviation at_seconds :: "(string \<times> int) list \<Rightarrow> (string \<times> int) list" where
  "at_seconds cs \<equiv> map (\<lambda>(k, s). (k, nanos s)) cs"

lemma serve_calls_append:
  "\<exists>rl'. serve_calls (cs @ ds) rl = serve_calls cs rl @ serve_calls ds rl'"
  by (induction cs rl rule: serve_calls.induct) (auto split: prod.splits)

lemma serve_calls_length [simp]: "length (serve_calls cs rl) = length cs"
  by (induction cs rl rule: serve_calls.induct) (auto split: prod.splits)

lemma serve_calls_keys: "map fst (serve_calls cs rl) = map fst cs"
  by (induction cs rl rule: serve_calls.induct) (auto split: prod.splits)

text \<open>The answers for one key are those of its own calls.\<close>

lemma Allow_at_cong:
  assumes "rl_conf rl = rl_conf rl'" "rl_buckets rl key = rl_buckets rl' key"
  shows "Allow_at key ts rl = Allow_at key ts rl'"
  using assms
proof (induction ts arbitrary: rl rl')
  case (Cons now ts)
  have "fst (snd (Allow key now rl)) = fst (snd (Allow key now rl'))"
    using Cons.prems by (simp add: Allow_ok)
  moreover have "Allow_at key ts (charge key now rl) = Allow_at key ts (charge key now rl')"
    by (rule Cons.IH) (use Cons.prems in simp_all)
  ultimately show ?case by (simp add: split_beta)
qed simp

lemma serve_calls_project:
  "map snd (filter (\<lambda>(k, ok). k = key) (serve_calls cs rl)) = Allow_at key (rl.events_of key cs) rl"
proof (induction cs arbitrary: rl)
  case (Cons c cs)
  obtain k now where c: "c = (k, now)" by fastforce
  show ?case
  proof (cases "k = key")
    case False
    have "Allow_at key (rl.events_of key cs) (charge k now rl) = Allow_at key (rl.events_of key cs) rl"
      by (rule Allow_at_cong) (use False in simp_all)
    with False Cons c show ?thesis by (simp add: case_prod_unfold)
  qed (use Cons c in \<open>simp add: case_prod_unfold\<close>)
qed simp

lemma events_of_append [simp]: "rl.events_of key (cs @ ds) = rl.events_of key cs @ rl.events_of key ds"
  by simp

lemma events_of_seconds: "rl.events_of key (at_seconds cs) = map nanos (rl.events_of key cs)"
  by (induction cs) auto

lemma sorted_events: "sorted (map snd cs) \<Longrightarrow> sorted (rl.events_of key cs)"
  by (induction cs) auto

lemma window_answers:
  "map snd (filter (\<lambda>(k, ok). k = key) (drop (length cs) (serve_calls (cs @ ds) rl))) =
     drop (length (rl.events_of key cs)) (Allow_at key (rl.events_of key (cs @ ds)) rl)"
proof -
  obtain rl' where "serve_calls (cs @ ds) rl = serve_calls cs rl @ serve_calls ds rl'"
    using serve_calls_append by blast
  moreover have "length (filter (\<lambda>(k, ok). k = key) (serve_calls cs rl)) = length (rl.events_of key cs)"
    using arg_cong [OF serve_calls_keys [of cs rl], of "\<lambda>ks. length (filter (\<lambda>k. k = key) ks)"]
    by (simp add: filter_map comp_def case_prod_unfold)
  ultimately show ?thesis
    unfolding serve_calls_project [symmetric] by (simp add: drop_map)
qed

text \<open>
  C22: hence in any window, whatever calls of whatever keys were made before it and are made in it,
  a key is allowed at most the burst plus the rate times the length of the window. The rate is a whole
  number and the calls come at whole seconds.
\<close>

theorem Allow_window_bound:
  assumes "0 < rate" and "1 \<le> burst" and "burst \<le> 2 ^ 53"
    and "sorted (map snd (before @ window))" and "\<forall>(k, s) \<in> set (before @ window). 0 \<le> s \<and> nanos s < 2 ^ 63"
    and "\<forall>(k, s) \<in> set window. a \<le> s \<and> s \<le> b" and "a \<le> b"
  shows "int (length (filter (\<lambda>x. x = (key, True))
           (drop (length before) (serve_calls (at_seconds (before @ window)) (NewRateLimiter (Fin (of_int rate)) burst)))))
         \<le> burst + rate * (b - a)"
proof -
  let ?rl = "NewRateLimiter (Fin (of_int rate)) burst"
  let ?ts = "rl.events_of key before" and ?us = "rl.events_of key window"
  let ?allowed = "drop (length ?ts) (Allow_at key (map nanos (?ts @ ?us)) ?rl)"
  have split: "at_seconds (before @ window) = at_seconds before @ at_seconds window" by simp
  have "length (filter (\<lambda>x. x = (key, True)) xs) =
      length (filter id (map snd (filter (\<lambda>(k, ok). k = key) xs)))" for xs :: "(string \<times> bool) list"
    by (induction xs) auto
  then have "length (filter (\<lambda>x. x = (key, True)) (drop (length before) (serve_calls (at_seconds (before @ window)) ?rl))) =
      length (filter id (map snd (filter (\<lambda>(k, ok). k = key)
        (drop (length (at_seconds before)) (serve_calls (at_seconds before @ at_seconds window) ?rl)))))"
    by (simp only: split length_map)
  also have "\<dots> = length (filter id ?allowed)"
    unfolding window_answers events_of_append events_of_seconds by (simp only: length_map map_append)
  finally have "length (filter (\<lambda>x. x = (key, True)) (drop (length before) (serve_calls (at_seconds (before @ window)) ?rl))) =
      length (filter id ?allowed)" .
  moreover have "int (length (filter id ?allowed)) \<le> burst + rate * (b - a)"
  proof (cases ?us)
    case Nil
    have "length (Allow_at key ts r) = length ts" for ts r
      by (induction ts arbitrary: r) (auto split: prod.splits)
    with Nil assms show ?thesis by simp
  next
    case (Cons w ws)
    have sorted: "sorted (?ts @ w # ws)"
      using sorted_events [OF assms(4), of key] Cons by simp
    have range: "\<forall>s \<in> set (?ts @ w # ws). 0 \<le> s \<and> nanos s < 2 ^ 63"
      using assms(5) unfolding Cons [symmetric] by auto
    have "set (w # ws) \<subseteq> {a..b}" using assms(6) unfolding Cons [symmetric] by auto
    then have "List.last (w # ws) - w \<le> b - a"
      using last_in_set [of "w # ws"] by (smt (verit) atLeastAtMost_iff list.distinct(1) list.set_intros(1) subsetD)
    then have inside: "rate * (List.last (w # ws) - w) \<le> rate * (b - a)"
      using assms(1) by (intro mult_left_mono) auto
    obtain start ts' where start: "?ts @ w # ws = start # ts'" by (cases "?ts @ w # ws") auto
    have "Allow_at key (map nanos (?ts @ w # ws)) ?rl = ideal_run rate burst (?ts @ w # ws) (burst, start)"
      unfolding start by (rule Allow_at_new_ideal) (use assms(1-3) sorted range start in auto)
    then have allowed: "?allowed = ideal_run rate burst (w # ws) (ideal_after rate burst ?ts (burst, start))"
      unfolding Cons ideal_run_append map_append by simp
    have "sorted (start # ?ts @ w # ws)" using sorted unfolding start by simp
    then have "int (length (filter id ?allowed)) \<le> burst + rate * (List.last (w # ws) - w)"
      unfolding allowed by (intro ideal_window_bound) (use assms(1,2) in auto)
    with inside show ?thesis by linarith
  qed
  ultimately show ?thesis by simp
qed

text \<open>The witness: three calls of two keys, and a window of one second that starts after them.\<close>

theorem Allow_window_bound_witness:
  "int (length (filter (\<lambda>x. x = (''k'', True))
     (drop 3 (serve_calls (at_seconds [(''k'', 5), (''j'', 5), (''k'', 5), (''k'', 7), (''j'', 7), (''k'', 8)])
        (NewRateLimiter (Fin (of_int 1)) 2))))) \<le> 3"
  using Allow_window_bound [of 1 2 "[(''k'', 5), (''j'', 5), (''k'', 5)]" "[(''k'', 7), (''j'', 7), (''k'', 8)]" 7 8 "''k''"]
  by (simp add: numeral_3_eq_3 del: serve_calls.simps)

end
