(* ===== verification/Limiter_Cleanup.thy ===== *)
theory Limiter_Cleanup
  imports Rate_Limiter
begin

text \<open>
  The cleanup loop of \<open>internal/middleware/ratelimit.go\<close> forgets a bucket that was not used for
  ten minutes. Forgetting is invisible when ten minutes refill a whole burst, and hands out
  requests that were not earned when they do not.
\<close>

lemma refill_stale:
  assumes b: "bucket_ok burst now b" and r: "0 < r" "of_int burst \<le> 600 * r"
    and burst: "1 \<le> burst" "burst \<le> 2 ^ 53" and late: "bk_lastSeen b + 600 * 1000000000 \<le> now" "now < 2 ^ 63"
  shows "refill (Fin r) burst now b = \<lparr>bk_tokens = Fin (of_int burst), bk_lastSeen = now\<rparr>"
proof -
  obtain t seen where t: "b = \<lparr>bk_tokens = Fin t, bk_lastSeen = seen\<rparr>"
    "0 \<le> t" "t \<le> of_int burst" "round64 t = t" "0 \<le> seen" "seen \<le> now"
    using b by (rule bucket_okE)
  have "of_int 600 \<le> secs (now - seen)" by (rule secs_ge) (use late t in auto)
  then have "600 * r \<le> secs (now - seen) * r" using r by (simp add: mult_right_mono)
  then have "of_int burst \<le> secs (now - seen) * r" using r by linarith
  then have "core_refill round64 burst r t (secs (now - seen)) = of_int burst"
    by (intro f64.core_full) (use t burst in auto)
  then show ?thesis unfolding t(1) by (subst refill_Fin) (use t r burst late in auto)
qed

lemma answer_cleanup:
  assumes "rl_rate rl' = rl_rate rl" "rl_burst rl' = rl_burst rl"
    and "refill (rl_rate rl) (rl_burst rl) now (bucket_or_new (rl_burst rl) now (rl_buckets rl' key)) =
         refill (rl_rate rl) (rl_burst rl) now (bucket_or_new (rl_burst rl) now (rl_buckets rl key))"
  shows "fst (Allow key now rl') = fst (Allow key now rl)"
    and "fst (snd (Allow key now rl')) = fst (snd (Allow key now rl))"
    and "rl_buckets (charge key now rl') key = rl_buckets (charge key now rl) key"
  using assms by (simp_all add: Allow_def Let_def split: prod.splits)

text \<open>
  C31: when ten minutes at the configured rate refill a whole burst, the cleanup is invisible: the
  next call of any key is answered as without the cleanup and leaves the same bucket.
\<close>

theorem cleanup_transparent:
  assumes ok: "limiter_ok now' rl" and rate: "rl_rate rl = Fin r" "of_int (rl_burst rl) \<le> 600 * r"
    and tick: "tick \<le> now'" "now' < 2 ^ 63" "0 \<le> now'"
  shows "fst (Allow key now' (cleanup tick rl)) = fst (Allow key now' rl)
       \<and> fst (snd (Allow key now' (cleanup tick rl))) = fst (snd (Allow key now' rl))
       \<and> rl_buckets (charge key now' (cleanup tick rl)) key = rl_buckets (charge key now' rl) key"
proof -
  have r: "0 < r" and burst: "1 \<le> rl_burst rl" "rl_burst rl \<le> 2 ^ 53"
    using ok rate by (auto simp: limiter_ok_def)
  have same: "refill (Fin r) (rl_burst rl) now' (bucket_or_new (rl_burst rl) now' (rl_buckets (cleanup tick rl) key)) =
      refill (Fin r) (rl_burst rl) now' (bucket_or_new (rl_burst rl) now' (rl_buckets rl key))"
  proof (cases "rl_buckets rl key")
    case (Some b)
    show ?thesis
    proof (cases "stale tick b \<and> \<not> rl_done rl")
      case True
      have "bucket_ok (rl_burst rl) now' b" using ok Some by (auto simp: limiter_ok_def)
      then have "refill (Fin r) (rl_burst rl) now' b = \<lparr>bk_tokens = Fin (of_int (rl_burst rl)), bk_lastSeen = now'\<rparr>"
        by (rule refill_stale) (use True r rate burst tick in \<open>auto simp: stale_def\<close>)
      with refill_fresh_bucket [OF r burst] Some True show ?thesis
        by (simp add: cleanup_def bucket_or_new_def)
    qed (use Some in \<open>auto simp: cleanup_def\<close>)
  qed (auto simp: cleanup_def)
  have "rl_rate (cleanup tick rl) = rl_rate rl" "rl_burst (cleanup tick rl) = rl_burst rl"
    by (simp_all add: cleanup_def)
  from answer_cleanup [OF this, of now' key] same rate show ?thesis by simp
qed

theorem cleanup_transparent_witness:
  "fst (snd (Allow ''k'' 900000000000 (cleanup 900000000000 (charge ''k'' 0 (NewRateLimiter (Fin 10) 20)))))
   = fst (snd (Allow ''k'' 900000000000 (charge ''k'' 0 (NewRateLimiter (Fin 10) 20))))"
proof -
  let ?rl = "charge ''k'' 0 (NewRateLimiter (Fin 10) 20)"
  have "Allow ''k'' 0 (NewRateLimiter (Fin 10) 20) =
      (19, True, (NewRateLimiter (Fin 10) 20)\<lparr>rl_buckets := [''k'' \<mapsto> \<lparr>bk_tokens = Fin (of_int 19), bk_lastSeen = 0\<rparr>]\<rparr>)"
    using refill_fresh_bucket [of 10 20 0] take_token_int [of 20 0]
    by (simp add: Allow_def NewRateLimiter_def)
  then have rl: "?rl = (NewRateLimiter (Fin 10) 20)\<lparr>rl_buckets := [''k'' \<mapsto> \<lparr>bk_tokens = Fin (of_int 19), bk_lastSeen = 0\<rparr>]\<rparr>"
    by simp
  have "limiter_ok 900000000000 ?rl"
    unfolding rl using round64_int [of 19]
    by (auto simp: limiter_ok_def bucket_ok_def NewRateLimiter_def split: if_splits)
  from cleanup_transparent [OF this, of 10 900000000000 "''k''"]
  show ?thesis by (simp add: NewRateLimiter_def)
qed

section \<open>Slow rates\<close>

lemma take_token_Fin:
  assumes "0 \<le> c" "c \<le> of_int n" "n \<le> 2 ^ 53"
  shows "snd (take_token \<lparr>bk_tokens = Fin c, bk_lastSeen = t\<rparr>) =
     (if c < 1 then (False, \<lparr>bk_tokens = Fin c, bk_lastSeen = t\<rparr>)
      else (True, \<lparr>bk_tokens = Fin (round64 (c - 1)), bk_lastSeen = t\<rparr>))"
proof (cases "c < 1")
  case False
  have "(of_int n :: rat) \<le> of_int (2 ^ 53)" using assms(3) by (simp only: of_int_le_iff)
  then have "c - 1 \<le> 2 ^ 53" using assms(2) by simp
  with False have "fsub (Fin c) (Fin 1) = Fin (round64 (c - 1))"
    using to_float_small [of "c - 1" 53] by (simp add: fsub_def)
  with False show ?thesis by (simp add: take_token_def Let_def)
qed (simp add: take_token_def)

text \<open>A bucket that holds at most \<open>m\<close> tokens allows at most \<open>m\<close> calls at one moment.\<close>

lemma allowed_at_once:
  assumes "rl_rate rl = Fin r" "0 < r" "0 \<le> rl_burst rl" "rl_burst rl \<le> 2 ^ 53"
    and "rl_buckets rl key = Some \<lparr>bk_tokens = Fin c, bk_lastSeen = now\<rparr>"
    and "0 \<le> c" "c \<le> of_int m" "m \<le> rl_burst rl" "round64 c = c"
  shows "int (length (filter snd (Allow_times j key now rl))) \<le> m"
  using assms
proof (induction j arbitrary: rl c m)
  case (Suc j)
  let ?b = "\<lparr>bk_tokens = Fin c, bk_lastSeen = now\<rparr>"
  let ?c' = "if c < 1 then c else round64 (c - 1)"
  let ?rl' = "rl\<lparr>rl_buckets := (rl_buckets rl)(key \<mapsto> \<lparr>bk_tokens = Fin ?c', bk_lastSeen = now\<rparr>)\<rparr>"
  have "(of_int m :: rat) \<le> of_int (rl_burst rl)" using Suc.prems(8) by simp
  then have cap: "c \<le> of_int (rl_burst rl)" using Suc.prems(7) by (rule order_trans [rotated])
  have "refill (rl_rate rl) (rl_burst rl) now ?b = ?b"
    using refill_Fin [of c r "rl_burst rl" now now] f64.core_no_time [of c "rl_burst rl" r] Suc.prems cap by simp
  then have call: "snd (Allow key now rl) = (\<not> c < 1, ?rl')"
    using take_token_Fin [OF Suc.prems(6) cap Suc.prems(4), of now] Suc.prems(5)
    by (auto simp: Allow_def bucket_or_new_def Let_def split: prod.splits if_splits)
  have rest: "int (length (filter snd (Allow_times j key now ?rl'))) \<le> (if c < 1 then m else m - 1)"
  proof (rule Suc.IH)
    show "0 \<le> ?c'" "?c' \<le> of_int (if c < 1 then m else m - 1)" "round64 ?c' = ?c'"
      using Suc.prems f64.core_take [of c] f64.core_take_below [of c m] by auto
  qed (use Suc.prems in auto)
  with call show ?case by (auto simp: split_beta)
qed (use order_trans [of 0 c "of_int m"] in simp)

text \<open>The state after a burst: the bucket is empty.\<close>

lemma charge_times:
  assumes "rl_rate rl = Fin r" "0 < r" "rl_burst rl \<le> 2 ^ 53" "int j \<le> n" "n \<le> rl_burst rl"
    and "bucket_or_new (rl_burst rl) now (rl_buckets rl key) = \<lparr>bk_tokens = Fin (of_int n), bk_lastSeen = now\<rparr>"
  shows "rl_conf ((charge key now ^^ j) rl) = rl_conf rl
       \<and> bucket_or_new (rl_burst rl) now (rl_buckets ((charge key now ^^ j) rl) key) =
           \<lparr>bk_tokens = Fin (of_int (n - int j)), bk_lastSeen = now\<rparr>
       \<and> rl_done ((charge key now ^^ j) rl) = rl_done rl"
  using assms(4)
proof (induction j)
  case (Suc j)
  then have "rl_conf ((charge key now ^^ j) rl) = rl_conf rl"
    "bucket_or_new (rl_burst rl) now (rl_buckets ((charge key now ^^ j) rl) key) =
       \<lparr>bk_tokens = Fin (of_int (n - int j)), bk_lastSeen = now\<rparr>"
    "rl_done ((charge key now ^^ j) rl) = rl_done rl" by auto
  moreover have "0 < n - int j" "n - int j \<le> rl_burst rl" using Suc.prems assms(5) by auto
  ultimately show ?case
    using refill_same_time [of "n - int j" "rl_burst rl" r now] take_token_int [of "n - int j" now] assms(1-3)
    by (simp add: bucket_step_def bucket_or_new_def)
qed (use assms in simp)

lemma spent_burst:
  assumes "0 < r" "1 \<le> burst" "burst \<le> 2 ^ 53"
    and rl: "rl = (charge key now ^^ nat burst) (NewRateLimiter (Fin r) burst)"
  shows "rl_conf rl = (Fin r, burst)" "rl_buckets rl key = Some \<lparr>bk_tokens = Fin 0, bk_lastSeen = now\<rparr>" "\<not> rl_done rl"
proof -
  have "rl_conf rl = (Fin r, burst)
      \<and> bucket_or_new burst now (rl_buckets rl key) = \<lparr>bk_tokens = Fin 0, bk_lastSeen = now\<rparr> \<and> \<not> rl_done rl"
    unfolding rl using charge_times [of "NewRateLimiter (Fin r) burst" r "nat burst" burst now key] assms(1-3)
    by (simp add: NewRateLimiter_def bucket_or_new_def float_of_small_int)
  then show "rl_conf rl = (Fin r, burst)" "rl_buckets rl key = Some \<lparr>bk_tokens = Fin 0, bk_lastSeen = now\<rparr>" "\<not> rl_done rl"
    using assms(2,3) by (auto simp: bucket_or_new_def float_of_small_int split: option.splits)
qed

lemma Allow_times_refilled:
  assumes "rl_buckets rl key = Some b" "refill (rl_rate rl) (rl_burst rl) now b = b'"
    "refill (rl_rate rl) (rl_burst rl) now b' = b'"
  shows "Allow_times j key now rl = Allow_times j key now (rl\<lparr>rl_buckets := (rl_buckets rl)(key \<mapsto> b')\<rparr>)"
  using assms by (cases j) (simp_all add: Allow_def bucket_or_new_def Let_def split: prod.splits)

text \<open>
  C36: with any rate that earns no more than \<open>m\<close> tokens, fewer than the burst, in \<open>k\<close> seconds, more
  than ten minutes, the cleanup is not invisible. A new key may spend its whole burst at some
  moment; when it comes back \<open>k\<close> seconds later, at most \<open>m\<close> calls are allowed, but with a cleanup
  in between that came more than ten minutes after the burst, it has a whole burst again.
\<close>

theorem cleanup_forgives_slow_rates:
  assumes "0 < r" and "m < burst" and "burst \<le> 2 ^ 53" and "r * of_int k \<le> of_int m"
    and "0 \<le> start" and "600 \<le> k" and "start + nanos k < 2 ^ 63"
    and "start + nanos 600 < tick" and "tick \<le> start + nanos k"
    and rl: "rl = (charge key start ^^ nat burst) (NewRateLimiter (Fin r) burst)"
  shows "list_all snd (Allow_times (nat burst) key start (NewRateLimiter (Fin r) burst))
       \<and> int (length (filter snd (Allow_times j key (start + nanos k) rl))) \<le> m
       \<and> list_all snd (Allow_times (nat burst) key (start + nanos k) (cleanup tick rl))"
proof -
  let ?later = "start + nanos k"
  have k: "0 \<le> k" "k \<le> 2 ^ 53" "nanos k < 2 ^ 63" using assms(5-7) by auto
  have "0 < r * of_int k" using assms(1,6) by simp
  with assms(4) have "(0::rat) < of_int m" by linarith
  then have m: "0 < m" "1 \<le> burst" "m \<le> 2 ^ 53" using assms(2,3) by auto
  note spent = spent_burst [OF assms(1) m(2) assms(3) rl]
  have whole: "Allow_times (nat burst) key now l =
      map (\<lambda>i. if int i < burst then (burst - 1 - int i, True) else (0, False)) [0..<nat burst]"
    if "rl_conf l = (Fin r, burst)" "rl_buckets l key = None" for now l
    using Allow_times_tokens [of l r burst now key "nat burst"] that assms(1,3) m
    by (simp add: bucket_or_new_def float_of_small_int)
  have all: "list_all snd (map (\<lambda>i. if int i < burst then (burst - 1 - int i, True) else (0, False)) [0..<nat burst])"
    by (auto simp: list_all_iff)
  have first: "list_all snd (Allow_times (nat burst) key start (NewRateLimiter (Fin r) burst))"
    using whole [of "NewRateLimiter (Fin r) burst" start] all assms(1) m by (simp add: NewRateLimiter_def)
  have "rl_buckets (cleanup tick rl) key = None" "rl_conf (cleanup tick rl) = (Fin r, burst)"
    using spent assms(8) by (simp_all add: cleanup_def stale_def)
  then have forgiven: "list_all snd (Allow_times (nat burst) key ?later (cleanup tick rl))"
    using whole all by simp
  define c where "c = core_refill round64 burst r 0 (secs (nanos k))"
  have c: "0 \<le> c" "round64 c = c" "c \<le> of_int m" "c \<le> of_int burst"
    unfolding c_def
    using f64.core_bounds [of 0 "secs (nanos k)" r burst] f64.core_representable [of 0 "secs (nanos k)" r burst]
      secs_nonneg [of "nanos k"] assms(1,3) m k
      f64.below_int [of "of_int k * r" m] f64.below_int [of "round64 (of_int k * r)" m] f64.nonneg [of "of_int k * r"]
      secs_whole [OF k(1,2)] assms(4)
    by (auto simp: core_refill_def mult.commute [of r] min_le_iff_disj)
  have refilled: "refill (Fin r) burst ?later \<lparr>bk_tokens = Fin 0, bk_lastSeen = start\<rparr> = \<lparr>bk_tokens = Fin c, bk_lastSeen = ?later\<rparr>"
    unfolding c_def using refill_Fin [of 0 r burst ?later start] assms(1,3) m k by simp
  have again: "refill (Fin r) burst ?later \<lparr>bk_tokens = Fin c, bk_lastSeen = ?later\<rparr> = \<lparr>bk_tokens = Fin c, bk_lastSeen = ?later\<rparr>"
    using refill_Fin [of c r burst ?later ?later] f64.core_no_time [of c burst r] assms(1,3) m c by simp
  have "int (length (filter snd (Allow_times j key ?later
      (rl\<lparr>rl_buckets := (rl_buckets rl)(key \<mapsto> \<lparr>bk_tokens = Fin c, bk_lastSeen = ?later\<rparr>)\<rparr>)))) \<le> m"
    by (rule allowed_at_once) (use spent assms(1,2,3) m c in auto)
  then have "int (length (filter snd (Allow_times j key ?later rl))) \<le> m"
    using Allow_times_refilled [of rl key _ ?later] spent refilled again by simp
  with first forgiven show ?thesis by blast
qed

text \<open>The witness: one request in 64 seconds, a burst of 20, and a cleanup after 601 seconds.\<close>

theorem cleanup_forgives_slow_rates_witness:
  "int (length (filter snd (Allow_times 20 ''k'' 601000000000
       ((charge ''k'' 0 ^^ 20) (NewRateLimiter (Fin (1 / 64)) 20))))) \<le> 10
   \<and> list_all snd (Allow_times 20 ''k'' 601000000000
       (cleanup 601000000000 ((charge ''k'' 0 ^^ 20) (NewRateLimiter (Fin (1 / 64)) 20))))"
  using cleanup_forgives_slow_rates [of "1 / 64" 10 20 601 0 601000000000
      "(charge ''k'' 0 ^^ nat 20) (NewRateLimiter (Fin (1 / 64)) 20)" "''k''" 20]
  by (simp del: Allow_times.simps)

end
