(* ===== verification/Go_Error.thy ===== *)
theory Go_Error
  imports Go_Text
begin

text \<open>
  Prelude, part three: Go's \<open>error\<close> values. What the program asks of an error is its message,
  whether \<open>errors.Is\<close> finds a sentinel in its chain, and whether \<open>errors.As\<close> finds a
  \<open>net.Error\<close> or a \<open>*net.OpError\<close> there. An error is therefore its message, the sentinels it
  is equal to (or declares itself to be by an \<open>Is\<close> method), the answer of its \<open>Timeout\<close> method
  when its type is a \<open>net.Error\<close>, whether it is a \<open>*net.OpError\<close>, and the error it wraps.
\<close>

datatype sentinel =
    DeadlineExceeded
  | Canceled
  | ErrTooLong
  | ErrInvalidKey
  | ErrBackendNotFound
  | ErrNoHealthyBackend
  | ErrRouterBackendNotFound
  | ErrCapabilityNotSupported

datatype gerr =
  GErr (err_msg: string) (err_ids: "sentinel list") (err_net: "bool option") (err_op: bool)
    (err_wrap: "gerr option")

definition new_error :: "string \<Rightarrow> gerr" where
  "new_error m = GErr m [] None False None"

text \<open>\<open>fmt.Errorf\<close> with a \<open>%w\<close> verb: a message of its own around an error.\<close>

definition wrap_error :: "string \<Rightarrow> gerr \<Rightarrow> gerr" where
  "wrap_error m e = GErr m [] None False (Some e)"

definition context_error :: "string \<Rightarrow> gerr \<Rightarrow> gerr" where
  "context_error m e = wrap_error (m @ '': '' @ err_msg e) e"

fun sentinel_error :: "sentinel \<Rightarrow> gerr" where
  "sentinel_error DeadlineExceeded =
     GErr ''context deadline exceeded'' [DeadlineExceeded] (Some True) False None"
| "sentinel_error Canceled = GErr ''context canceled'' [Canceled] None False None"
| "sentinel_error ErrTooLong = GErr ''bufio.Scanner: token too long'' [ErrTooLong] None False None"
| "sentinel_error ErrInvalidKey = GErr ''invalid api key'' [ErrInvalidKey] None False None"
| "sentinel_error ErrBackendNotFound = GErr ''backend not found'' [ErrBackendNotFound] None False None"
| "sentinel_error ErrNoHealthyBackend =
     GErr ''no healthy backend available'' [ErrNoHealthyBackend] None False None"
| "sentinel_error ErrRouterBackendNotFound =
     GErr ''no backend found'' [ErrRouterBackendNotFound] None False None"
| "sentinel_error ErrCapabilityNotSupported =
     GErr ''capability not supported by any backend'' [ErrCapabilityNotSupported] None False None"

fun err_is :: "sentinel \<Rightarrow> gerr \<Rightarrow> bool" where
  "err_is s (GErr m ids n p w) =
     (s \<in> set ids \<or> (case w of None \<Rightarrow> False | Some e \<Rightarrow> err_is s e))"

text \<open>The \<open>Timeout\<close> of the first \<open>net.Error\<close> in the chain, if there is one.\<close>

fun as_net_error :: "gerr \<Rightarrow> bool option" where
  "as_net_error (GErr m ids n p w) =
     (case n of
        Some t \<Rightarrow> Some t
      | None \<Rightarrow> (case w of None \<Rightarrow> None | Some e \<Rightarrow> as_net_error e))"

fun as_op_error :: "gerr \<Rightarrow> bool" where
  "as_op_error (GErr m ids n p w) =
     (p \<or> (case w of None \<Rightarrow> False | Some e \<Rightarrow> as_op_error e))"

lemma wrap_error_simps [simp]:
  "err_msg (wrap_error m e) = m"
  "err_is s (wrap_error m e) = err_is s e"
  "as_net_error (wrap_error m e) = as_net_error e"
  "as_op_error (wrap_error m e) = as_op_error e"
  by (simp_all add: wrap_error_def)

lemma context_error_simps [simp]:
  "err_msg (context_error m e) = m @ '': '' @ err_msg e"
  "err_is s (context_error m e) = err_is s e"
  "as_net_error (context_error m e) = as_net_error e"
  "as_op_error (context_error m e) = as_op_error e"
  by (simp_all add: context_error_def)

lemma new_error_simps [simp]:
  "err_msg (new_error m) = m"
  "err_is s (new_error m) = False"
  "as_net_error (new_error m) = None"
  "as_op_error (new_error m) = False"
  by (simp_all add: new_error_def)

lemma err_is_sentinel [simp]: "err_is s (sentinel_error t) = (s = t)"
  by (cases t) auto

end
