(* ===== verification/Go_Json.thy ===== *)
theory Go_Json
  imports Go_Text
begin

text \<open>
  Prelude, part four: the text \<open>encoding/json\<close> prints for the small documents the program
  builds itself (error envelopes, health reports). The printer escapes a string the way the
  default encoder does: quote and backslash, control characters, the three HTML characters,
  U+2028 and U+2029, and the replacement character for bytes that are not UTF-8. The large
  request and response documents (chat, embeddings, models) are encoded and decoded by
  parameters of the handlers, since only their content matters to the program.
\<close>

datatype json =
    JNull
  | JBool bool
  | JInt int
  | JStr string
  | JArr "json list"
  | JObj "(string \<times> json) list"

abbreviation byte :: "char \<Rightarrow> nat" where
  "byte c \<equiv> of_char c"

definition is_cont :: "char \<Rightarrow> bool" where
  "is_cont c \<longleftrightarrow> 128 \<le> byte c \<and> byte c < 192"

text \<open>The length of the UTF-8 sequence a text starts with, 0 when it starts with none.\<close>

fun utf8_len :: "string \<Rightarrow> nat" where
  "utf8_len [] = 0"
| "utf8_len (a # s) =
     (if byte a < 128 then 1
      else if 194 \<le> byte a \<and> byte a \<le> 223 then
        (case s of b # _ \<Rightarrow> if is_cont b then 2 else 0 | _ \<Rightarrow> 0)
      else if 224 \<le> byte a \<and> byte a \<le> 239 then
        (case s of b # c # _ \<Rightarrow>
           if is_cont b \<and> is_cont c \<and> (byte a = 224 \<longrightarrow> 160 \<le> byte b) \<and> (byte a = 237 \<longrightarrow> byte b < 160)
           then 3 else 0 | _ \<Rightarrow> 0)
      else if 240 \<le> byte a \<and> byte a \<le> 244 then
        (case s of b # c # d # _ \<Rightarrow>
           if is_cont b \<and> is_cont c \<and> is_cont d \<and> (byte a = 240 \<longrightarrow> 144 \<le> byte b) \<and> (byte a = 244 \<longrightarrow> byte b < 144)
           then 4 else 0 | _ \<Rightarrow> 0)
      else 0)"

definition hex_digit :: "nat \<Rightarrow> char" where
  "hex_digit n = (if n < 10 then char_of (48 + n) else char_of (87 + n))"

definition escape_ascii :: "char \<Rightarrow> string" where
  "escape_ascii c =
     (let n = byte c
      in if n = 34 \<or> n = 92 then [CHR 0x5C, c]
         else if n = 8 then [CHR 0x5C, CHR ''b'']
         else if n = 12 then [CHR 0x5C, CHR ''f'']
         else if n = 10 then [CHR 0x5C, CHR ''n'']
         else if n = 13 then [CHR 0x5C, CHR ''r'']
         else if n = 9 then [CHR 0x5C, CHR ''t'']
         else if n < 32 \<or> n = 60 \<or> n = 62 \<or> n = 38
              then [CHR 0x5C, CHR ''u'', CHR ''0'', CHR ''0'', hex_digit (n div 16), hex_digit (n mod 16)]
         else [c])"

function escape_json :: "string \<Rightarrow> string" where
  "escape_json [] = []"
| "escape_json (c # s) =
     (let k = utf8_len (c # s)
      in if k = 1 then escape_ascii c @ escape_json s
         else if k = 0 then CHR 0x5C # ''ufffd'' @ escape_json s
         else if take 3 (c # s) = [CHR 0xE2, CHR 0x80, CHR 0xA8] then CHR 0x5C # ''u2028'' @ escape_json (drop 3 (c # s))
         else if take 3 (c # s) = [CHR 0xE2, CHR 0x80, CHR 0xA9] then CHR 0x5C # ''u2029'' @ escape_json (drop 3 (c # s))
         else take k (c # s) @ escape_json (drop k (c # s)))"
  by pat_completeness auto
termination
  by (relation "measure length") (auto simp: Let_def)

definition quote_json :: "string \<Rightarrow> string" where
  "quote_json s = CHR 0x22 # escape_json s @ [CHR 0x22]"

fun join_with :: "string \<Rightarrow> string list \<Rightarrow> string" where
  "join_with d [] = []"
| "join_with d [x] = x"
| "join_with d (x # xs) = x @ d @ join_with d xs"

fun json_text :: "json \<Rightarrow> string" where
  "json_text JNull = ''null''"
| "json_text (JBool b) = (if b then ''true'' else ''false'')"
| "json_text (JInt n) = itoa n"
| "json_text (JStr s) = quote_json s"
| "json_text (JArr xs) = ''['' @ join_with '','' (map json_text xs) @ '']''"
| "json_text (JObj kvs) =
     ''{'' @ join_with '','' (map (\<lambda>(k, v). quote_json k @ '':'' @ json_text v) kvs) @ ''}''"

text \<open>\<open>json.Encoder.Encode\<close> writes the document and a newline in one call.\<close>

definition encode_line :: "json \<Rightarrow> string" where
  "encode_line j = json_text j @ [CHR 0x0A]"

text \<open>A field with \<open>omitempty\<close> is left out when it is the empty string.\<close>

definition opt_str :: "string \<Rightarrow> string \<Rightarrow> (string \<times> json) list" where
  "opt_str k v = (if v = [] then [] else [(k, JStr v)])"

end
