(* ===== verification/Api_Error.thy ===== *)
theory Api_Error
  imports Go_Error Go_Json
begin

text \<open>
  The package \<open>apierror\<close>: the OpenAI-compatible error value, its constructors, and the map from
  an error of a backend call to the error the client sees.
\<close>

section \<open>Errors and their constructors\<close>

definition TypeInvalidRequest :: string where "TypeInvalidRequest = ''invalid_request_error''"
definition TypeAuthentication :: string where "TypeAuthentication = ''authentication_error''"
definition TypeRateLimit :: string where "TypeRateLimit = ''rate_limit_error''"
definition TypeServer :: string where "TypeServer = ''server_error''"
definition TypeBackendDown :: string where "TypeBackendDown = ''backend_error''"

record api_error =
  ae_status :: int
  ae_message :: string
  ae_type :: string
  ae_code :: string
  ae_param :: string

definition Error :: "api_error \<Rightarrow> string" where
  "Error e = ae_message e"

definition error_envelope :: "api_error \<Rightarrow> json" where
  "error_envelope e =
     JObj [(''error'', JObj ([(''message'', JStr (ae_message e)), (''type'', JStr (ae_type e))]
              @ opt_str ''code'' (ae_code e) @ opt_str ''param'' (ae_param e)))]"

definition InvalidRequest :: "string \<Rightarrow> api_error" where
  "InvalidRequest msg =
     \<lparr>ae_status = 400, ae_message = msg, ae_type = TypeInvalidRequest, ae_code = [], ae_param = []\<rparr>"

definition InvalidParam :: "string \<Rightarrow> string \<Rightarrow> api_error" where
  "InvalidParam param msg =
     \<lparr>ae_status = 400, ae_message = msg, ae_type = TypeInvalidRequest, ae_code = [], ae_param = param\<rparr>"

definition Unauthorized :: "string \<Rightarrow> api_error" where
  "Unauthorized msg =
     \<lparr>ae_status = 401, ae_message = msg, ae_type = TypeAuthentication,
      ae_code = ''invalid_api_key'', ae_param = []\<rparr>"

definition RateLimited :: api_error where
  "RateLimited =
     \<lparr>ae_status = 429, ae_message = ''Rate limit exceeded. Please retry after a brief wait.'',
      ae_type = TypeRateLimit, ae_code = ''rate_limit_exceeded'', ae_param = []\<rparr>"

definition BackendUnavailable :: "string \<Rightarrow> api_error" where
  "BackendUnavailable backend =
     \<lparr>ae_status = 503, ae_message = ''Backend '' @ backend @ '' is currently unavailable.'',
      ae_type = TypeBackendDown, ae_code = ''backend_unavailable'', ae_param = []\<rparr>"

definition Internal :: "string \<Rightarrow> api_error" where
  "Internal msg =
     \<lparr>ae_status = 500, ae_message = msg, ae_type = TypeServer, ae_code = [], ae_param = []\<rparr>"

definition BackendTimeout :: "string \<Rightarrow> api_error" where
  "BackendTimeout backend =
     \<lparr>ae_status = 504, ae_message = ''Backend '' @ backend @ '' timed out.'',
      ae_type = TypeBackendDown, ae_code = ''backend_timeout'', ae_param = []\<rparr>"

definition BackendOverloaded :: "string \<Rightarrow> api_error" where
  "BackendOverloaded backend =
     \<lparr>ae_status = 503, ae_message = ''Backend '' @ backend @ '' is overloaded. Please retry shortly.'',
      ae_type = TypeBackendDown, ae_code = ''backend_overloaded'', ae_param = []\<rparr>"

lemmas backend_error_defs = BackendUnavailable_def BackendTimeout_def BackendOverloaded_def

section \<open>Classification of backend errors\<close>

definition isClientTimeout :: "gerr \<Rightarrow> bool" where
  "isClientTimeout err =
     (let msg = to_lower (err_msg err)
      in contains msg ''client.timeout exceeded''
         \<or> contains msg ''context deadline exceeded''
         \<or> contains msg ''i/o timeout''
         \<or> contains msg ''timeout awaiting response headers'')"

definition isConnectionUnavailable :: "gerr \<Rightarrow> bool" where
  "isConnectionUnavailable err =
     (if as_net_error err = Some True then False
      else if as_op_error err then True
      else let msg = to_lower (err_msg err)
           in contains msg ''connection refused''
              \<or> contains msg ''no such host''
              \<or> contains msg ''network is unreachable''
              \<or> contains msg ''connection reset''
              \<or> contains msg ''dial tcp'')"

definition upstreamHTTPStatus :: "gerr \<Rightarrow> int option" where
  "upstreamHTTPStatus err =
     (let msg = err_msg err
      in case index_of ''status '' msg of
           None \<Rightarrow> None
         | Some idx \<Rightarrow>
             let rest = drop (idx + length ''status '') msg;
                 n = (case index_any '': '' rest of None \<Rightarrow> length rest | Some e \<Rightarrow> e)
             in atoi (trim_space (take n rest)))"

definition isOverloadMessage :: "string \<Rightarrow> bool" where
  "isOverloadMessage msg =
     (let lower = to_lower msg
      in contains lower ''server busy''
         \<or> contains lower ''too many requests''
         \<or> contains lower ''overloaded''
         \<or> contains lower ''rate limit'')"

definition FromBackendError :: "string \<Rightarrow> gerr option \<Rightarrow> api_error option" where
  "FromBackendError backend err =
     (case err of
        None \<Rightarrow> None
      | Some e \<Rightarrow>
          if err_is DeadlineExceeded e \<or> isClientTimeout e then Some (BackendTimeout backend)
          else if isConnectionUnavailable e then Some (BackendUnavailable backend)
          else let status = upstreamHTTPStatus e
               in if status \<in> {Some 429, Some 502, Some 503} then Some (BackendOverloaded backend)
                  else if status = Some 504 then Some (BackendTimeout backend)
                  else if isOverloadMessage (err_msg e) then Some (BackendOverloaded backend)
                  else Some (BackendUnavailable backend))"

text \<open>Whatever went wrong, the client sees one of three errors of the type \<open>backend_error\<close>.\<close>

lemma FromBackendError_cases:
  "FromBackendError b (Some e) \<in>
     {Some (BackendTimeout b), Some (BackendUnavailable b), Some (BackendOverloaded b)}"
  by (simp add: FromBackendError_def Let_def)

lemma FromBackendError_None_iff [simp]: "FromBackendError b e = None \<longleftrightarrow> e = None"
  by (auto simp: FromBackendError_def Let_def split: option.splits)

text \<open>
  The status an adapter reports as \<open>status N: body\<close> is the status that is read back, when the
  text before it does not hold the word \<open>status\<close>.
\<close>

lemma upstreamHTTPStatus_report:
  assumes msg: "err_msg e = pre @ ''status '' @ itoa n @ '': '' @ body"
    and pre: "index_of ''status '' (pre @ ''status '') = Some (length pre)"
    and n: "0 \<le> n" "in_int64 n"
  shows "upstreamHTTPStatus e = Some n"
proof -
  have digits: "\<forall>c \<in> set (itoa n). is_digit c"
    using n by (auto simp: itoa_def dest: itoa_nat_digits)
  have idx: "index_of ''status '' (err_msg e) = Some (length pre)"
    using index_of_append [OF pre, of "itoa n @ '': '' @ body"] by (simp add: msg)
  have "\<forall>c \<in> set '': ''. \<not> is_digit c" by (simp add: is_digit_def)
  then have "index_any '': '' (itoa n @ '': '' @ body) = Some (length (itoa n))"
    using digits by (simp add: index_any_digits)
  with idx digits n show ?thesis
    by (simp add: upstreamHTTPStatus_def msg trim_space_digits atoi_itoa)
qed

lemma FromBackendError_report:
  assumes "err_msg e = pre @ ''status '' @ itoa n @ '': '' @ body"
    and "index_of ''status '' (pre @ ''status '') = Some (length pre)"
    and "0 \<le> n" "in_int64 n"
    and "\<not> err_is DeadlineExceeded e" "\<not> isClientTimeout e" "\<not> isConnectionUnavailable e"
  shows "FromBackendError b (Some e) =
           Some (if n \<in> {429, 502, 503} then BackendOverloaded b
                 else if n = 504 then BackendTimeout b
                 else if isOverloadMessage (err_msg e) then BackendOverloaded b
                 else BackendUnavailable b)"
  using upstreamHTTPStatus_report [OF assms(1-4)] assms(5-7)
  by (simp add: FromBackendError_def Let_def)

end
