(* ===== verification/Http.thy ===== *)
theory Http
  imports Api_Error
begin

text \<open>
  Requests, response writers and handlers, as the program uses them of \<open>net/http\<close>, and
  \<open>apierror.Write\<close>, the one way an error reaches the client. A response writer records the
  header map, the status line once it is sent (with the headers of that moment), the body, and
  the \<open>statusWriter\<close>s that the middleware has wrapped around it. What the connection does to the
  coming writes, and what the request context answers when it is asked, are lists of outcomes
  that are used up one by one; an exhausted list means success.
\<close>

section \<open>Requests\<close>

type_synonym header = "string \<rightharpoonup> string"

text \<open>The context values the middleware stores, by their key.\<close>

datatype ctx_key = CtxRequestID | CtxAPIKey

record request =
  rq_method :: string
  rq_path :: string
  rq_header :: header
  rq_body :: string
  rq_remote :: string
  rq_ctx :: "ctx_key \<rightharpoonup> string"

text \<open>\<open>Header.Get\<close> and a context lookup with a failed type assertion give the empty string.\<close>

definition get_or_empty :: "('k \<rightharpoonup> string) \<Rightarrow> 'k \<Rightarrow> string" where
  "get_or_empty m k = (case m k of None \<Rightarrow> [] | Some v \<Rightarrow> v)"

definition with_value :: "ctx_key \<Rightarrow> string \<Rightarrow> request \<Rightarrow> request" where
  "with_value k v r = r\<lparr>rq_ctx := (rq_ctx r)(k \<mapsto> v)\<rparr>"

lemma get_or_empty_upd [simp]:
  "get_or_empty (m(k \<mapsto> v)) k' = (if k' = k then v else get_or_empty m k')"
  by (simp add: get_or_empty_def)

lemma with_value_simps [simp]:
  "rq_method (with_value k v r) = rq_method r"
  "rq_path (with_value k v r) = rq_path r"
  "rq_header (with_value k v r) = rq_header r"
  "rq_body (with_value k v r) = rq_body r"
  "rq_ctx (with_value k v r) = (rq_ctx r)(k \<mapsto> v)"
  by (simp_all add: with_value_def)

section \<open>Response writers\<close>

text \<open>The middleware's \<open>statusWriter\<close>: the first status, the bytes written.\<close>

record status_writer =
  sw_status :: int
  sw_bytes :: int
  sw_wrote :: bool

definition new_status_writer :: status_writer where
  "new_status_writer = \<lparr>sw_status = 200, sw_bytes = 0, sw_wrote = False\<rparr>"

definition sw_WriteHeader :: "int \<Rightarrow> status_writer \<Rightarrow> status_writer" where
  "sw_WriteHeader code sw = (if sw_wrote sw then sw else sw\<lparr>sw_status := code, sw_wrote := True\<rparr>)"

definition sw_Write :: "nat \<Rightarrow> status_writer \<Rightarrow> status_writer" where
  "sw_Write n sw = sw\<lparr>sw_bytes := sw_bytes sw + int n\<rparr>"

record writer =
  wr_hdr :: header
  wr_sent :: "(int \<times> header) option"
  wr_body :: string
  wr_outcomes :: "(nat \<times> gerr) option list"
  wr_ctx_errs :: "gerr option list"
  wr_flusher :: bool
  wr_flushes :: nat
  wr_wrap :: "status_writer list"

definition new_writer :: writer where
  "new_writer =
     \<lparr>wr_hdr = Map.empty, wr_sent = None, wr_body = [], wr_outcomes = [], wr_ctx_errs = [],
      wr_flusher = True, wr_flushes = 0, wr_wrap = []\<rparr>"

definition set_header :: "string \<Rightarrow> string \<Rightarrow> writer \<Rightarrow> writer" where
  "set_header k v w = w\<lparr>wr_hdr := (wr_hdr w)(k \<mapsto> v)\<rparr>"

text \<open>The status line goes out once; a later \<open>WriteHeader\<close> is superfluous and ignored.\<close>

definition send_status :: "int \<Rightarrow> writer \<Rightarrow> writer" where
  "send_status code w =
     (case wr_sent w of None \<Rightarrow> w\<lparr>wr_sent := Some (code, wr_hdr w)\<rparr> | Some _ \<Rightarrow> w)"

text \<open>\<open>WriteHeader\<close> and \<open>Write\<close> through every \<open>statusWriter\<close> around the connection.\<close>

definition write_header :: "int \<Rightarrow> writer \<Rightarrow> writer" where
  "write_header code w = send_status code (w\<lparr>wr_wrap := map (sw_WriteHeader code) (wr_wrap w)\<rparr>)"

definition accept_bytes :: "string \<Rightarrow> writer \<Rightarrow> writer" where
  "accept_bytes s w =
     w\<lparr>wr_body := wr_body w @ s, wr_outcomes := drop 1 (wr_outcomes w),
       wr_wrap := map (sw_Write (length s)) (wr_wrap w)\<rparr>"

definition write_bytes :: "string \<Rightarrow> writer \<Rightarrow> gerr option \<times> writer" where
  "write_bytes s w =
     (let w1 = send_status 200 w
      in case wr_outcomes w of
           Some (n, e) # _ \<Rightarrow> (Some e, accept_bytes (take n s) w1)
         | _ \<Rightarrow> (None, accept_bytes s w1))"

definition is_flusher :: "writer \<Rightarrow> bool" where
  "is_flusher w \<longleftrightarrow> wr_wrap w \<noteq> [] \<or> wr_flusher w"

definition flush :: "writer \<Rightarrow> writer" where
  "flush w = (if wr_flusher w then (send_status 200 w)\<lparr>wr_flushes := Suc (wr_flushes w)\<rparr> else w)"

definition context_err :: "writer \<Rightarrow> gerr option \<times> writer" where
  "context_err w =
     (case wr_ctx_errs w of [] \<Rightarrow> (None, w) | e # es \<Rightarrow> (e, w\<lparr>wr_ctx_errs := es\<rparr>))"

text \<open>\<open>statusWriter\<close>s are put on and taken off around a handler.\<close>

definition push_wrap :: "writer \<Rightarrow> writer" where
  "push_wrap w = w\<lparr>wr_wrap := new_status_writer # wr_wrap w\<rparr>"

definition pop_wrap :: "writer \<Rightarrow> writer" where
  "pop_wrap w = w\<lparr>wr_wrap := tl (wr_wrap w)\<rparr>"

definition top_wrap :: "writer \<Rightarrow> status_writer" where
  "top_wrap w = (case wr_wrap w of [] \<Rightarrow> new_status_writer | sw # _ \<Rightarrow> sw)"

section \<open>apierror.Write\<close>

definition write_json :: "json \<Rightarrow> writer \<Rightarrow> writer" where
  "write_json j w = snd (write_bytes (encode_line j) w)"

definition api_write :: "api_error option \<Rightarrow> writer \<Rightarrow> writer" where
  "api_write err w =
     (case err of
        None \<Rightarrow> w
      | Some e \<Rightarrow>
          write_json (error_envelope e)
            (write_header (ae_status e) (set_header ''Content-Type'' ''application/json'' w)))"

text \<open>The response a client has received: its status and body.\<close>

definition status_of :: "writer \<Rightarrow> int option" where
  "status_of w = map_option fst (wr_sent w)"

definition sent_header :: "writer \<Rightarrow> header" where
  "sent_header w = (case wr_sent w of None \<Rightarrow> Map.empty | Some (_, h) \<Rightarrow> h)"

lemma write_header_status [simp]:
  "status_of (write_header code w) = (case status_of w of None \<Rightarrow> Some code | Some c \<Rightarrow> Some c)"
  by (auto simp: status_of_def write_header_def send_status_def split: option.splits)

lemma write_bytes_status [simp]:
  "status_of (snd (write_bytes s w)) = (case status_of w of None \<Rightarrow> Some 200 | Some c \<Rightarrow> Some c)"
  by (auto simp: status_of_def write_bytes_def send_status_def accept_bytes_def Let_def
      split: option.splits list.splits)

lemma set_header_status [simp]: "status_of (set_header k v w) = status_of w"
  by (simp add: status_of_def set_header_def)

lemma wrap_status [simp]:
  "status_of (push_wrap w) = status_of w" "status_of (pop_wrap w) = status_of w"
  "status_of (snd (context_err w)) = status_of w"
  "status_of (flush w) = (if wr_flusher w then case status_of w of None \<Rightarrow> Some 200 | Some c \<Rightarrow> Some c else status_of w)"
  by (auto simp: status_of_def push_wrap_def pop_wrap_def context_err_def flush_def send_status_def
      split: list.splits option.splits)

lemma push_pop_simps [simp]:
  "wr_wrap (push_wrap w) = new_status_writer # wr_wrap w" "wr_wrap (pop_wrap w) = tl (wr_wrap w)"
  "wr_sent (push_wrap w) = wr_sent w" "wr_sent (pop_wrap w) = wr_sent w"
  "wr_hdr (push_wrap w) = wr_hdr w" "wr_hdr (pop_wrap w) = wr_hdr w"
  "wr_body (push_wrap w) = wr_body w" "wr_body (pop_wrap w) = wr_body w"
  "wr_outcomes (push_wrap w) = wr_outcomes w" "wr_outcomes (pop_wrap w) = wr_outcomes w"
  by (simp_all add: push_wrap_def pop_wrap_def)

lemma set_header_simps [simp]:
  "wr_wrap (set_header k v w) = wr_wrap w" "wr_sent (set_header k v w) = wr_sent w"
  "wr_hdr (set_header k v w) = (wr_hdr w)(k \<mapsto> v)" "wr_body (set_header k v w) = wr_body w"
  "wr_outcomes (set_header k v w) = wr_outcomes w"
  by (simp_all add: set_header_def)

lemma api_write_status:
  "status_of w = None \<Longrightarrow> status_of (api_write (Some e) w) = Some (ae_status e)"
  by (simp add: api_write_def write_json_def)

lemma api_write_sent:
  "wr_sent w = None \<Longrightarrow> wr_sent (api_write (Some e) w) =
     Some (ae_status e, (wr_hdr w)(''Content-Type'' \<mapsto> ''application/json''))"
  by (simp add: api_write_def write_json_def write_bytes_def write_header_def send_status_def
      set_header_def accept_bytes_def Let_def split: list.splits option.splits)

lemma api_write_response:
  assumes "wr_sent w = None" and "wr_outcomes w = []"
  shows "wr_sent (api_write (Some e) w) =
           Some (ae_status e, (wr_hdr w)(''Content-Type'' \<mapsto> ''application/json''))"
    and "wr_body (api_write (Some e) w) = wr_body w @ encode_line (error_envelope e)"
  using assms
  by (simp_all add: api_write_def write_json_def write_bytes_def write_header_def send_status_def
      set_header_def accept_bytes_def)

text \<open>Writing never changes how many \<open>statusWriter\<close>s are around the connection.\<close>

lemma wrap_length [simp]:
  "length (wr_wrap (write_header code w)) = length (wr_wrap w)"
  "length (wr_wrap (snd (write_bytes s w))) = length (wr_wrap w)"
  "length (wr_wrap (set_header k v w)) = length (wr_wrap w)"
  "length (wr_wrap (flush w)) = length (wr_wrap w)"
  "length (wr_wrap (snd (context_err w))) = length (wr_wrap w)"
  by (auto simp: write_header_def send_status_def write_bytes_def set_header_def flush_def
      context_err_def accept_bytes_def Let_def split: option.splits list.splits)

lemma wrap_length_api_write [simp]: "length (wr_wrap (api_write e w)) = length (wr_wrap w)"
  by (auto simp: api_write_def write_json_def split: option.splits)

end
