(* ===== verification/Backend.thy ===== *)
theory Backend
  imports Http Float64
begin

text \<open>
  The package \<open>backend\<close>, part one: the OpenAI-compatible documents and the interfaces a backend
  offers (\<open>internal/backend/backend.go\<close>). An interface value is the record of its methods. What
  lies beyond the process (the HTTP transport, the JSON codec for the large documents) is the
  environment record that every method takes: the outcome of the calls it makes.
\<close>

section \<open>Documents\<close>

text \<open>A \<open>json.RawMessage\<close> is its text; a pointer that may be nil is an option.\<close>

record tool_call_function =
  tcf_Name :: string
  tcf_Arguments :: string

record tool_call =
  tc_ID :: string
  tc_Type :: string
  tc_Function :: tool_call_function

record tool_function =
  tf_Name :: string
  tf_Description :: string
  tf_Parameters :: string

record tool =
  tool_Type :: string
  tool_Function :: tool_function

record message =
  msg_Role :: string
  msg_Content :: string
  msg_Name :: string
  msg_ToolCalls :: "tool_call list"
  msg_ToolCallID :: string

record chat_request =
  cr_Model :: string
  cr_Messages :: "message list"
  cr_Temperature :: "float64 option"
  cr_TopP :: "float64 option"
  cr_N :: "int option"
  cr_MaxTokens :: "int option"
  cr_MaxCompletionTokens :: "int option"
  cr_Stop :: string
  cr_Stream :: bool
  cr_PresencePenalty :: "float64 option"
  cr_FrequencyPenalty :: "float64 option"
  cr_Logprobs :: "bool option"
  cr_TopLogprobs :: "int option"
  cr_Seed :: "int option"
  cr_User :: string
  cr_Tools :: "tool list"
  cr_ToolChoice :: string
  cr_ResponseFormat :: string

record usage =
  us_PromptTokens :: int
  us_CompletionTokens :: int
  us_TotalTokens :: int

record choice =
  ch_Index :: int
  ch_Message :: "message option"
  ch_Delta :: "message option"
  ch_FinishReason :: "string option"

record chat_response =
  cp_ID :: string
  cp_Object :: string
  cp_Created :: int
  cp_Model :: string
  cp_Choices :: "choice list"
  cp_Usage :: "usage option"

record model =
  md_ID :: string
  md_Object :: string
  md_Created :: int
  md_OwnedBy :: string

record models_response =
  mr_Object :: string
  mr_Data :: "model list"

record embed_request =
  er_Model :: string
  er_Input :: string
  er_EncodingFormat :: string

record embedding =
  eb_Object :: string
  eb_Index :: int
  eb_Embedding :: "float64 list"

record embed_response =
  ep_Object :: string
  ep_Data :: "embedding list"
  ep_Model :: string
  ep_Usage :: "usage option"

record tts_request =
  tr_Model :: string
  tr_Input :: string
  tr_Voice :: string
  tr_ResponseFormat :: string
  tr_Speed :: float64

record tts_response =
  tp_Audio :: string
  tp_Format :: string
  tp_DurationMs :: int

record voice =
  vc_ID :: string
  vc_Name :: string
  vc_Gender :: string
  vc_Language :: string

section \<open>The environment of a call\<close>

text \<open>The HTTP client of an adapter, its requests and what comes back.\<close>

record http_client =
  cl_timeout :: int

record http_request =
  hq_method :: string
  hq_url :: string
  hq_header :: header
  hq_body :: string

text \<open>
  A reply's body is the bytes that arrive and the error that ends it, if it does not end well;
  \<open>rp_err_early\<close> says that the reader learned of that error together with the last bytes.
\<close>

record http_reply =
  rp_status :: int
  rp_header :: header
  rp_body :: string
  rp_read_err :: "gerr option"
  rp_err_early :: bool

record env =
  ev_new_request :: "string \<Rightarrow> string \<Rightarrow> gerr option"
  ev_do :: "http_client \<Rightarrow> http_request \<Rightarrow> gerr + http_reply"
  ev_enc_chat :: "chat_request \<Rightarrow> gerr + string"
  ev_enc_embed :: "embed_request \<Rightarrow> gerr + string"
  ev_enc_tts :: "tts_request \<Rightarrow> gerr + string"
  ev_dec_chat_resp :: "string \<Rightarrow> gerr option \<Rightarrow> gerr + chat_response"
  ev_dec_models_resp :: "string \<Rightarrow> gerr option \<Rightarrow> gerr + models_response"
  ev_dec_embed_resp :: "string \<Rightarrow> gerr option \<Rightarrow> gerr + embed_response"

section \<open>Interfaces\<close>

type_synonym stream_func = "string \<Rightarrow> writer \<Rightarrow> gerr option \<times> writer"

record backend =
  be_Name :: string
  be_Health :: "env \<Rightarrow> gerr option"
  be_ChatCompletion :: "env \<Rightarrow> chat_request \<Rightarrow> gerr + chat_response"
  be_ChatCompletionStream :: "env \<Rightarrow> chat_request \<Rightarrow> stream_func \<Rightarrow> writer \<Rightarrow> gerr option \<times> writer"
  be_ListModels :: "env \<Rightarrow> gerr + models_response"
  be_CreateEmbedding :: "env \<Rightarrow> embed_request \<Rightarrow> gerr + embed_response"

record tts_backend =
  tb_Name :: string
  tb_Health :: "env \<Rightarrow> gerr option"
  tb_Synthesize :: "env \<Rightarrow> tts_request \<Rightarrow> gerr + tts_response"
  tb_Voices :: "env \<Rightarrow> gerr + voice list"

text \<open>A \<open>HealthChecker\<close> is an interface value that may be nil; nil means all are healthy.\<close>

type_synonym health_checker = "(string \<Rightarrow> bool) option"

definition passes :: "health_checker \<Rightarrow> string \<Rightarrow> bool" where
  "passes hc name \<longleftrightarrow> (case hc of None \<Rightarrow> True | Some f \<Rightarrow> f name)"

lemma passes_simps [simp]: "passes None name" "passes (Some f) name = f name"
  by (simp_all add: passes_def)

text \<open>An environment in which no server can be reached, for the examples.\<close>

definition idle_env :: env where
  "idle_env =
     \<lparr>ev_new_request = \<lambda>_ _. None, ev_do = \<lambda>_ _. Inl (new_error ''EOF''),
      ev_enc_chat = \<lambda>_. Inr ''{}'', ev_enc_embed = \<lambda>_. Inr ''{}'', ev_enc_tts = \<lambda>_. Inr ''{}'',
      ev_dec_chat_resp = \<lambda>_ _. Inl (new_error ''EOF''), ev_dec_models_resp = \<lambda>_ _. Inl (new_error ''EOF''),
      ev_dec_embed_resp = \<lambda>_ _. Inl (new_error ''EOF'')\<rparr>"

end
