(* ===== verification/Load_Balancer.thy ===== *)
theory Load_Balancer
  imports Go_Text "HOL-Library.Word"
begin

text \<open>
  The load balancer (\<open>internal/backend/loadbalancer.go\<close>): in-flight counts per backend and a
  wrapping 64-bit round-robin counter. The locale \<open>balancer\<close> is the contract the two registries
  rely on; it is interpreted on the code's operations at the end.
\<close>

section \<open>State and operations\<close>

record load_balancer =
  lb_active :: "string \<rightharpoonup> int"
  lb_rr :: "64 word"

definition NewLoadBalancer :: load_balancer where
  "NewLoadBalancer = \<lparr>lb_active = Map.empty, lb_rr = 0\<rparr>"

text \<open>Reading a missing key of a Go map gives 0.\<close>

definition InFlight :: "load_balancer \<Rightarrow> string \<Rightarrow> int" where
  "InFlight lb name = (case lb_active lb name of None \<Rightarrow> 0 | Some n \<Rightarrow> n)"

definition Acquire :: "string \<Rightarrow> load_balancer \<Rightarrow> load_balancer" where
  "Acquire name lb = lb\<lparr>lb_active := (lb_active lb)(name \<mapsto> InFlight lb name + 1)\<rparr>"

definition Release :: "string \<Rightarrow> load_balancer \<Rightarrow> load_balancer" where
  "Release name lb =
     (if 0 < InFlight lb name
      then lb\<lparr>lb_active := (lb_active lb)(name \<mapsto> InFlight lb name - 1)\<rparr> else lb)"

text \<open>The first loop of \<open>Select\<close>: the least load, starting from the first name.\<close>

fun min_load :: "load_balancer \<Rightarrow> int \<Rightarrow> string list \<Rightarrow> int" where
  "min_load lb m [] = m"
| "min_load lb m (name # names) =
     min_load lb (if InFlight lb name < m then InFlight lb name else m) names"

definition tied_names :: "load_balancer \<Rightarrow> string list \<Rightarrow> string list" where
  "tied_names lb names =
     [name \<leftarrow> names. InFlight lb name = min_load lb (InFlight lb (hd names)) (tl names)]"

definition Select :: "load_balancer \<Rightarrow> string list \<Rightarrow> string \<times> load_balancer" where
  "Select lb names =
     (case names of
        [] \<Rightarrow> ([], lb)
      | [name] \<Rightarrow> (name, lb)
      | _ \<Rightarrow>
          let tied = tied_names lb names
          in (tied ! (unat (lb_rr lb) mod length tied), lb\<lparr>lb_rr := lb_rr lb + 1\<rparr>))"

section \<open>Lemmas\<close>

lemma min_load_le: "min_load lb m names \<le> m"
  by (induction names arbitrary: m) (auto, metis dual_order.trans less_imp_le)

lemma min_load_lower: "name \<in> set names \<Longrightarrow> min_load lb m names \<le> InFlight lb name"
  by (induction names arbitrary: m) (auto intro: order_trans [OF min_load_le])

lemma min_load_attained: "min_load lb m names = m \<or> (\<exists>name \<in> set names. InFlight lb name = min_load lb m names)"
  by (induction names arbitrary: m) (auto, metis)

lemma tied_names_least:
  assumes "name \<in> set (tied_names lb names)" and "other \<in> set names"
  shows "name \<in> set names" and "InFlight lb name \<le> InFlight lb other"
proof -
  from assms show "name \<in> set names" by (simp add: tied_names_def)
  from assms(2) obtain x xs where names: "names = x # xs" by (cases names) auto
  from assms have "InFlight lb name = min_load lb (InFlight lb x) xs"
    by (auto simp: tied_names_def names split: if_splits)
  moreover have "min_load lb (InFlight lb x) xs \<le> InFlight lb other"
    using assms(2) min_load_le min_load_lower by (auto simp: names)
  ultimately show "InFlight lb name \<le> InFlight lb other" by simp
qed

lemma tied_names_nonempty: "names \<noteq> [] \<Longrightarrow> tied_names lb names \<noteq> []"
  using min_load_attained [of lb "InFlight lb (hd names)" "tl names"]
  by (cases names) (auto simp: tied_names_def filter_empty_conv)

lemma Select_in_tied:
  assumes "names \<noteq> []"
  shows "fst (Select lb names) \<in> set (tied_names lb names)"
proof -
  have tied: "tied_names lb names \<noteq> []" using assms by (rule tied_names_nonempty)
  show ?thesis
  proof (cases names)
    case (Cons x xs)
    then show ?thesis
      using tied by (cases xs) (auto simp: Select_def Let_def tied_names_def)
  qed (use assms in simp)
qed

lemma InFlight_update [simp]:
  "InFlight (lb\<lparr>lb_rr := r\<rparr>) n = InFlight lb n"
  "InFlight (lb\<lparr>lb_active := (lb_active lb)(name \<mapsto> v)\<rparr>) n = (if n = name then v else InFlight lb n)"
  by (simp_all add: InFlight_def)

lemma Select_load: "InFlight (snd (Select lb names)) n = InFlight lb n"
  by (auto simp: Select_def Let_def split: list.splits)

lemma Acquire_load: "InFlight (Acquire name lb) n = (if n = name then InFlight lb n + 1 else InFlight lb n)"
  by (simp add: Acquire_def)

lemma Release_load:
  "InFlight (Release name lb) n =
     (if n = name \<and> 0 < InFlight lb n then InFlight lb n - 1 else InFlight lb n)"
  by (simp add: Release_def)

section \<open>The contract of a balancer\<close>

text \<open>
  A counter of requests in flight: what \<open>acquire\<close> and \<open>release\<close> do to the load of each name.
\<close>

locale flight_counter =
  fixes load :: "'s \<Rightarrow> string \<Rightarrow> int"
    and acquire :: "string \<Rightarrow> 's \<Rightarrow> 's"
    and release :: "string \<Rightarrow> 's \<Rightarrow> 's"
  assumes load_acquire: "load (acquire n s) m = (if m = n then load s m + 1 else load s m)"
    and load_release:
      "load (release n s) m = (if m = n \<and> 0 < load s m then load s m - 1 else load s m)"
begin

lemma release_acquire: "0 \<le> load s n \<Longrightarrow> load (release n (acquire n s)) m = load s m"
  by (simp add: load_acquire load_release)

lemma acquire_commute: "load (acquire a (acquire b s)) m = load (acquire b (acquire a s)) m"
  by (simp add: load_acquire)

lemma nonneg_kept:
  "(\<And>m. 0 \<le> load s m) \<Longrightarrow> 0 \<le> load (acquire n s) m"
  "(\<And>m. 0 \<le> load s m) \<Longrightarrow> 0 \<le> load (release n s) m"
  by (auto simp: load_acquire load_release)

end

text \<open>A balancer also selects: a member of least load, without touching any load.\<close>

locale balancer = flight_counter +
  fixes select :: "'s \<Rightarrow> string list \<Rightarrow> string \<times> 's"
  assumes select_member: "names \<noteq> [] \<Longrightarrow> fst (select s names) \<in> set names"
    and select_least: "m \<in> set names \<Longrightarrow> load s (fst (select s names)) \<le> load s m"
    and select_load: "load (snd (select s names)) m = load s m"
begin

text \<open>Choosing and acquiring, as the registries do it for every request.\<close>

lemma dispatch_load:
  assumes "select s names = (n, s')"
  shows "load (acquire n s') m = (if m = n then load s m + 1 else load s m)"
  using select_load [of s names] assms by (simp add: load_acquire)

lemma dispatch_release:
  assumes "select s names = (n, s')" and "0 \<le> load s n"
  shows "load (release n (acquire n s')) m = load s m"
  using select_load [of s names] assms release_acquire [of s' n] by simp

text \<open>The loads of the candidates stay within one of each other if they were.\<close>

lemma dispatch_keeps_balance:
  assumes sel: "select s names = (n, s')"
    and bal: "\<And>a b. a \<in> set names \<Longrightarrow> b \<in> set names \<Longrightarrow> load s a \<le> load s b + 1"
    and ab: "a \<in> set names" "b \<in> set names"
  shows "load (acquire n s') a \<le> load (acquire n s') b + 1"
  using select_least [of b names s] sel bal [OF ab] ab by (auto simp: dispatch_load [OF sel])

end

interpretation lb: balancer InFlight Acquire Release Select
proof unfold_locales
  show "fst (Select s names) \<in> set names" if "names \<noteq> []" for s names
  proof -
    from that obtain x where "x \<in> set names" by (cases names) auto
    then show ?thesis using tied_names_least(1) [OF Select_in_tied [OF that]] by blast
  qed
  show "InFlight s (fst (Select s names)) \<le> InFlight s m" if "m \<in> set names" for m names s
  proof -
    from that have "names \<noteq> []" by auto
    then show ?thesis using tied_names_least(2) [OF Select_in_tied that] by blast
  qed
qed (simp_all add: Acquire_load Release_load Select_load)

section \<open>Properties\<close>

text \<open>
  \<open>Select\<close> returns one of the names it is given, and no other of them has fewer requests
  in flight.
\<close>

theorem Select_least_loaded:
  assumes "names \<noteq> []"
  shows "fst (Select lb names) \<in> set names
         \<and> (\<forall>m \<in> set names. InFlight lb (fst (Select lb names)) \<le> InFlight lb m)"
  using assms lb.select_member lb.select_least by blast

theorem Select_least_loaded_witness:
  "fst (Select (Acquire ''a'' NewLoadBalancer) [''a'', ''b'']) \<in> {''a'', ''b''}
   \<and> Select (Acquire ''a'' NewLoadBalancer) [''a'', ''b''] = (''b'', (Acquire ''a'' NewLoadBalancer)\<lparr>lb_rr := 1\<rparr>)"
  using Select_least_loaded [of "[''a'', ''b'']" "Acquire ''a'' NewLoadBalancer"]
  by (simp add: Select_def tied_names_def InFlight_def Acquire_def NewLoadBalancer_def)

text \<open>A run of selections with nothing acquired in between, as a burst of idle requests.\<close>

fun Select_run :: "nat \<Rightarrow> load_balancer \<Rightarrow> string list \<Rightarrow> string list" where
  "Select_run 0 lb names = []"
| "Select_run (Suc k) lb names =
     (case Select lb names of (n, lb') \<Rightarrow> n # Select_run k lb' names)"

lemma tied_names_equal:
  assumes "\<And>n. n \<in> set names \<Longrightarrow> InFlight lb n = v"
  shows "tied_names lb names = names"
proof (cases names)
  case (Cons x xs)
  have "min_load lb v xs = v"
    using min_load_attained [of lb v xs] assms by (auto simp: Cons)
  with assms show ?thesis by (auto simp: tied_names_def Cons filter_id_conv)
qed (simp add: tied_names_def)

lemma Select_equal:
  assumes "\<And>n. n \<in> set names \<Longrightarrow> InFlight lb n = v" and "2 \<le> length names"
  shows "Select lb names = (names ! (unat (lb_rr lb) mod length names), lb\<lparr>lb_rr := lb_rr lb + 1\<rparr>)"
  using assms tied_names_equal [of names lb v]
  by (cases names; cases "tl names") (auto simp: Select_def Let_def)

lemma unat_Suc_lt: "unat (r :: 64 word) + Suc k \<le> 2 ^ 64 \<Longrightarrow> 0 < k \<Longrightarrow> unat (r + 1) = Suc (unat r)"
  by (simp add: unat_word_ariths)

lemma Select_run_rotate:
  assumes "\<And>n. n \<in> set names \<Longrightarrow> InFlight lb n = v" and "2 \<le> length names"
    and "unat (lb_rr lb) + k \<le> 2 ^ 64"
  shows "Select_run k lb names = map (\<lambda>i. names ! ((unat (lb_rr lb) + i) mod length names)) [0..<k]"
  using assms
proof (induction k arbitrary: lb)
  case (Suc k)
  let ?lb' = "lb\<lparr>lb_rr := lb_rr lb + 1\<rparr>"
  have sel: "Select lb names = (names ! (unat (lb_rr lb) mod length names), ?lb')"
    using Select_equal [of names lb v] Suc.prems by blast
  have rest: "Select_run k ?lb' names =
      map (\<lambda>i. names ! ((unat (lb_rr lb) + Suc i) mod length names)) [0..<k]"
  proof (cases "k = 0")
    case False
    then have rr: "unat (lb_rr lb + 1) = Suc (unat (lb_rr lb))"
      using Suc.prems(3) by (intro unat_Suc_lt) auto
    have "Select_run k ?lb' names =
        map (\<lambda>i. names ! ((unat (lb_rr ?lb') + i) mod length names)) [0..<k]"
      by (rule Suc.IH) (use Suc.prems rr in auto)
    with rr show ?thesis by simp
  qed simp
  have "[0..<Suc k] = 0 # map Suc [0..<k]"
    by (metis map_Suc_upt upt_conv_Cons zero_less_Suc)
  with sel rest show ?case by (simp add: comp_def)
qed simp

lemma rotate_as_map: "rotate r xs = map (\<lambda>i. xs ! ((r + i) mod length xs)) [0..<length xs]"
  by (rule nth_equalityI) (auto simp: nth_rotate)

text \<open>
  While all candidates carry the same load, as many consecutive selections as there are
  candidates visit every candidate exactly once, in the order of a rotation, as long as the
  64-bit counter does not wrap in between.
\<close>

theorem Select_round_robin:
  assumes "\<And>n. n \<in> set names \<Longrightarrow> InFlight lb n = v" and "2 \<le> length names"
    and "unat (lb_rr lb) + length names \<le> 2 ^ 64"
  shows "Select_run (length names) lb names = rotate (unat (lb_rr lb)) names"
  using Select_run_rotate [OF assms] by (simp add: rotate_as_map)

theorem Select_round_robin_witness:
  "Select_run (length [''a'', ''b'', ''c'']) (NewLoadBalancer\<lparr>lb_rr := 1\<rparr>) [''a'', ''b'', ''c'']
     = [''b'', ''c'', ''a'']"
proof -
  have "Select_run (length [''a'', ''b'', ''c'']) (NewLoadBalancer\<lparr>lb_rr := 1\<rparr>) [''a'', ''b'', ''c'']
        = rotate (unat (1 :: 64 word)) [''a'', ''b'', ''c'']"
    using Select_round_robin [of "[''a'', ''b'', ''c'']" "NewLoadBalancer\<lparr>lb_rr := 1\<rparr>" 0]
    by (simp add: InFlight_def NewLoadBalancer_def del: Select_run.simps rotate_Suc)
  then show ?thesis by simp
qed

text \<open>A run of dispatches: every selected backend keeps its request.\<close>

fun dispatch_run :: "nat \<Rightarrow> load_balancer \<Rightarrow> string list \<Rightarrow> load_balancer" where
  "dispatch_run 0 lb names = lb"
| "dispatch_run (Suc k) lb names =
     (case Select lb names of (n, lb') \<Rightarrow> dispatch_run k (Acquire n lb') names)"

lemma dispatch_run_balanced_step:
  assumes "\<And>a b. a \<in> set names \<Longrightarrow> b \<in> set names \<Longrightarrow> InFlight lb a \<le> InFlight lb b + 1"
    and "a \<in> set names" and "b \<in> set names"
  shows "InFlight (dispatch_run k lb names) a \<le> InFlight (dispatch_run k lb names) b + 1"
  using assms
proof (induction k arbitrary: lb)
  case (Suc k)
  obtain n lb' where sel: "Select lb names = (n, lb')" by fastforce
  have "InFlight (dispatch_run k (Acquire n lb') names) a
          \<le> InFlight (dispatch_run k (Acquire n lb') names) b + 1"
    by (rule Suc.IH [OF lb.dispatch_keeps_balance [OF sel Suc.prems(1)]]) (use Suc.prems in auto)
  with sel show ?case by simp
qed simp

lemma dispatch_run_total:
  assumes "names \<noteq> []" and "distinct names"
  shows "(\<Sum>n \<in> set names. InFlight (dispatch_run k lb names) n) = (\<Sum>n \<in> set names. InFlight lb n) + int k"
  using assms
proof (induction k arbitrary: lb)
  case (Suc k)
  obtain n lb' where sel: "Select lb names = (n, lb')" by fastforce
  then have n: "n \<in> set names" using lb.select_member [of names lb] assms by simp
  have "(\<Sum>m \<in> set names. InFlight (Acquire n lb') m) = (\<Sum>m \<in> set names. InFlight lb m + (if m = n then 1 else 0))"
    by (rule sum.cong) (simp_all add: lb.dispatch_load [OF sel])
  also have "\<dots> = (\<Sum>m \<in> set names. InFlight lb m) + 1"
    using n by (simp add: sum.distrib)
  finally show ?case using Suc.IH [of "Acquire n lb'"] Suc.prems sel by simp
qed simp

text \<open>
  C30: dispatching any number of requests over a fixed set of idle candidates spreads them
  evenly: the total is the number of requests, and no two candidates differ by more than one.
\<close>

theorem dispatch_run_balanced:
  assumes "names \<noteq> []" and "distinct names"
  shows "(\<Sum>n \<in> set names. InFlight (dispatch_run k NewLoadBalancer names) n) = int k
         \<and> (\<forall>a \<in> set names. \<forall>b \<in> set names.
              InFlight (dispatch_run k NewLoadBalancer names) a
                \<le> InFlight (dispatch_run k NewLoadBalancer names) b + 1)"
proof -
  have zero: "InFlight NewLoadBalancer n = 0" for n
    by (simp add: InFlight_def NewLoadBalancer_def)
  show ?thesis
    using dispatch_run_total [OF assms, of k NewLoadBalancer] dispatch_run_balanced_step [of names NewLoadBalancer]
    by (simp add: zero)
qed

theorem dispatch_run_balanced_witness:
  "(\<Sum>n \<in> {''a'', ''b''}. InFlight (dispatch_run 3 NewLoadBalancer [''a'', ''b'']) n) = 3"
  using dispatch_run_balanced [of "[''a'', ''b'']" 3] by simp

end
