(* ===== verification/Go_Map.thy ===== *)
theory Go_Map
  imports Main "HOL-Library.AList"
begin

text \<open>
  Prelude, part five: Go maps that the program ranges over. A map is an association list with
  distinct keys; its internal order means nothing. A \<open>range\<close> loop visits the keys in an order the
  runtime chooses: the model takes the order as an argument \<open>visit\<close>, and a theorem about the loop
  assumes no more of it than \<open>iterates\<close>, that every key is visited once.
\<close>

named_theorems go_map \<open>facts about association lists used as Go maps\<close>

type_synonym 'v go_map = "(string \<times> 'v) list"

definition go_map_ok :: "'v go_map \<Rightarrow> bool" where
  "go_map_ok m \<longleftrightarrow> distinct (map fst m)"

definition iterates :: "string list \<Rightarrow> 'v go_map \<Rightarrow> bool" where
  "iterates visit m \<longleftrightarrow> distinct visit \<and> set visit = fst ` set m"

text \<open>The values in the order of the visit.\<close>

definition values_in :: "string list \<Rightarrow> 'v go_map \<Rightarrow> 'v list" where
  "values_in visit m = List.map_filter (map_of m) visit"

lemma go_map_ok_Nil [simp]: "go_map_ok []"
  by (simp add: go_map_ok_def)

lemma go_map_ok_update [simp]: "go_map_ok m \<Longrightarrow> go_map_ok (AList.update k v m)"
  by (simp add: go_map_ok_def distinct_update)

lemma map_of_update [simp]: "map_of (AList.update k v m) = (map_of m)(k \<mapsto> v)"
  by (rule update_conv')

lemma go_map_mem: "go_map_ok m \<Longrightarrow> (k, v) \<in> set m \<longleftrightarrow> map_of m k = Some v"
  by (auto simp: go_map_ok_def dest: map_of_SomeD)

lemma keys_map_of: "k \<in> fst ` set m \<longleftrightarrow> map_of m k \<noteq> None"
  by (metis dom_map_of_conv_image_fst domIff)

lemma keys_update [simp]: "fst ` set (AList.update k v m) = insert k (fst ` set m)"
  by (metis dom_map_of_conv_image_fst dom_fun_upd map_of_update option.distinct(1))

lemma iteratesD: "iterates visit m \<Longrightarrow> k \<in> set visit \<longleftrightarrow> map_of m k \<noteq> None"
  by (simp add: iterates_def keys_map_of)

lemma iterates_Nil [simp]: "iterates visit [] \<longleftrightarrow> visit = []"
  by (auto simp: iterates_def)

lemma iterates_empty: "iterates [] m \<longleftrightarrow> m = []"
  by (auto simp: iterates_def)

lemma set_values_in:
  assumes "iterates visit m"
  shows "set (values_in visit m) = {v. \<exists>k. map_of m k = Some v}"
  using iteratesD [OF assms] by (force simp: values_in_def map_filter_def)

lemma length_values_in:
  assumes "iterates visit m" and "go_map_ok m"
  shows "length (values_in visit m) = length m"
proof -
  have "map_of m k \<noteq> None" if "k \<in> set visit" for k
    using that iteratesD [OF assms(1)] by blast
  then have "length (values_in visit m) = length visit"
    by (induction visit) (auto simp: values_in_def map_filter_simps split: option.splits)
  also have "\<dots> = card (fst ` set m)"
    using assms(1) by (metis distinct_card iterates_def)
  also have "\<dots> = length m"
    using assms(2) by (metis distinct_card go_map_ok_def length_map list.set_map)
  finally show ?thesis .
qed

lemma map_values_in:
  assumes "iterates visit m" and "\<And>k v. map_of m k = Some v \<Longrightarrow> f v = k"
  shows "map f (values_in visit m) = visit"
proof -
  have "\<forall>k \<in> set visit. map_of m k \<noteq> None" using iteratesD [OF assms(1)] by blast
  then show ?thesis
    by (induction visit) (auto simp: values_in_def map_filter_simps assms(2) split: option.splits)
qed

end
