(* ===== verification/Backend_Registry.thy ===== *)
theory Backend_Registry
  imports Backend Load_Balancer Go_Map
begin

text \<open>
  The registry of chat and embedding backends (\<open>Registry\<close> of \<open>internal/backend/backend.go\<close>):
  named backends, the primary one, and a load balancer. Ranging over the map of backends takes
  its order as an argument. The registry is a client of the contract \<open>balancer\<close>.
\<close>

section \<open>State and operations\<close>

record registry =
  rg_backends :: "backend go_map"
  rg_primary :: string
  rg_lb :: load_balancer

definition NewRegistry :: registry where
  "NewRegistry = \<lparr>rg_backends = [], rg_primary = [], rg_lb = NewLoadBalancer\<rparr>"

definition Register :: "backend \<Rightarrow> registry \<Rightarrow> registry" where
  "Register b r =
     (let r1 = r\<lparr>rg_backends := AList.update (be_Name b) b (rg_backends r)\<rparr>
      in if rg_primary r1 = [] then r1\<lparr>rg_primary := be_Name b\<rparr> else r1)"

definition Get :: "string \<Rightarrow> registry \<Rightarrow> gerr + backend" where
  "Get name r =
     (let name = (if name = [] then rg_primary r else name)
      in case map_of (rg_backends r) name of
           None \<Rightarrow> Inl (wrap_error (''backend not found: '' @ name) (sentinel_error ErrBackendNotFound))
         | Some b \<Rightarrow> Inr b)"

definition Primary :: "registry \<Rightarrow> gerr + backend" where
  "Primary r = Get [] r"

definition PrimaryName :: "registry \<Rightarrow> string" where
  "PrimaryName r = rg_primary r"

definition healthyOrderLocked :: "string list \<Rightarrow> health_checker \<Rightarrow> registry \<Rightarrow> string list" where
  "healthyOrderLocked visit hc r =
     (if rg_primary r \<noteq> [] \<and> passes hc (rg_primary r) then [rg_primary r] else [])
     @ [name \<leftarrow> visit. name \<noteq> rg_primary r \<and> passes hc name]"

text \<open>The read of \<open>r.backends[name]\<close> gives a nil interface, \<open>None\<close>, for a missing key.\<close>

definition PrimaryHealthy :: "string list \<Rightarrow> health_checker \<Rightarrow> registry \<Rightarrow> (gerr + backend option) \<times> registry" where
  "PrimaryHealthy visit hc r =
     (if rg_backends r = [] then (Inl (sentinel_error ErrBackendNotFound), r)
      else let healthy = healthyOrderLocked visit hc r
           in if healthy = [] then (Inl (sentinel_error ErrNoHealthyBackend), r)
              else case Select (rg_lb r) healthy of
                     (name, lb) \<Rightarrow> (Inr (map_of (rg_backends r) name), r\<lparr>rg_lb := Acquire name lb\<rparr>))"

definition ReleaseBackend :: "string \<Rightarrow> registry \<Rightarrow> registry" where
  "ReleaseBackend name r = r\<lparr>rg_lb := Release name (rg_lb r)\<rparr>"

definition All :: "string list \<Rightarrow> registry \<Rightarrow> backend list" where
  "All visit r = values_in visit (rg_backends r)"

section \<open>The invariant of a registry\<close>

text \<open>
  Every backend is filed under its own name, no name is empty, and there is a primary as soon as
  there is a backend. Configurations with an empty name are rejected by \<open>validate\<close>.
\<close>

definition registry_ok :: "registry \<Rightarrow> bool" where
  "registry_ok r \<longleftrightarrow>
     go_map_ok (rg_backends r)
     \<and> (\<forall>(k, b) \<in> set (rg_backends r). be_Name b = k \<and> k \<noteq> [])
     \<and> (if rg_backends r = [] then rg_primary r = [] else rg_primary r \<in> fst ` set (rg_backends r))"

lemma registry_ok_New: "registry_ok NewRegistry"
  by (simp add: registry_ok_def NewRegistry_def)

lemma registry_ok_lb [simp]: "registry_ok (r\<lparr>rg_lb := l\<rparr>) = registry_ok r"
  by (simp add: registry_ok_def)

lemma registry_ok_Name: "registry_ok r \<Longrightarrow> map_of (rg_backends r) k = Some b \<Longrightarrow> be_Name b = k \<and> k \<noteq> []"
  by (auto simp: registry_ok_def dest: map_of_SomeD)

lemma registry_ok_Register:
  assumes "registry_ok r" and "be_Name b \<noteq> []"
  shows "registry_ok (Register b r)"
proof -
  let ?m = "AList.update (be_Name b) b (rg_backends r)"
  have ok: "go_map_ok ?m" using assms by (simp add: registry_ok_def)
  have ne: "?m \<noteq> []" by (cases "rg_backends r") auto
  have "be_Name c = k \<and> k \<noteq> []" if "(k, c) \<in> set ?m" for k c
    using that go_map_mem [OF ok, of k c] registry_ok_Name [OF assms(1)] assms(2)
    by (auto split: if_splits)
  then have names: "\<forall>(k, c) \<in> set ?m. be_Name c = k \<and> k \<noteq> []" by blast
  have prim: "rg_primary (Register b r) \<in> fst ` set ?m"
    using assms(1) by (cases "rg_backends r = []") (auto simp: Register_def Let_def registry_ok_def)
  have m: "rg_backends (Register b r) = ?m" by (simp add: Register_def Let_def)
  show ?thesis using ok names prim ne unfolding registry_ok_def m by simp
qed

text \<open>The candidates of a selection are the registered backends that pass the health check.\<close>

lemma set_healthyOrder:
  assumes "registry_ok r" and "iterates visit (rg_backends r)"
  shows "set (healthyOrderLocked visit hc r) = {k. map_of (rg_backends r) k \<noteq> None \<and> passes hc k}"
proof -
  have "rg_primary r \<noteq> [] \<Longrightarrow> map_of (rg_backends r) (rg_primary r) \<noteq> None"
    using assms(1) by (auto simp: registry_ok_def keys_map_of split: if_splits)
  moreover have "map_of (rg_backends r) (rg_primary r) \<noteq> None \<Longrightarrow> rg_primary r \<noteq> []"
    using registry_ok_Name [OF assms(1)] by blast
  ultimately show ?thesis
    using iteratesD [OF assms(2)] by (auto simp: healthyOrderLocked_def)
qed

lemma distinct_healthyOrder: "iterates visit m \<Longrightarrow> distinct (healthyOrderLocked visit hc r)"
  by (auto simp: healthyOrderLocked_def iterates_def)

section \<open>Properties\<close>

text \<open>
  Registering backends keeps the registry well-formed, makes each of them available under
  its name, and never changes the primary once there is one.
\<close>

theorem Register_correct:
  assumes "registry_ok r" and "be_Name b \<noteq> []"
  shows "registry_ok (Register b r)
         \<and> Get (be_Name b) (Register b r) = Inr b
         \<and> (\<forall>n. n \<noteq> [] \<longrightarrow> n \<noteq> be_Name b \<longrightarrow> Get n (Register b r) = Get n r)
         \<and> PrimaryName (Register b r) = (if rg_backends r = [] then be_Name b else PrimaryName r)"
  using registry_ok_Register [OF assms] assms
  by (auto simp: Register_def Get_def PrimaryName_def Let_def registry_ok_def split: if_splits)

definition dummy_backend :: "string \<Rightarrow> backend" where
  "dummy_backend n =
     \<lparr>be_Name = n, be_Health = (\<lambda>_. None), be_ChatCompletion = (\<lambda>_ _. Inl (new_error [])),
      be_ChatCompletionStream = (\<lambda>_ _ _ w. (None, w)), be_ListModels = (\<lambda>_. Inl (new_error [])),
      be_CreateEmbedding = (\<lambda>_ _. Inl (new_error []))\<rparr>"

lemma dummy_simps [simp]:
  "be_Name (dummy_backend n) = n"
  "be_Health (dummy_backend n) ev = None"
  by (simp_all add: dummy_backend_def)

theorem Register_correct_witness:
  "PrimaryName (Register (dummy_backend ''a'') NewRegistry) = ''a''"
  using Register_correct [of NewRegistry "dummy_backend ''a''"] registry_ok_New
  by (simp add: NewRegistry_def)

lemma PrimaryHealthy_selects:
  assumes ok: "registry_ok r" and visit: "iterates visit (rg_backends r)"
  shows "case PrimaryHealthy visit hc r of
           (Inl e, r') \<Rightarrow> r' = r \<and> (\<forall>k. map_of (rg_backends r) k \<noteq> None \<longrightarrow> \<not> passes hc k)
         | (Inr None, r') \<Rightarrow> False
         | (Inr (Some b), r') \<Rightarrow>
             map_of (rg_backends r) (be_Name b) = Some b \<and> passes hc (be_Name b)
             \<and> (\<forall>k. map_of (rg_backends r) k \<noteq> None \<longrightarrow> passes hc k \<longrightarrow>
                   InFlight (rg_lb r) (be_Name b) \<le> InFlight (rg_lb r) k)
             \<and> (\<forall>k. InFlight (rg_lb r') k = InFlight (rg_lb r) k + (if k = be_Name b then 1 else 0))
             \<and> rg_backends r' = rg_backends r \<and> rg_primary r' = rg_primary r"
proof (cases "healthyOrderLocked visit hc r = []")
  case True
  then have "{k. map_of (rg_backends r) k \<noteq> None \<and> passes hc k} = {}"
    using set_healthyOrder [OF ok visit, of hc] by simp
  then have "\<forall>k. map_of (rg_backends r) k \<noteq> None \<longrightarrow> \<not> passes hc k" by blast
  with True show ?thesis by (simp add: PrimaryHealthy_def)
next
  case False
  let ?h = "healthyOrderLocked visit hc r"
  obtain n l where sel: "Select (rg_lb r) ?h = (n, l)" by fastforce
  have n: "n \<in> set ?h" using lb.select_member [OF False, of "rg_lb r"] sel by simp
  then obtain b where b: "map_of (rg_backends r) n = Some b" and pass: "passes hc n"
    using set_healthyOrder [OF ok visit, of hc] by auto
  have name: "be_Name b = n" using registry_ok_Name [OF ok b] by simp
  have least: "InFlight (rg_lb r) n \<le> InFlight (rg_lb r) k"
    if "map_of (rg_backends r) k \<noteq> None" and "passes hc k" for k
    using lb.select_least [of k ?h "rg_lb r"] that set_healthyOrder [OF ok visit, of hc] sel by simp
  have "rg_backends r \<noteq> []" using b by auto
  then have "PrimaryHealthy visit hc r = (Inr (Some b), r\<lparr>rg_lb := Acquire n l\<rparr>)"
    using False by (simp add: PrimaryHealthy_def Let_def sel b)
  then show ?thesis
    using b pass name least lb.dispatch_load [OF sel] by simp
qed

text \<open>
  C19: in a well-formed registry a selection fails exactly when no registered backend passes the
  health check, and otherwise it yields a registered backend that passes the check, carries the
  least load among those that do, and is charged with one more request while no other is.
\<close>

theorem PrimaryHealthy_correct:
  assumes ok: "registry_ok r" and visit: "iterates visit (rg_backends r)"
  shows "case PrimaryHealthy visit hc r of
           (Inl e, r') \<Rightarrow> r' = r \<and> (\<forall>k. map_of (rg_backends r) k \<noteq> None \<longrightarrow> \<not> passes hc k)
         | (Inr None, r') \<Rightarrow> False
         | (Inr (Some b), r') \<Rightarrow>
             map_of (rg_backends r) (be_Name b) = Some b \<and> passes hc (be_Name b)
             \<and> (\<forall>k. map_of (rg_backends r) k \<noteq> None \<longrightarrow> passes hc k \<longrightarrow>
                   InFlight (rg_lb r) (be_Name b) \<le> InFlight (rg_lb r) k)
             \<and> (\<forall>k. InFlight (rg_lb r') k = InFlight (rg_lb r) k + (if k = be_Name b then 1 else 0))
             \<and> rg_backends r' = rg_backends r \<and> rg_primary r' = rg_primary r"
  using assms by (rule PrimaryHealthy_selects)

theorem PrimaryHealthy_correct_witness:
  "\<exists>r'. PrimaryHealthy [''b'', ''a''] (Some (\<lambda>n. n = ''b''))
       (Register (dummy_backend ''b'') (Register (dummy_backend ''a'') NewRegistry))
     = (Inr (Some (dummy_backend ''b'')), r') \<and> InFlight (rg_lb r') ''b'' = 1"
proof -
  let ?r = "Register (dummy_backend ''b'') (Register (dummy_backend ''a'') NewRegistry)"
  have ok: "registry_ok ?r"
    by (intro registry_ok_Register registry_ok_New) simp_all
  have visit: "iterates [''b'', ''a''] (rg_backends ?r)"
    by (auto simp: iterates_def Register_def NewRegistry_def)
  have res: "PrimaryHealthy [''b'', ''a''] (Some (\<lambda>n. n = ''b'')) ?r
      = (Inr (Some (dummy_backend ''b'')), ?r\<lparr>rg_lb := Acquire ''b'' (rg_lb ?r)\<rparr>)"
    by (simp add: PrimaryHealthy_def healthyOrderLocked_def Select_def Register_def NewRegistry_def)
  show ?thesis
    using PrimaryHealthy_correct [OF ok visit, of "Some (\<lambda>n. n = ''b'')"] unfolding res
    by (simp add: InFlight_def Register_def NewRegistry_def NewLoadBalancer_def)
qed

text \<open>
  A request that is released after its selection leaves every in-flight count as it was.
\<close>

lemma PrimaryHealthy_release:
  assumes "registry_ok r" and "iterates visit (rg_backends r)" and "\<forall>k. 0 \<le> InFlight (rg_lb r) k"
    and "PrimaryHealthy visit hc r = (Inr (Some b), r')"
  shows "InFlight (rg_lb (ReleaseBackend (be_Name b) r')) k = InFlight (rg_lb r) k"
  using PrimaryHealthy_selects [OF assms(1,2), of hc] assms(3,4)
  by (simp add: ReleaseBackend_def Release_load add_nonneg_pos)

end
