(* ===== verification/Router.thy ===== *)
theory Router
  imports Backend Load_Balancer Go_Map
begin

text \<open>
  The capability-aware registry (\<open>internal/router\<close>): backends with capabilities and models, the
  score of a backend for a requested model, and the selection that filters by capability and
  health, keeps the best-scored candidates and balances among them.
\<close>

section \<open>State and operations\<close>

text \<open>\<open>Capability\<close> is an \<open>int\<close> type with three named values.\<close>

datatype capability = CapChat | CapEmbed | CapTTS | CapOther int

fun capability_String :: "capability \<Rightarrow> string" where
  "capability_String CapChat = ''chat''"
| "capability_String CapEmbed = ''embed''"
| "capability_String CapTTS = ''tts''"
| "capability_String (CapOther n) = ''unknown''"

record model_info =
  mi_ID :: string
  mi_Provider :: string
  mi_Kind :: capability

record backend_info =
  bi_Name :: string
  bi_Backend :: "backend option"
  bi_TTSBackend :: "tts_backend option"
  bi_Capabilities :: "capability list"
  bi_Models :: "model_info list"

record model_route =
  rt_Model :: string
  rt_Capability :: capability
  rt_BackendName :: string

definition empty_info :: backend_info where
  "empty_info =
     \<lparr>bi_Name = [], bi_Backend = None, bi_TTSBackend = None, bi_Capabilities = [], bi_Models = []\<rparr>"

record router =
  rr_backends :: "backend_info go_map"
  rr_routes :: "model_route list"
  rr_lb :: load_balancer

definition NewRouter :: router where
  "NewRouter = \<lparr>rr_backends = [], rr_routes = [], rr_lb = NewLoadBalancer\<rparr>"

definition RegisterInfo :: "backend_info \<Rightarrow> router \<Rightarrow> router" where
  "RegisterInfo info r =
     r\<lparr>rr_backends := AList.update (bi_Name info) info (rr_backends r),
       rr_routes := rr_routes r @
         map (\<lambda>m. \<lparr>rt_Model = mi_ID m, rt_Capability = mi_Kind m, rt_BackendName = bi_Name info\<rparr>)
           (bi_Models info)\<rparr>"

definition GetInfo :: "string \<Rightarrow> router \<Rightarrow> backend_info \<times> bool" where
  "GetInfo name r =
     (case map_of (rr_backends r) name of None \<Rightarrow> (empty_info, False) | Some i \<Rightarrow> (i, True))"

definition AllInfos :: "string list \<Rightarrow> router \<Rightarrow> backend_info list" where
  "AllInfos visit r = values_in visit (rr_backends r)"

definition Len :: "router \<Rightarrow> nat" where
  "Len r = length (rr_backends r)"

definition BackendsByCapability :: "string list \<Rightarrow> capability \<Rightarrow> router \<Rightarrow> backend_info list" where
  "BackendsByCapability visit kind r =
     [info \<leftarrow> values_in visit (rr_backends r). kind \<in> set (bi_Capabilities info)]"

text \<open>The score of one model, and of a backend.\<close>

definition model_score :: "capability \<Rightarrow> string \<Rightarrow> model_info \<Rightarrow> int" where
  "model_score kind model m =
     (if mi_ID m = model \<and> mi_Kind m = kind then 100
      else if has_prefix model (mi_ID m) \<and> mi_Kind m = kind then 50 else 0)"

definition scoreBackend :: "backend_info \<Rightarrow> capability \<Rightarrow> string \<Rightarrow> int" where
  "scoreBackend info kind model =
     (let score = fold (\<lambda>m score. score + model_score kind model m) (bi_Models info) 0
      in if kind \<in> set (bi_Capabilities info) then score + 10 else score)"

text \<open>\<open>byName\<close> keeps the last candidate of a name, as repeated assignment does.\<close>

definition pickBalanced :: "backend_info list \<Rightarrow> router \<Rightarrow> backend_info \<times> router" where
  "pickBalanced candidates r =
     (let names = map bi_Name candidates;
          byName = map_of (rev (map (\<lambda>c. (bi_Name c, c)) candidates))
      in case Select (rr_lb r) names of
           (picked, lb) \<Rightarrow>
             ((case byName picked of None \<Rightarrow> empty_info | Some i \<Rightarrow> i), r\<lparr>rr_lb := Acquire picked lb\<rparr>))"

text \<open>\<open>sort.SliceStable\<close> by decreasing score is a stable sort on the negated score.\<close>

definition scored_candidates :: "backend_info list \<Rightarrow> capability \<Rightarrow> string \<Rightarrow> (backend_info \<times> int) list" where
  "scored_candidates healthy kind model =
     sort_key (\<lambda>(c, s). - s) (map (\<lambda>c. (c, scoreBackend c kind model)) healthy)"

definition selectBackend ::
  "string list \<Rightarrow> capability \<Rightarrow> string \<Rightarrow> health_checker \<Rightarrow> router \<Rightarrow> (gerr + backend_info) \<times> router" where
  "selectBackend visit kind model hc r =
     (let candidates = BackendsByCapability visit kind r
      in if candidates = [] then (Inl (sentinel_error ErrCapabilityNotSupported), r)
         else let healthy = [c \<leftarrow> candidates. passes hc (bi_Name c)]
              in if healthy = [] then (Inl (sentinel_error ErrNoHealthyBackend), r)
                 else if model = [] then (case pickBalanced healthy r of (i, r') \<Rightarrow> (Inr i, r'))
                 else let scored = scored_candidates healthy kind model;
                          topScore = snd (hd scored)
                      in if topScore < 50 then (Inl (sentinel_error ErrNoHealthyBackend), r)
                         else case pickBalanced (map fst [sc \<leftarrow> scored. snd sc = topScore]) r of
                                (i, r') \<Rightarrow> (Inr i, r'))"

definition SelectBackend ::
  "string list \<Rightarrow> capability \<Rightarrow> string \<Rightarrow> router \<Rightarrow> (gerr + backend_info) \<times> router" where
  "SelectBackend visit kind model r = selectBackend visit kind model None r"

definition SelectHealthyBackend ::
  "string list \<Rightarrow> capability \<Rightarrow> string \<Rightarrow> health_checker \<Rightarrow> router \<Rightarrow> (gerr + backend_info) \<times> router" where
  "SelectHealthyBackend visit kind model hc r = selectBackend visit kind model hc r"

definition ReleaseRouted :: "string \<Rightarrow> router \<Rightarrow> router" where
  "ReleaseRouted name r = r\<lparr>rr_lb := Release name (rr_lb r)\<rparr>"

section \<open>The invariant\<close>

definition router_ok :: "router \<Rightarrow> bool" where
  "router_ok r \<longleftrightarrow>
     go_map_ok (rr_backends r) \<and> (\<forall>(k, i) \<in> set (rr_backends r). bi_Name i = k)"

lemma router_ok_New: "router_ok NewRouter"
  by (simp add: router_ok_def NewRouter_def)

lemma router_ok_Name: "router_ok r \<Longrightarrow> map_of (rr_backends r) k = Some i \<Longrightarrow> bi_Name i = k"
  by (auto simp: router_ok_def dest: map_of_SomeD)

lemma router_ok_RegisterInfo:
  assumes "router_ok r"
  shows "router_ok (RegisterInfo i r)"
proof -
  have ok: "go_map_ok (AList.update (bi_Name i) i (rr_backends r))"
    using assms by (simp add: router_ok_def)
  have "bi_Name j = k" if "(k, j) \<in> set (AList.update (bi_Name i) i (rr_backends r))" for k j
    using that go_map_mem [OF ok, of k j] router_ok_Name [OF assms] by (auto split: if_splits)
  with ok show ?thesis by (auto simp: router_ok_def RegisterInfo_def)
qed

section \<open>Scores\<close>

lemma fold_sum: "fold (\<lambda>m s. s + f m) ms a = a + (\<Sum>m \<leftarrow> ms. f m :: int)"
  by (induction ms arbitrary: a) auto

lemma scoreBackend_sum:
  "scoreBackend info kind model =
     (\<Sum>m \<leftarrow> bi_Models info. model_score kind model m) + (if kind \<in> set (bi_Capabilities info) then 10 else 0)"
  by (simp add: scoreBackend_def fold_sum Let_def)

lemma model_score_nonneg: "0 \<le> model_score kind model m"
  by (simp add: model_score_def)

lemma sum_model_score_nonneg: "0 \<le> (\<Sum>m \<leftarrow> ms. model_score kind model m)"
  by (induction ms) (auto simp: model_score_nonneg)

lemma sum_model_score_zero:
  "(\<forall>m \<in> set ms. \<not> (mi_Kind m = kind \<and> has_prefix model (mi_ID m))) \<Longrightarrow>
   (\<Sum>m \<leftarrow> ms. model_score kind model m) = 0"
  by (induction ms) (auto simp: model_score_def has_prefix_def)

lemma sum_model_score_ge:
  "m \<in> set ms \<Longrightarrow> model_score kind model m \<le> (\<Sum>m \<leftarrow> ms. model_score kind model m)"
  using sum_model_score_nonneg [of kind model] by (induction ms) (auto simp: model_score_nonneg add_increasing add_increasing2)

text \<open>A score of 50 or more means that a model of the kind starts with the requested name.\<close>

lemma score_matches:
  "50 \<le> scoreBackend info kind model \<longleftrightarrow>
     (\<exists>m \<in> set (bi_Models info). mi_Kind m = kind \<and> has_prefix model (mi_ID m))"
proof
  assume "50 \<le> scoreBackend info kind model"
  then have "(\<Sum>m \<leftarrow> bi_Models info. model_score kind model m) \<noteq> 0"
    by (auto simp: scoreBackend_sum split: if_splits)
  then show "\<exists>m \<in> set (bi_Models info). mi_Kind m = kind \<and> has_prefix model (mi_ID m)"
    using sum_model_score_zero [of "bi_Models info" kind model] by blast
next
  assume "\<exists>m \<in> set (bi_Models info). mi_Kind m = kind \<and> has_prefix model (mi_ID m)"
  then obtain m where m: "m \<in> set (bi_Models info)" "mi_Kind m = kind" "has_prefix model (mi_ID m)"
    by blast
  then have "50 \<le> model_score kind model m" by (simp add: model_score_def)
  with sum_model_score_ge [OF m(1), of kind model] show "50 \<le> scoreBackend info kind model"
    by (simp add: scoreBackend_sum)
qed

text \<open>The stable sort keeps the candidates and puts a best one first.\<close>

lemma set_scored: "set (scored_candidates healthy kind model) = (\<lambda>c. (c, scoreBackend c kind model)) ` set healthy"
  by (simp add: scored_candidates_def)

lemma hd_scored:
  assumes "healthy \<noteq> []"
  shows "hd (scored_candidates healthy kind model) \<in> set (scored_candidates healthy kind model)"
    and "sc \<in> set (scored_candidates healthy kind model) \<Longrightarrow> snd sc \<le> snd (hd (scored_candidates healthy kind model))"
proof -
  let ?s = "scored_candidates healthy kind model"
  have ne: "?s \<noteq> []" using assms set_scored [of healthy kind model] by auto
  then show "hd ?s \<in> set ?s" by simp
  have "sorted (map (\<lambda>(c, s). - s) ?s)" by (simp add: scored_candidates_def)
  then show "snd sc \<le> snd (hd ?s)" if "sc \<in> set ?s"
    using ne that by (cases ?s) (auto simp: case_prod_beta)
qed

section \<open>Balanced picks\<close>

lemma map_of_byName:
  assumes "inj_on bi_Name (set cs)" and "c \<in> set cs"
  shows "map_of (rev (map (\<lambda>c. (bi_Name c, c)) cs)) (bi_Name c) = Some c"
proof -
  let ?al = "rev (map (\<lambda>c. (bi_Name c, c)) cs)"
  have "bi_Name c \<in> fst ` set ?al" using assms(2) by force
  then have "map_of ?al (bi_Name c) \<noteq> None" by (metis keys_map_of)
  then obtain d where d: "map_of ?al (bi_Name c) = Some d" by blast
  then have "(bi_Name c, d) \<in> set ?al" by (rule map_of_SomeD)
  with assms have "d = c" by (auto dest: inj_onD)
  with d show ?thesis by simp
qed

lemma pickBalanced_correct:
  assumes ne: "cs \<noteq> []" and inj: "inj_on bi_Name (set cs)" and pick: "pickBalanced cs r = (i, r')"
  shows "i \<in> set cs"
    and "\<forall>c \<in> set cs. InFlight (rr_lb r) (bi_Name i) \<le> InFlight (rr_lb r) (bi_Name c)"
    and "InFlight (rr_lb r') k = InFlight (rr_lb r) k + (if k = bi_Name i then 1 else 0)"
    and "rr_backends r' = rr_backends r \<and> rr_routes r' = rr_routes r"
proof -
  obtain n l where sel: "Select (rr_lb r) (map bi_Name cs) = (n, l)" by fastforce
  have "n \<in> set (map bi_Name cs)"
    using lb.select_member [of "map bi_Name cs" "rr_lb r"] ne sel by simp
  then obtain c where c: "c \<in> set cs" "n = bi_Name c" by auto
  have res: "i = c" "r' = r\<lparr>rr_lb := Acquire n l\<rparr>"
    using pick map_of_byName [OF inj c(1)] c(2) by (auto simp: pickBalanced_def Let_def sel)
  then show "i \<in> set cs" using c by simp
  show "\<forall>c \<in> set cs. InFlight (rr_lb r) (bi_Name i) \<le> InFlight (rr_lb r) (bi_Name c)"
    using lb.select_least [of _ "map bi_Name cs" "rr_lb r"] sel c res by simp
  show "InFlight (rr_lb r') k = InFlight (rr_lb r) k + (if k = bi_Name i then 1 else 0)"
    using lb.dispatch_load [OF sel] res c by simp
  show "rr_backends r' = rr_backends r \<and> rr_routes r' = rr_routes r" using res by simp
qed

section \<open>What a selection promises\<close>

text \<open>
  A registered backend is eligible for a request when it has the capability and passes the health
  check. It is preferred when no model is asked for, or when one of its models matches and no
  eligible backend scores higher.
\<close>

definition eligible :: "router \<Rightarrow> capability \<Rightarrow> health_checker \<Rightarrow> backend_info \<Rightarrow> bool" where
  "eligible r kind hc i \<longleftrightarrow>
     map_of (rr_backends r) (bi_Name i) = Some i \<and> kind \<in> set (bi_Capabilities i) \<and> passes hc (bi_Name i)"

definition preferred :: "router \<Rightarrow> capability \<Rightarrow> string \<Rightarrow> health_checker \<Rightarrow> backend_info \<Rightarrow> bool" where
  "preferred r kind model hc i \<longleftrightarrow>
     eligible r kind hc i \<and>
     (model \<noteq> [] \<longrightarrow>
        (\<exists>m \<in> set (bi_Models i). mi_Kind m = kind \<and> has_prefix model (mi_ID m))
        \<and> (\<forall>j. eligible r kind hc j \<longrightarrow> scoreBackend j kind model \<le> scoreBackend i kind model))"

lemma set_BackendsByCapability:
  assumes "router_ok r" and "iterates visit (rr_backends r)"
  shows "set (BackendsByCapability visit kind r) =
           {i. map_of (rr_backends r) (bi_Name i) = Some i \<and> kind \<in> set (bi_Capabilities i)}"
  using set_values_in [OF assms(2)] router_ok_Name [OF assms(1)]
  by (auto simp: BackendsByCapability_def)

lemma inj_bi_Name: "inj_on bi_Name {i. map_of (rr_backends r) (bi_Name i) = Some i \<and> P i}"
  by (rule inj_onI) (metis (mono_tags, lifting) mem_Collect_eq option.inject)

lemma set_healthy_candidates:
  assumes "router_ok r" and "iterates visit (rr_backends r)"
  shows "set [c \<leftarrow> BackendsByCapability visit kind r. passes hc (bi_Name c)] = {i. eligible r kind hc i}"
  using set_BackendsByCapability [OF assms, of kind] by (auto simp: eligible_def)

lemma inj_eligible: "inj_on bi_Name {i. eligible r kind hc i}"
  using inj_bi_Name [of r "\<lambda>i. kind \<in> set (bi_Capabilities i) \<and> passes hc (bi_Name i)"]
  by (simp add: eligible_def)

text \<open>The best tier of the scored candidates is the set of preferred backends.\<close>

lemma set_top_tier:
  assumes healthy: "set healthy = {i. eligible r kind hc i}" "healthy \<noteq> []"
    and model: "model \<noteq> []"
    and top: "topScore = snd (hd (scored_candidates healthy kind model))" "50 \<le> topScore"
  shows "set (map fst [sc \<leftarrow> scored_candidates healthy kind model. snd sc = topScore])
           = {i. preferred r kind model hc i}"
proof -
  let ?s = "scored_candidates healthy kind model"
  have in_s: "(i, scoreBackend i kind model) \<in> set ?s" if "eligible r kind hc i" for i
    using that healthy(1) by (simp add: set_scored)
  have le: "scoreBackend j kind model \<le> topScore" if "eligible r kind hc j" for j
    using hd_scored(2) [OF healthy(2) in_s [OF that]] top(1) by simp
  obtain b where b: "eligible r kind hc b" "scoreBackend b kind model = topScore"
    using hd_scored(1) [OF healthy(2), of kind model] healthy(1) top(1) by (auto simp: set_scored)
  have top_iff: "preferred r kind model hc i \<longleftrightarrow> eligible r kind hc i \<and> scoreBackend i kind model = topScore" for i
    using score_matches [of i kind model] model top(2) le b by (auto simp: preferred_def intro: antisym)
  have "set (map fst [sc \<leftarrow> ?s. snd sc = topScore]) =
      {i. eligible r kind hc i \<and> scoreBackend i kind model = topScore}"
    using healthy(1) by (force simp: set_scored)
  then show ?thesis by (simp add: top_iff)
qed

lemma no_preferred:
  assumes healthy: "set healthy = {i. eligible r kind hc i}" "healthy \<noteq> []" and model: "model \<noteq> []"
    and top: "snd (hd (scored_candidates healthy kind model)) < 50"
  shows "\<not> preferred r kind model hc i"
proof
  assume pref: "preferred r kind model hc i"
  then have "(i, scoreBackend i kind model) \<in> set (scored_candidates healthy kind model)"
    using healthy(1) by (simp add: preferred_def set_scored)
  from hd_scored(2) [OF healthy(2) this] top have "scoreBackend i kind model < 50" by simp
  with pref model score_matches [of i kind model] show False by (auto simp: preferred_def)
qed

text \<open>The success branch, shared by the two calls of \<open>pickBalanced\<close>.\<close>

definition selected_ok ::
  "router \<Rightarrow> capability \<Rightarrow> string \<Rightarrow> health_checker \<Rightarrow> backend_info \<Rightarrow> router \<Rightarrow> bool" where
  "selected_ok r kind model hc i r' \<longleftrightarrow>
     preferred r kind model hc i
     \<and> (\<forall>j. preferred r kind model hc j \<longrightarrow> InFlight (rr_lb r) (bi_Name i) \<le> InFlight (rr_lb r) (bi_Name j))
     \<and> (\<forall>k. InFlight (rr_lb r') k = InFlight (rr_lb r) k + (if k = bi_Name i then 1 else 0))
     \<and> rr_backends r' = rr_backends r \<and> rr_routes r' = rr_routes r"

lemma pick_selected:
  assumes "set cs = {i. preferred r kind model hc i}" and "cs \<noteq> []" and "pickBalanced cs r = (i, r')"
  shows "selected_ok r kind model hc i r'"
proof -
  have inj: "inj_on bi_Name (set cs)"
    using inj_eligible [of r kind hc] assms(1) by (auto simp: preferred_def inj_on_def)
  show ?thesis
    using pickBalanced_correct [OF assms(2) inj assms(3)] assms(1) by (auto simp: selected_ok_def)
qed

lemma selectBackend_selects:
  assumes ok: "router_ok r" and visit: "iterates visit (rr_backends r)"
  shows "case selectBackend visit kind model hc r of
           (Inr i, r') \<Rightarrow> selected_ok r kind model hc i r'
         | (Inl e, r') \<Rightarrow> r' = r \<and> (\<forall>i. \<not> preferred r kind model hc i)
             \<and> e = sentinel_error (if \<exists>k i. map_of (rr_backends r) k = Some i \<and> kind \<in> set (bi_Capabilities i)
                                   then ErrNoHealthyBackend else ErrCapabilityNotSupported)"
proof -
  let ?cand = "BackendsByCapability visit kind r"
  let ?h = "[c \<leftarrow> ?cand. passes hc (bi_Name c)]"
  let ?s = "scored_candidates ?h kind model"
  have healthy: "set ?h = {i. eligible r kind hc i}" by (rule set_healthy_candidates [OF ok visit])
  have cap: "?cand \<noteq> [] \<longleftrightarrow> (\<exists>k i. map_of (rr_backends r) k = Some i \<and> kind \<in> set (bi_Capabilities i))"
  proof -
    have "?cand \<noteq> [] \<longleftrightarrow> (\<exists>i. i \<in> set ?cand)" by (metis list.set_intros(1) neq_Nil_conv empty_iff empty_set)
    also have "\<dots> \<longleftrightarrow> (\<exists>i. map_of (rr_backends r) (bi_Name i) = Some i \<and> kind \<in> set (bi_Capabilities i))"
      by (simp add: set_BackendsByCapability [OF ok visit, of kind])
    also have "\<dots> \<longleftrightarrow> (\<exists>k i. map_of (rr_backends r) k = Some i \<and> kind \<in> set (bi_Capabilities i))"
      using router_ok_Name [OF ok] by blast
    finally show ?thesis .
  qed
  show ?thesis
  proof (cases "?h = []")
    case True
    then have "\<not> preferred r kind model hc i" for i
      using healthy by (auto simp: preferred_def)
    with True cap show ?thesis by (auto simp: selectBackend_def Let_def)
  next
    case h: False
    then have cand: "?cand \<noteq> []" by auto
    show ?thesis
    proof (cases "model = []")
      case True
      obtain i r' where pick: "pickBalanced ?h r = (i, r')" by fastforce
      have "set ?h = {i. preferred r kind model hc i}"
        using healthy True by (simp add: preferred_def)
      from pick_selected [OF this h pick] True cand h pick show ?thesis
        by (simp add: selectBackend_def Let_def)
    next
      case model: False
      show ?thesis
      proof (cases "snd (hd ?s) < 50")
        case True
        with no_preferred [OF healthy h model True] cap cand h model show ?thesis
          by (simp add: selectBackend_def Let_def)
      next
        case False
        let ?tier = "map fst [sc \<leftarrow> ?s. snd sc = snd (hd ?s)]"
        obtain i r' where pick: "pickBalanced ?tier r = (i, r')" by fastforce
        have tier: "set ?tier = {i. preferred r kind model hc i}"
          using set_top_tier [OF healthy h model refl] False by simp
        have "hd ?s \<in> set ?s" using hd_scored(1) [OF h] by simp
        then have "?tier \<noteq> []" by (auto simp: filter_empty_conv)
        from pick_selected [OF tier this pick] False model cand h pick show ?thesis
          by (simp add: selectBackend_def Let_def)
      qed
    qed
  qed
qed

text \<open>Two text-to-speech backends, as \<open>main\<close> registers them: one model each, named alike.\<close>

definition tts_info :: "string \<Rightarrow> string list \<Rightarrow> backend_info" where
  "tts_info name models =
     \<lparr>bi_Name = name, bi_Backend = None, bi_TTSBackend = None, bi_Capabilities = [CapTTS],
      bi_Models = map (\<lambda>m. \<lparr>mi_ID = m, mi_Provider = [], mi_Kind = CapTTS\<rparr>) models\<rparr>"

definition two_voices :: router where
  "two_voices =
     RegisterInfo (tts_info ''chatterbox'' [''chatterbox'']) (RegisterInfo (tts_info ''kokoro'' [''kokoro'']) NewRouter)"

lemma two_voices_ok: "router_ok two_voices"
  by (simp add: two_voices_def router_ok_RegisterInfo router_ok_New)

lemma two_voices_backends:
  "rr_backends two_voices =
     [(''kokoro'', tts_info ''kokoro'' [''kokoro'']), (''chatterbox'', tts_info ''chatterbox'' [''chatterbox''])]"
  by (simp add: two_voices_def RegisterInfo_def tts_info_def NewRouter_def)

lemma two_voices_visit: "iterates [''chatterbox'', ''kokoro''] (rr_backends two_voices)"
  by (auto simp: iterates_def two_voices_backends)

lemmas select_eval =
  selectBackend_def BackendsByCapability_def values_in_def map_filter_def scored_candidates_def
  scoreBackend_def model_score_def pickBalanced_def Select_def has_prefix_def tts_info_def

text \<open>
  C18: in a well-formed registry a selection returns a preferred backend of least load among the
  preferred ones and charges it with one request; it fails, leaving the registry as it was,
  exactly when no backend is preferred, with \<open>ErrCapabilityNotSupported\<close> when no registered
  backend has the capability and \<open>ErrNoHealthyBackend\<close> otherwise.
\<close>

theorem selectBackend_correct:
  assumes ok: "router_ok r" and visit: "iterates visit (rr_backends r)"
  shows "case selectBackend visit kind model hc r of
           (Inr i, r') \<Rightarrow> selected_ok r kind model hc i r'
         | (Inl e, r') \<Rightarrow> r' = r \<and> (\<forall>i. \<not> preferred r kind model hc i)
             \<and> e = sentinel_error (if \<exists>k i. map_of (rr_backends r) k = Some i \<and> kind \<in> set (bi_Capabilities i)
                                   then ErrNoHealthyBackend else ErrCapabilityNotSupported)"
  using assms by (rule selectBackend_selects)

theorem selectBackend_correct_witness:
  "fst (selectBackend [''chatterbox'', ''kokoro''] CapTTS ''kokoro'' None two_voices)
     = Inr (tts_info ''kokoro'' [''kokoro''])
   \<and> preferred two_voices CapTTS ''kokoro'' None (tts_info ''kokoro'' [''kokoro''])"
proof -
  have sel: "selectBackend [''chatterbox'', ''kokoro''] CapTTS ''kokoro'' None two_voices =
      (Inr (tts_info ''kokoro'' [''kokoro'']), two_voices\<lparr>rr_lb := Acquire ''kokoro'' (rr_lb two_voices)\<rparr>)"
    by (simp add: select_eval two_voices_backends)
  show ?thesis
    using selectBackend_correct [OF two_voices_ok two_voices_visit, of CapTTS "''kokoro''" None]
    unfolding sel by (simp add: selected_ok_def)
qed

section \<open>Exact matches\<close>

lemma exact_score: "m \<in> set (bi_Models i) \<Longrightarrow> mi_ID m = model \<Longrightarrow> mi_Kind m = kind \<Longrightarrow>
    kind \<in> set (bi_Capabilities i) \<Longrightarrow> 110 \<le> scoreBackend i kind model"
  using sum_model_score_ge [of m "bi_Models i" kind model]
  by (simp add: scoreBackend_sum model_score_def)

lemma single_model_score:
  "length (bi_Models i) \<le> 1 \<Longrightarrow> 110 \<le> scoreBackend i kind model \<Longrightarrow>
   \<exists>m \<in> set (bi_Models i). mi_ID m = model \<and> mi_Kind m = kind"
  by (cases "bi_Models i") (auto simp: scoreBackend_sum model_score_def split: if_splits)

text \<open>
  When every backend offers at most one model, as all the backends that \<open>main\<close> registers do,
  a selection never hands a request for a model to a backend that only matches its prefix while
  an eligible backend offers exactly that model.
\<close>

theorem selectBackend_exact_match:
  assumes ok: "router_ok r" and visit: "iterates visit (rr_backends r)"
    and single: "\<And>k i. map_of (rr_backends r) k = Some i \<Longrightarrow> length (bi_Models i) \<le> 1"
    and model: "model \<noteq> []"
    and exact: "eligible r kind hc j" "m \<in> set (bi_Models j)" "mi_ID m = model" "mi_Kind m = kind"
    and sel: "selectBackend visit kind model hc r = (Inr i, r')"
  shows "\<exists>m \<in> set (bi_Models i). mi_ID m = model \<and> mi_Kind m = kind"
proof -
  have pref: "preferred r kind model hc i"
    using selectBackend_selects [OF ok visit, of kind model hc] sel by (simp add: selected_ok_def)
  have "110 \<le> scoreBackend j kind model"
    using exact by (intro exact_score) (auto simp: eligible_def)
  also have "\<dots> \<le> scoreBackend i kind model"
    using pref model exact(1) by (simp add: preferred_def)
  finally show ?thesis
    using pref single [of "bi_Name i" i] by (intro single_model_score) (auto simp: preferred_def eligible_def)
qed

theorem selectBackend_exact_match_witness:
  "\<exists>m \<in> set (bi_Models (tts_info ''kokoro'' [''kokoro''])). mi_ID m = ''kokoro'' \<and> mi_Kind m = CapTTS"
proof (rule selectBackend_exact_match [OF two_voices_ok two_voices_visit])
  show "eligible two_voices CapTTS None (tts_info ''kokoro'' [''kokoro''])"
    by (simp add: eligible_def two_voices_backends tts_info_def)
  show "selectBackend [''chatterbox'', ''kokoro''] CapTTS ''kokoro'' None two_voices =
      (Inr (tts_info ''kokoro'' [''kokoro'']), two_voices\<lparr>rr_lb := Acquire ''kokoro'' (rr_lb two_voices)\<rparr>)"
    by (simp add: select_eval two_voices_backends)
qed (auto simp: two_voices_backends tts_info_def split: if_splits)

text \<open>A backend with the exact model beside one that offers three models of that prefix.\<close>

definition crowded :: router where
  "crowded =
     RegisterInfo (tts_info ''many'' [''tts-1-a'', ''tts-1-b'', ''tts-1-c''])
       (RegisterInfo (tts_info ''exact'' [''tts-1'']) NewRouter)"

text \<open>
  Without that restriction the scores of several prefix matches add up past an exact match:
  there is a well-formed registry where a request for \<open>tts-1\<close> goes to a backend that does not
  offer \<open>tts-1\<close>, although an eligible one does.
\<close>

theorem selectBackend_prefixes_outrank_exact:
  "\<exists>i r'. router_ok crowded \<and> iterates [''exact'', ''many''] (rr_backends crowded)
     \<and> eligible crowded CapTTS None (tts_info ''exact'' [''tts-1''])
     \<and> SelectBackend [''exact'', ''many''] CapTTS ''tts-1'' crowded = (Inr i, r')
     \<and> bi_Name i = ''many'' \<and> ''tts-1'' \<notin> mi_ID ` set (bi_Models i)"
proof -
  have backends: "rr_backends crowded =
      [(''exact'', tts_info ''exact'' [''tts-1'']),
       (''many'', tts_info ''many'' [''tts-1-a'', ''tts-1-b'', ''tts-1-c''])]"
    by (simp add: crowded_def RegisterInfo_def tts_info_def NewRouter_def)
  have "SelectBackend [''exact'', ''many''] CapTTS ''tts-1'' crowded =
      (Inr (tts_info ''many'' [''tts-1-a'', ''tts-1-b'', ''tts-1-c'']),
       crowded\<lparr>rr_lb := Acquire ''many'' (rr_lb crowded)\<rparr>)"
    by (simp add: SelectBackend_def select_eval backends)
  moreover have "router_ok crowded"
    by (simp add: crowded_def router_ok_RegisterInfo router_ok_New)
  moreover have "iterates [''exact'', ''many''] (rr_backends crowded)"
    by (auto simp: iterates_def backends)
  moreover have "eligible crowded CapTTS None (tts_info ''exact'' [''tts-1''])"
    by (simp add: eligible_def backends tts_info_def)
  ultimately show ?thesis by (auto simp: tts_info_def)
qed

end
