(* ===== verification/Observe.thy ===== *)
theory Observe
  imports Go_Text
begin

text \<open>
  What the program tells the outside world besides its responses: calls of the Prometheus client
  and structured log lines. Both are third-party or library sinks, so the model keeps the calls
  themselves, in the order they are made. The value of a gauge or counter is read off the calls.
\<close>

section \<open>Metrics\<close>

datatype metric =
    HttpRequestsTotal
  | HttpRequestDuration
  | HttpRequestsInFlight
  | TokensTotal
  | BackendHealth
  | BackendRequestDuration
  | RateLimitRejections
  | TTSRequestsTotal
  | TTSRequestDuration
  | TTSCharactersTotal
  | RoutingDecisionsTotal

datatype metric_call =
    MInc metric "string list"
  | MDec metric "string list"
  | MAdd metric "string list" int
  | MSet metric "string list" int
  | MObserve metric "string list"

section \<open>Logs\<close>

datatype level = LevelDebug | LevelInfo | LevelWarn | LevelError

record log_line =
  lg_level :: level
  lg_msg :: string
  lg_attrs :: "(string \<times> string) list"

record observed =
  ob_metrics :: "metric_call list"
  ob_logs :: "log_line list"

definition no_observed :: observed where
  "no_observed = \<lparr>ob_metrics = [], ob_logs = []\<rparr>"

definition metric :: "metric_call \<Rightarrow> observed \<Rightarrow> observed" where
  "metric c o' = o'\<lparr>ob_metrics := ob_metrics o' @ [c]\<rparr>"

definition log_attrs :: "level \<Rightarrow> string \<Rightarrow> (string \<times> string) list \<Rightarrow> observed \<Rightarrow> observed" where
  "log_attrs l m as o' = o'\<lparr>ob_logs := ob_logs o' @ [\<lparr>lg_level = l, lg_msg = m, lg_attrs = as\<rparr>]\<rparr>"

text \<open>The value of a gauge is what it was last set to; an up-down gauge counts.\<close>

fun last_set :: "metric \<Rightarrow> string list \<Rightarrow> metric_call list \<Rightarrow> int option" where
  "last_set m ls [] = None"
| "last_set m ls (c # cs) =
     (case last_set m ls cs of
        Some v \<Rightarrow> Some v
      | None \<Rightarrow> (case c of MSet m' ls' v \<Rightarrow> if m' = m \<and> ls' = ls then Some v else None | _ \<Rightarrow> None))"

definition call_delta :: "metric \<Rightarrow> metric_call \<Rightarrow> int" where
  "call_delta m c =
     (case c of MInc m' _ \<Rightarrow> if m' = m then 1 else 0 | MDec m' _ \<Rightarrow> if m' = m then -1 else 0 | _ \<Rightarrow> 0)"

definition gauge_level :: "metric \<Rightarrow> metric_call list \<Rightarrow> int" where
  "gauge_level m cs = sum_list (map (call_delta m) cs)"

text \<open>
  The calls that account for a request: those on \<open>requests_total\<close> and on its duration. The
  canonical log lines are the ones with the message \<open>request\<close>.
\<close>

fun metric_of :: "metric_call \<Rightarrow> metric" where
  "metric_of (MInc m ls) = m"
| "metric_of (MDec m ls) = m"
| "metric_of (MAdd m ls v) = m"
| "metric_of (MSet m ls v) = m"
| "metric_of (MObserve m ls) = m"

definition accounting :: "metric_call list \<Rightarrow> metric_call list" where
  "accounting cs = filter (\<lambda>c. metric_of c = HttpRequestsTotal \<or> metric_of c = HttpRequestDuration) cs"

definition canonical :: "log_line list \<Rightarrow> log_line list" where
  "canonical ls = filter (\<lambda>l. lg_msg l = ''request'') ls"

lemma accounting_simps [simp]:
  "accounting [] = []" "accounting (cs @ ds) = accounting cs @ accounting ds"
  "accounting (c # cs) =
     (if metric_of c = HttpRequestsTotal \<or> metric_of c = HttpRequestDuration then [c] else []) @ accounting cs"
  by (simp_all add: accounting_def)

lemma canonical_simps [simp]:
  "canonical [] = []" "canonical (ls @ ks) = canonical ls @ canonical ks"
  "canonical (l # ls) = (if lg_msg l = ''request'' then [l] else []) @ canonical ls"
  by (simp_all add: canonical_def)

text \<open>What was accounted for so far.\<close>

abbreviation accounts :: "observed \<Rightarrow> metric_call list \<times> log_line list" where
  "accounts o' \<equiv> (accounting (ob_metrics o'), canonical (ob_logs o'))"

lemma metric_simps [simp]:
  "ob_metrics (metric c o') = ob_metrics o' @ [c]"
  "ob_logs (metric c o') = ob_logs o'"
  by (simp_all add: metric_def)

lemma log_attrs_simps [simp]:
  "ob_metrics (log_attrs l m as o') = ob_metrics o'"
  "ob_logs (log_attrs l m as o') = ob_logs o' @ [\<lparr>lg_level = l, lg_msg = m, lg_attrs = as\<rparr>]"
  by (simp_all add: log_attrs_def)

lemma last_set_snoc:
  "last_set m ls (cs @ [c]) =
     (case c of MSet m' ls' v \<Rightarrow> if m' = m \<and> ls' = ls then Some v else last_set m ls cs
      | _ \<Rightarrow> last_set m ls cs)"
  by (induction cs) (auto split: metric_call.splits option.splits)

lemma gauge_level_simps [simp]:
  "gauge_level m [] = 0"
  "gauge_level m (cs @ ds) = gauge_level m cs + gauge_level m ds"
  "gauge_level m (c # cs) = call_delta m c + gauge_level m cs"
  by (simp_all add: gauge_level_def)

end
