(* ===== verification/Watchdog.thy ===== *)
theory Watchdog
  imports Backend_Registry Router Observe Keyed
begin

text \<open>
  The watchdog (\<open>internal/watchdog/watchdog.go\<close>): a background loop that probes every backend,
  counts consecutive failures per name, marks a name degraded when the count reaches the
  threshold and healthy again at the first success. Durations are nanoseconds.
\<close>

section \<open>State and operations\<close>

record wd_config =
  wc_Interval :: int
  wc_FailThreshold :: int
  wc_RequestTimeout :: int

definition second :: int where
  "second = 1000000000"

definition DefaultConfig :: wd_config where
  "DefaultConfig = \<lparr>wc_Interval = 30 * second, wc_FailThreshold = 3, wc_RequestTimeout = 5 * second\<rparr>"

record backend_state =
  bs_failures :: int
  bs_healthy :: bool

record watchdog =
  wd_cfg :: wd_config
  wd_states :: "string \<rightharpoonup> backend_state"
  wd_started :: bool
  wd_cancelled :: bool

definition NewWatchdog :: "wd_config \<Rightarrow> watchdog" where
  "NewWatchdog cfg = \<lparr>wd_cfg = cfg, wd_states = Map.empty, wd_started = False, wd_cancelled = False\<rparr>"

definition IsHealthy :: "watchdog \<Rightarrow> string \<Rightarrow> bool" where
  "IsHealthy w name = (case wd_states w name of Some s \<Rightarrow> bs_healthy s | None \<Rightarrow> True)"

text \<open>
  One probe result. The state of a name that has not been probed is created healthy with no
  failures. The gauge is set and the transitions are logged.
\<close>

definition fresh_state :: backend_state where
  "fresh_state = \<lparr>bs_failures = 0, bs_healthy = True\<rparr>"

definition checkBackend ::
  "string \<Rightarrow> gerr option \<Rightarrow> watchdog \<times> observed \<Rightarrow> watchdog \<times> observed" where
  "checkBackend name err = (\<lambda>(w, ob).
     let st = (case wd_states w name of None \<Rightarrow> fresh_state | Some s \<Rightarrow> s);
         put = (\<lambda>s. w\<lparr>wd_states := (wd_states w)(name \<mapsto> s)\<rparr>);
         gauge = (\<lambda>v. metric (MSet BackendHealth [name] v))
     in case err of
          Some e \<Rightarrow>
            (let n = bs_failures st + 1
             in if wc_FailThreshold (wd_cfg w) \<le> n \<and> bs_healthy st
                then (put \<lparr>bs_failures = n, bs_healthy = False\<rparr>,
                      log_attrs LevelWarn ''backend marked DEGRADED''
                        [(''backend'', name), (''consecutive_failures'', itoa n)] (gauge 0 ob))
                else if \<not> bs_healthy st
                then (put \<lparr>bs_failures = n, bs_healthy = False\<rparr>, gauge 0 ob)
                else (put \<lparr>bs_failures = n, bs_healthy = True\<rparr>,
                      log_attrs LevelDebug ''backend probe failed (below threshold)''
                        [(''backend'', name), (''err'', err_msg e), (''failures'', itoa n)] (gauge 1 ob)))
        | None \<Rightarrow>
            (let wasDown = \<not> bs_healthy st; ob1 = gauge 1 ob
             in (put \<lparr>bs_failures = 0, bs_healthy = True\<rparr>,
                 if wasDown then log_attrs LevelInfo ''backend recovered'' [(''backend'', name)] ob1 else ob1)))"

text \<open>
  A probe cycle: the chat backends in the order their registry is visited, then the TTS backends
  of the other registry, if there is one, that have a TTS implementation. Each backend is asked
  in the environment of its own call.
\<close>

definition chat_results :: "string list \<Rightarrow> env \<Rightarrow> registry \<Rightarrow> (string \<times> gerr option) list" where
  "chat_results visit ev reg = map (\<lambda>b. (be_Name b, be_Health b ev)) (All visit reg)"

definition tts_results :: "string list \<Rightarrow> env \<Rightarrow> router \<Rightarrow> (string \<times> gerr option) list" where
  "tts_results visit ev rtr =
     List.map_filter (\<lambda>i. map_option (\<lambda>t. (bi_Name i, tb_Health t ev)) (bi_TTSBackend i)) (AllInfos visit rtr)"

definition check_all ::
  "(string \<times> gerr option) list \<Rightarrow> watchdog \<times> observed \<Rightarrow> watchdog \<times> observed" where
  "check_all results s = fold (\<lambda>(name, err). checkBackend name err) results s"

definition probe ::
  "string list \<Rightarrow> string list \<Rightarrow> env \<Rightarrow> registry \<Rightarrow> router option \<Rightarrow> watchdog \<times> observed \<Rightarrow> watchdog \<times> observed" where
  "probe visit tvisit ev reg tts s =
     (let s1 = check_all (chat_results visit ev reg) s
      in case tts of None \<Rightarrow> s1 | Some rtr \<Rightarrow> check_all (tts_results tvisit ev rtr) s1)"

text \<open>
  \<open>Start\<close> probes once and then starts the loop, whose first action is \<open>time.NewTicker\<close>, which
  panics for an interval that is not positive; the panic is in a goroutine of its own, so nothing
  recovers it and the process dies.
\<close>

datatype start_outcome = Started | ProcessCrashed

definition Start ::
  "string list \<Rightarrow> string list \<Rightarrow> env \<Rightarrow> registry \<Rightarrow> router option \<Rightarrow> watchdog \<times> observed
     \<Rightarrow> start_outcome \<times> watchdog \<times> observed" where
  "Start visit tvisit ev reg tts = (\<lambda>(w, ob).
     let (w1, ob1) = probe visit tvisit ev reg tts (w\<lparr>wd_started := True, wd_cancelled := False\<rparr>, ob);
         ob2 = log_attrs LevelInfo ''watchdog started''
                 [(''interval'', itoa (wc_Interval (wd_cfg w))),
                  (''fail_threshold'', itoa (wc_FailThreshold (wd_cfg w)))] ob1
     in (if wc_Interval (wd_cfg w) \<le> 0 then ProcessCrashed else Started, w1, ob2))"

definition Stop :: "watchdog \<Rightarrow> watchdog" where
  "Stop w = (if wd_started w then w\<lparr>wd_cancelled := True\<rparr> else w)"

section \<open>The transitions of one backend\<close>

definition bs_step :: "int \<Rightarrow> bool \<Rightarrow> backend_state \<Rightarrow> backend_state" where
  "bs_step threshold failed st =
     (if failed
      then \<lparr>bs_failures = bs_failures st + 1,
            bs_healthy = (bs_healthy st \<and> bs_failures st + 1 < threshold)\<rparr>
      else \<lparr>bs_failures = 0, bs_healthy = True\<rparr>)"

definition state_or_fresh :: "watchdog \<Rightarrow> string \<Rightarrow> backend_state" where
  "state_or_fresh w name = (case wd_states w name of None \<Rightarrow> fresh_state | Some s \<Rightarrow> s)"

lemma IsHealthy_state: "IsHealthy w name = bs_healthy (state_or_fresh w name)"
  by (simp add: IsHealthy_def state_or_fresh_def fresh_state_def split: option.splits)

lemma checkBackend_states:
  "wd_states (fst (checkBackend name err s)) =
     (wd_states (fst s))(name \<mapsto> bs_step (wc_FailThreshold (wd_cfg (fst s))) (err \<noteq> None) (state_or_fresh (fst s) name))"
  by (cases s; cases err)
    (auto simp: checkBackend_def bs_step_def state_or_fresh_def Let_def split: option.splits)

lemma checkBackend_cfg [simp]:
  "wd_cfg (fst (checkBackend name err s)) = wd_cfg (fst s)"
  "wd_started (fst (checkBackend name err s)) = wd_started (fst s)"
  "wd_cancelled (fst (checkBackend name err s)) = wd_cancelled (fst s)"
  by (cases s; cases err; auto simp: checkBackend_def Let_def split: option.splits)+

interpretation wd: keyed_machine
  "\<lambda>s. state_or_fresh (fst s)" "\<lambda>s. wc_FailThreshold (wd_cfg (fst s))"
  checkBackend "\<lambda>t err. bs_step t (err \<noteq> None)"
  by unfold_locales (simp_all add: state_or_fresh_def checkBackend_states)

lemma check_all_project:
  "state_or_fresh (fst (check_all results s)) m =
     fold (\<lambda>err. bs_step (wc_FailThreshold (wd_cfg (fst s))) (err \<noteq> None))
       (map snd (filter (\<lambda>(k, e). k = m) results)) (state_or_fresh (fst s) m)"
  unfolding check_all_def by (rule wd.run_project)

text \<open>The length of the streak of failures at the end of a history of results.\<close>

definition streak :: "gerr option list \<Rightarrow> nat" where
  "streak errs = length (takeWhile (\<lambda>e. e \<noteq> None) (rev errs))"

lemma streak_snoc: "streak (errs @ [e]) = (if e = None then 0 else Suc (streak errs))"
  by (simp add: streak_def)

lemma fold_bs_step:
  "fold (\<lambda>err. bs_step t (err \<noteq> None)) errs fresh_state =
     \<lparr>bs_failures = int (streak errs), bs_healthy = (int (streak errs) < max 1 t)\<rparr>"
proof (induction errs rule: rev_induct)
  case Nil
  then show ?case by (simp add: fresh_state_def streak_def)
next
  case (snoc e errs)
  then show ?case by (auto simp: bs_step_def streak_snoc)
qed

section \<open>Properties\<close>

text \<open>
  C20: after any interleaving of probe results of any backends, a backend counts exactly its own
  current streak of consecutive failures, and it is degraded exactly when that streak has reached
  the threshold (a threshold below one acts as one).
\<close>

theorem watchdog_degraded_iff_streak:
  fixes results :: "(string \<times> gerr option) list" and name :: string and cfg :: wd_config and ob :: observed
  defines "mine \<equiv> map snd (filter (\<lambda>(k, e). k = name) results)"
    and "w \<equiv> fst (check_all results (NewWatchdog cfg, ob))"
  shows "IsHealthy w name = (int (streak mine) < max 1 (wc_FailThreshold cfg))
         \<and> bs_failures (state_or_fresh w name) = int (streak mine)"
proof -
  have "state_or_fresh w name = fold (\<lambda>err. bs_step (wc_FailThreshold cfg) (err \<noteq> None)) mine fresh_state"
    unfolding w_def check_all_project mine_def
    by (simp add: NewWatchdog_def state_or_fresh_def)
  then show ?thesis
    unfolding fold_bs_step by (simp add: IsHealthy_state)
qed

text \<open>
  The gauge of a backend that has been probed is 1 when the watchdog holds it healthy and 0 when
  it holds it degraded.
\<close>

definition gauge_agrees :: "watchdog \<times> observed \<Rightarrow> bool" where
  "gauge_agrees s \<longleftrightarrow>
     (\<forall>name st. wd_states (fst s) name = Some st \<longrightarrow>
        last_set BackendHealth [name] (ob_metrics (snd s)) = Some (if bs_healthy st then 1 else 0))"

lemma checkBackend_gauge:
  "last_set BackendHealth [m] (ob_metrics (snd (checkBackend name err s))) =
     (if m = name then Some (if IsHealthy (fst (checkBackend name err s)) name then 1 else 0)
      else last_set BackendHealth [m] (ob_metrics (snd s)))"
  by (cases s; cases err)
    (auto simp: checkBackend_def IsHealthy_def Let_def last_set_snoc split: option.splits)

lemma checkBackend_gauge_agrees:
  assumes "gauge_agrees s"
  shows "gauge_agrees (checkBackend name err s)"
  unfolding gauge_agrees_def
proof (intro allI impI)
  fix m st
  assume st: "wd_states (fst (checkBackend name err s)) m = Some st"
  show "last_set BackendHealth [m] (ob_metrics (snd (checkBackend name err s))) = Some (if bs_healthy st then 1 else 0)"
  proof (cases "m = name")
    case True
    with st show ?thesis by (simp add: checkBackend_gauge IsHealthy_def)
  next
    case False
    with st assms show ?thesis
      by (simp add: checkBackend_gauge checkBackend_states gauge_agrees_def)
  qed
qed

lemma check_all_gauge_agrees: "gauge_agrees s \<Longrightarrow> gauge_agrees (check_all results s)"
  unfolding check_all_def
proof (induction results arbitrary: s)
  case (Cons r results)
  then show ?case by (cases r) (simp add: checkBackend_gauge_agrees)
qed simp

text \<open>
  Whatever results the probes deliver, the \<open>backend_healthy\<close> gauge of every probed backend
  agrees with what \<open>IsHealthy\<close> tells the routers.
\<close>

theorem probe_gauge_agrees:
  assumes "wd_states (fst (probe visit tvisit ev reg tts (NewWatchdog cfg, ob))) name \<noteq> None"
  shows "last_set BackendHealth [name] (ob_metrics (snd (probe visit tvisit ev reg tts (NewWatchdog cfg, ob))))
         = Some (if IsHealthy (fst (probe visit tvisit ev reg tts (NewWatchdog cfg, ob))) name then 1 else 0)"
proof -
  have "gauge_agrees (NewWatchdog cfg, ob)" by (simp add: gauge_agrees_def NewWatchdog_def)
  then have "gauge_agrees (probe visit tvisit ev reg tts (NewWatchdog cfg, ob))"
    by (auto simp: probe_def Let_def check_all_gauge_agrees split: option.splits)
  with assms show ?thesis by (auto simp: gauge_agrees_def IsHealthy_def)
qed

section \<open>Probe cycles over the registries\<close>

lemma chat_results_names:
  assumes "registry_ok reg" and "iterates visit (rg_backends reg)"
  shows "map fst (chat_results visit ev reg) = visit"
  using map_values_in [OF assms(2), of be_Name] registry_ok_Name [OF assms(1)]
  by (simp add: chat_results_def All_def comp_def)

lemma chat_results_mem:
  assumes "registry_ok reg" and "iterates visit (rg_backends reg)"
    and "map_of (rg_backends reg) n = Some b"
  shows "(n, be_Health b ev) \<in> set (chat_results visit ev reg)"
  using set_values_in [OF assms(2)] registry_ok_Name [OF assms(1,3)] assms(3)
  by (force simp: chat_results_def All_def)

lemma tts_results_names: "fst ` set (tts_results tvisit ev rtr) \<subseteq> bi_Name ` set (AllInfos tvisit rtr)"
  by (auto simp: tts_results_def map_filter_def)

lemma AllInfos_names:
  assumes "router_ok rtr" and "iterates tvisit (rr_backends rtr)"
  shows "bi_Name ` set (AllInfos tvisit rtr) = fst ` set (rr_backends rtr)"
  using map_values_in [OF assms(2), of bi_Name] router_ok_Name [OF assms(1)] assms(2)
  by (simp add: AllInfos_def iterates_def) (metis list.set_map)

text \<open>
  When the two registries share no name, a probe cycle gives every chat backend exactly one
  event, its own health result, whatever order the maps are visited in.
\<close>

theorem probe_chat_backend:
  assumes "registry_ok reg" and "iterates visit (rg_backends reg)"
    and "router_ok rtr" and "iterates tvisit (rr_backends rtr)"
    and disjoint: "fst ` set (rg_backends reg) \<inter> fst ` set (rr_backends rtr) = {}"
    and b: "map_of (rg_backends reg) n = Some b"
  shows "state_or_fresh (fst (probe visit tvisit ev reg (Some rtr) s)) n =
           bs_step (wc_FailThreshold (wd_cfg (fst s))) (be_Health b ev \<noteq> None) (state_or_fresh (fst s) n)"
proof -
  let ?c = "chat_results visit ev reg" and ?t = "tts_results tvisit ev rtr"
  have "n \<in> fst ` set (rg_backends reg)" using b by (simp add: keys_map_of)
  moreover have "fst ` set ?t \<subseteq> fst ` set (rr_backends rtr)"
    using tts_results_names [of tvisit ev rtr] AllInfos_names [OF assms(3,4)] by simp
  ultimately have "n \<notin> fst ` set ?t" using disjoint by blast
  then have tts: "state_or_fresh (fst (check_all ?t s')) n = state_or_fresh (fst s') n" for s'
    using wd.run_untouched [of n ?t s'] by (simp add: check_all_def)
  have "distinct (map fst ?c)"
    using chat_results_names [OF assms(1,2)] assms(2) by (simp add: iterates_def)
  then have "state_or_fresh (fst (check_all ?c s)) n =
      bs_step (wc_FailThreshold (wd_cfg (fst s))) (be_Health b ev \<noteq> None) (state_or_fresh (fst s) n)"
    unfolding check_all_def by (rule wd.run_once) (rule chat_results_mem [OF assms(1,2) b])
  with tts show ?thesis by (simp add: probe_def Let_def)
qed

definition probe_registry :: registry where
  "probe_registry = Register (dummy_backend ''ollama'') NewRegistry"

lemma probe_registry_ok:
  "registry_ok probe_registry" "rg_backends probe_registry = [(''ollama'', dummy_backend ''ollama'')]"
  "iterates [''ollama''] (rg_backends probe_registry)"
  by (auto simp: probe_registry_def registry_ok_Register registry_ok_New iterates_def)
    (auto simp: Register_def NewRegistry_def Let_def)

definition dummy_tts :: "string \<Rightarrow> gerr option \<Rightarrow> tts_backend" where
  "dummy_tts n err =
     \<lparr>tb_Name = n, tb_Health = (\<lambda>_. err), tb_Synthesize = (\<lambda>_ _. Inl (new_error [])),
      tb_Voices = (\<lambda>_. Inr [])\<rparr>"

definition tts_only :: "string \<Rightarrow> gerr option \<Rightarrow> router" where
  "tts_only n err = RegisterInfo ((tts_info n [n])\<lparr>bi_TTSBackend := Some (dummy_tts n err)\<rparr>) NewRouter"

lemma tts_only_ok:
  "router_ok (tts_only n err)"
  "rr_backends (tts_only n err) = [(n, (tts_info n [n])\<lparr>bi_TTSBackend := Some (dummy_tts n err)\<rparr>)]"
  "iterates [n] (rr_backends (tts_only n err))"
  by (auto simp: tts_only_def router_ok_RegisterInfo router_ok_New iterates_def)
    (auto simp: RegisterInfo_def NewRouter_def tts_info_def)

theorem probe_chat_backend_witness:
  "state_or_fresh (fst (probe [''ollama''] [''kokoro''] idle_env probe_registry (Some (tts_only ''kokoro'' None))
     (NewWatchdog DefaultConfig, no_observed))) ''ollama'' = \<lparr>bs_failures = 0, bs_healthy = True\<rparr>"
  using probe_chat_backend [OF probe_registry_ok(1,3) tts_only_ok(1,3) [of "''kokoro''" None], of "''ollama''"]
  by (simp add: probe_registry_ok tts_only_ok bs_step_def dummy_backend_def)

theorem probe_gauge_agrees_witness:
  "last_set BackendHealth [''ollama'']
     (ob_metrics (snd (probe [''ollama''] [] idle_env probe_registry None (NewWatchdog DefaultConfig, no_observed)))) = Some 1"
proof -
  let ?s = "probe [''ollama''] [] idle_env probe_registry None (NewWatchdog DefaultConfig, no_observed)"
  have st: "wd_states (fst ?s) ''ollama'' = Some \<lparr>bs_failures = 0, bs_healthy = True\<rparr>"
    by (simp add: probe_def check_all_def chat_results_def All_def values_in_def probe_registry_ok
        map_filter_simps checkBackend_states bs_step_def dummy_backend_def)
  then show ?thesis
    using probe_gauge_agrees [of "[''ollama'']" "[]" idle_env probe_registry None DefaultConfig no_observed "''ollama''"]
    by (simp add: IsHealthy_def)
qed

section \<open>Names shared between the registries\<close>

lemma map_fst_tts_results:
  "map fst (tts_results tvisit ev rtr) = map bi_Name [i \<leftarrow> AllInfos tvisit rtr. bi_TTSBackend i \<noteq> None]"
proof -
  have "map fst (List.map_filter (\<lambda>i. map_option (\<lambda>t. (bi_Name i, tb_Health t ev)) (bi_TTSBackend i)) is)
        = map bi_Name [i \<leftarrow> is. bi_TTSBackend i \<noteq> None]" for "is"
    by (induction "is") (auto simp: map_filter_simps split: option.splits)
  then show ?thesis by (simp add: tts_results_def)
qed

lemma distinct_tts_results:
  assumes "router_ok rtr" and "iterates tvisit (rr_backends rtr)"
  shows "distinct (map fst (tts_results tvisit ev rtr))"
proof -
  have "distinct (map bi_Name (AllInfos tvisit rtr))"
    using map_values_in [OF assms(2), of bi_Name] router_ok_Name [OF assms(1)] assms(2)
    by (simp add: AllInfos_def iterates_def)
  then show ?thesis unfolding map_fst_tts_results by (rule distinct_map_filter)
qed

lemma tts_results_mem:
  assumes "router_ok rtr" and "iterates tvisit (rr_backends rtr)"
    and "map_of (rr_backends rtr) n = Some i" and "bi_TTSBackend i = Some t"
  shows "(n, tb_Health t ev) \<in> set (tts_results tvisit ev rtr)"
  using set_values_in [OF assms(2)] router_ok_Name [OF assms(1,3)] assms(3,4)
  by (force simp: tts_results_def AllInfos_def map_filter_def)

lemma tts_results_from:
  assumes "router_ok rtr" and "iterates tvisit (rr_backends rtr)" and "(n, e) \<in> set (tts_results tvisit ev rtr)"
  shows "\<exists>i t. map_of (rr_backends rtr) n = Some i \<and> bi_TTSBackend i = Some t \<and> e = tb_Health t ev"
  using assms(3) set_values_in [OF assms(2)] router_ok_Name [OF assms(1)]
  by (fastforce simp: tts_results_def AllInfos_def map_filter_def)

text \<open>
  A chat backend that answers a probe is healthy after it, unless a speech backend of the same name
  fails in the same probe and the threshold is one.
\<close>

lemma probe_healthy:
  assumes "registry_ok reg" and "iterates visit (rg_backends reg)"
    and "router_ok rtr" and "iterates tvisit (rr_backends rtr)"
    and "map_of (rg_backends reg) n = Some b" and "be_Health b ev = None"
    and tts: "2 \<le> wc_FailThreshold (wd_cfg (fst s))
      \<or> (\<forall>i t. map_of (rr_backends rtr) n = Some i \<longrightarrow> bi_TTSBackend i = Some t \<longrightarrow> tb_Health t ev = None)"
  shows "IsHealthy (fst (probe visit tvisit ev reg (Some rtr) s)) n"
proof -
  let ?c = "chat_results visit ev reg" and ?t = "tts_results tvisit ev rtr"
  let ?s1 = "check_all ?c s"
  have "distinct (map fst ?c)"
    using chat_results_names [OF assms(1,2)] assms(2) by (simp add: iterates_def)
  then have chat: "state_or_fresh (fst ?s1) n = bs_step (wc_FailThreshold (wd_cfg (fst s))) False (state_or_fresh (fst s) n)"
    using wd.run_once [of ?c n "be_Health b ev" s] chat_results_mem [OF assms(1,2,5), of ev] assms(6)
    by (simp add: check_all_def)
  have cfg: "wc_FailThreshold (wd_cfg (fst ?s1)) = wc_FailThreshold (wd_cfg (fst s))"
    unfolding check_all_def by (rule wd.conf_run)
  show ?thesis
  proof (cases "n \<in> fst ` set ?t")
    case True
    then obtain e where e: "(n, e) \<in> set ?t" by auto
    have "state_or_fresh (fst (check_all ?t ?s1)) n =
        bs_step (wc_FailThreshold (wd_cfg (fst ?s1))) (e \<noteq> None) (state_or_fresh (fst ?s1) n)"
      using wd.run_once [OF distinct_tts_results [OF assms(3,4)] e] by (simp add: check_all_def)
    moreover have "2 \<le> wc_FailThreshold (wd_cfg (fst s)) \<or> e = None"
      using tts tts_results_from [OF assms(3,4) e] by auto
    ultimately show ?thesis using chat cfg by (auto simp: probe_def Let_def IsHealthy_state bs_step_def)
  next
    case False
    then have "state_or_fresh (fst (check_all ?t ?s1)) n = state_or_fresh (fst ?s1) n"
      using wd.run_untouched [of n ?t ?s1] by (simp add: check_all_def)
    with chat show ?thesis by (simp add: probe_def Let_def IsHealthy_state bs_step_def)
  qed
qed

text \<open>
  C37: the watchdog files both registries under one name space. When a chat backend and a TTS
  backend share a name, every cycle first clears the count with the chat result and then counts
  one failure: with a threshold of two or more a TTS backend that fails every probe is never
  reported degraded, whatever happened before.
\<close>

theorem shared_name_hides_failure:
  assumes "registry_ok reg" and "iterates visit (rg_backends reg)"
    and "router_ok rtr" and "iterates tvisit (rr_backends rtr)"
    and "map_of (rg_backends reg) n = Some b" and "be_Health b ev = None"
    and "map_of (rr_backends rtr) n = Some i" and "bi_TTSBackend i = Some t" and "tb_Health t ev \<noteq> None"
    and "2 \<le> wc_FailThreshold (wd_cfg (fst s))"
  shows "IsHealthy (fst (probe visit tvisit ev reg (Some rtr) s)) n"
proof -
  let ?c = "chat_results visit ev reg" and ?t = "tts_results tvisit ev rtr"
  let ?s1 = "check_all ?c s"
  have "distinct (map fst ?c)"
    using chat_results_names [OF assms(1,2)] assms(2) by (simp add: iterates_def)
  then have "state_or_fresh (fst ?s1) n = bs_step (wc_FailThreshold (wd_cfg (fst s))) False (state_or_fresh (fst s) n)"
    using wd.run_once [of ?c n "be_Health b ev" s] chat_results_mem [OF assms(1,2,5), of ev] assms(6)
    by (simp add: check_all_def)
  moreover have "wc_FailThreshold (wd_cfg (fst ?s1)) = wc_FailThreshold (wd_cfg (fst s))"
    unfolding check_all_def by (rule wd.conf_run)
  moreover have "state_or_fresh (fst (check_all ?t ?s1)) n =
      bs_step (wc_FailThreshold (wd_cfg (fst ?s1))) True (state_or_fresh (fst ?s1) n)"
    using wd.run_once [OF distinct_tts_results [OF assms(3,4)] tts_results_mem [OF assms(3,4,7,8), of ev]] assms(9)
    by (simp add: check_all_def)
  ultimately show ?thesis
    using assms(10) by (simp add: probe_def Let_def IsHealthy_state bs_step_def)
qed

theorem shared_name_hides_failure_witness:
  "IsHealthy (fst (probe [''ollama''] [''ollama''] idle_env probe_registry
      (Some (tts_only ''ollama'' (Some (new_error ''down'')))) (NewWatchdog DefaultConfig, no_observed))) ''ollama''"
proof (rule shared_name_hides_failure [OF probe_registry_ok(1,3) tts_only_ok(1,3)])
  show "map_of (rg_backends probe_registry) ''ollama'' = Some (dummy_backend ''ollama'')"
    by (simp add: probe_registry_ok)
  show "bi_TTSBackend ((tts_info ''ollama'' [''ollama''])\<lparr>bi_TTSBackend :=
      Some (dummy_tts ''ollama'' (Some (new_error ''down'')))\<rparr>) = Some (dummy_tts ''ollama'' (Some (new_error ''down'')))"
    by simp
qed (simp_all add: tts_only_ok dummy_tts_def NewWatchdog_def DefaultConfig_def)

section \<open>Starting\<close>

text \<open>
  Starting the watchdog with an interval that is not positive kills the process, and with a
  positive one it does not.
\<close>

theorem Start_crashes_iff:
  "fst (Start visit tvisit ev reg tts s) = ProcessCrashed \<longleftrightarrow> wc_Interval (wd_cfg (fst s)) \<le> 0"
  by (cases s) (simp add: Start_def split: prod.splits)

end
