(* ===== verification/Adapters.thy ===== *)
theory Adapters
  imports Backend
begin

text \<open>
  The adapters of \<open>internal/backend\<close>: \<open>mlx.go\<close>, \<open>ollama.go\<close> and \<open>tts.go\<close>. Every method asks the
  environment to build the request and to carry it out, and turns the reply into a document or an
  error. The streaming loop reads the reply line by line and hands the data of each event to
  the caller's function, whose effect is on the writer of the response.
\<close>

section \<open>Requests and the stream\<close>

definition newHTTPClient :: "int \<Rightarrow> http_client" where
  "newHTTPClient timeout =
     (if timeout \<le> 0 then \<lparr>cl_timeout = 0\<rparr> else \<lparr>cl_timeout = timeout\<rparr>)"

definition get_request :: "string \<Rightarrow> http_request" where
  "get_request url = \<lparr>hq_method = ''GET'', hq_url = url, hq_header = Map.empty, hq_body = []\<rparr>"

definition post_json_request :: "string \<Rightarrow> string \<Rightarrow> http_request" where
  "post_json_request url body =
     \<lparr>hq_method = ''POST'', hq_url = url, hq_header = [''Content-Type'' \<mapsto> ''application/json''], hq_body = body\<rparr>"

definition stream_limit :: nat where
  "stream_limit = 1024 * 1024"

text \<open>
  The scanner's lines of a reply. A last piece without its newline that fills the buffer exactly
  is still a line when the reader knows by then that nothing follows.
\<close>

definition unterminated :: "string \<Rightarrow> bool" where
  "unterminated s \<longleftrightarrow> s \<noteq> [] \<and> last s \<noteq> CHR 0x0A"

definition fits_exactly :: "http_reply \<Rightarrow> bool" where
  "fits_exactly resp \<longleftrightarrow>
     rp_err_early resp \<and> unterminated (rp_body resp) \<and> length (last (raw_lines (rp_body resp))) = stream_limit
     \<and> (\<forall>l \<in> set (butlast (raw_lines (rp_body resp))). length l < stream_limit)"

definition reply_lines :: "http_reply \<Rightarrow> string list" where
  "reply_lines resp =
     (if fits_exactly resp then map drop_cr (raw_lines (rp_body resp)) else scan_lines stream_limit (rp_body resp))"

definition reply_too_long :: "http_reply \<Rightarrow> bool" where
  "reply_too_long resp \<longleftrightarrow> \<not> fits_exactly resp \<and> scan_too_long stream_limit (rp_body resp)"

text \<open>
  The loop over the lines: an error of \<open>send\<close> ends it, the event \<open>[DONE]\<close> ends it with the lines
  that are left, otherwise it runs to the end of the reply.
\<close>

fun forward :: "stream_func \<Rightarrow> string list \<Rightarrow> writer \<Rightarrow> (gerr + string list option) \<times> writer" where
  "forward send [] w = (Inr None, w)"
| "forward send (line # rest) w =
     (if \<not> has_prefix ''data: '' line then forward send rest w
      else let data = trim_prefix ''data: '' line
           in case send data w of
                (Some e, w') \<Rightarrow> (Inl e, w')
              | (None, w') \<Rightarrow> if data = ''[DONE]'' then (Inr (Some rest), w') else forward send rest w')"

text \<open>
  \<open>scanner.Err\<close> after the loop: a read error is known after \<open>[DONE]\<close> only if it came with the bytes
  of that line, or if the line was cut off by it.
\<close>

definition scan_stream :: "http_reply \<Rightarrow> stream_func \<Rightarrow> writer \<Rightarrow> gerr option \<times> writer" where
  "scan_stream resp send w =
     (case forward send (reply_lines resp) w of
        (Inl e, w') \<Rightarrow> (Some e, w')
      | (Inr None, w') \<Rightarrow>
          ((if reply_too_long resp then Some (sentinel_error ErrTooLong) else rp_read_err resp), w')
      | (Inr (Some rest), w') \<Rightarrow>
          ((if rp_err_early resp \<or> rest = [] \<and> \<not> reply_too_long resp \<and> unterminated (rp_body resp)
            then rp_read_err resp else None), w'))"

section \<open>MLX\<close>

record mlx =
  mlx_name :: string
  mlx_baseURL :: string
  mlx_healthClient :: http_client
  mlx_inferenceClient :: http_client

definition NewMLX :: "string \<Rightarrow> string \<Rightarrow> int \<Rightarrow> int \<Rightarrow> mlx" where
  "NewMLX name baseURL healthTimeout inferenceTimeout =
     \<lparr>mlx_name = name, mlx_baseURL = trim_right_slash baseURL,
      mlx_healthClient = newHTTPClient healthTimeout, mlx_inferenceClient = newHTTPClient inferenceTimeout\<rparr>"

definition mlx_Health :: "mlx \<Rightarrow> env \<Rightarrow> gerr option" where
  "mlx_Health m ev =
     (let url = mlx_baseURL m @ ''/v1/models''
      in case ev_new_request ev ''GET'' url of
           Some e \<Rightarrow> Some (context_error ''create health request'' e)
         | None \<Rightarrow>
             (case ev_do ev (mlx_healthClient m) (get_request url) of
                Inl e \<Rightarrow> Some (context_error ''mlx health check'' e)
              | Inr resp \<Rightarrow>
                  if rp_status resp \<noteq> 200
                  then Some (new_error (''mlx health check: status '' @ itoa (rp_status resp)))
                  else None))"

definition mlx_ChatCompletion :: "mlx \<Rightarrow> env \<Rightarrow> chat_request \<Rightarrow> gerr + chat_response" where
  "mlx_ChatCompletion m ev req =
     (let local = req\<lparr>cr_Stream := False\<rparr>; url = mlx_baseURL m @ ''/v1/chat/completions''
      in case ev_enc_chat ev local of
           Inl e \<Rightarrow> Inl (context_error ''marshal chat request'' e)
         | Inr body \<Rightarrow>
             (case ev_new_request ev ''POST'' url of
                Some e \<Rightarrow> Inl (context_error ''create chat request'' e)
              | None \<Rightarrow>
                  (case ev_do ev (mlx_inferenceClient m) (post_json_request url body) of
                     Inl e \<Rightarrow> Inl (context_error ''mlx chat completion'' e)
                   | Inr resp \<Rightarrow>
                       if rp_status resp \<noteq> 200
                       then Inl (new_error (''mlx chat completion: status '' @ itoa (rp_status resp) @ '': '' @ rp_body resp))
                       else (case ev_dec_chat_resp ev (rp_body resp) (rp_read_err resp) of
                               Inl e \<Rightarrow> Inl (context_error ''decode chat response'' e)
                             | Inr result \<Rightarrow> Inr result))))"

definition mlx_ChatCompletionStream ::
  "mlx \<Rightarrow> env \<Rightarrow> chat_request \<Rightarrow> stream_func \<Rightarrow> writer \<Rightarrow> gerr option \<times> writer" where
  "mlx_ChatCompletionStream m ev req send w =
     (let local = req\<lparr>cr_Stream := True\<rparr>; url = mlx_baseURL m @ ''/v1/chat/completions''
      in case ev_enc_chat ev local of
           Inl e \<Rightarrow> (Some (context_error ''marshal chat request'' e), w)
         | Inr body \<Rightarrow>
             (case ev_new_request ev ''POST'' url of
                Some e \<Rightarrow> (Some (context_error ''create stream request'' e), w)
              | None \<Rightarrow>
                  (case ev_do ev \<lparr>cl_timeout = 0\<rparr> (post_json_request url body) of
                     Inl e \<Rightarrow> (Some (context_error ''mlx stream request'' e), w)
                   | Inr resp \<Rightarrow>
                       if rp_status resp \<noteq> 200
                       then (Some (new_error (''mlx stream: status '' @ itoa (rp_status resp) @ '': '' @ rp_body resp)), w)
                       else scan_stream resp send w)))"

definition mlx_ListModels :: "mlx \<Rightarrow> env \<Rightarrow> gerr + models_response" where
  "mlx_ListModels m ev =
     (let url = mlx_baseURL m @ ''/v1/models''
      in case ev_new_request ev ''GET'' url of
           Some e \<Rightarrow> Inl (context_error ''create models request'' e)
         | None \<Rightarrow>
             (case ev_do ev (mlx_healthClient m) (get_request url) of
                Inl e \<Rightarrow> Inl (context_error ''mlx list models'' e)
              | Inr resp \<Rightarrow>
                  if rp_status resp \<noteq> 200
                  then Inl (new_error (''mlx list models: status '' @ itoa (rp_status resp) @ '': '' @ rp_body resp))
                  else (case ev_dec_models_resp ev (rp_body resp) (rp_read_err resp) of
                          Inl e \<Rightarrow> Inl (context_error ''decode models response'' e)
                        | Inr result \<Rightarrow> Inr result)))"

definition mlx_CreateEmbedding :: "mlx \<Rightarrow> env \<Rightarrow> embed_request \<Rightarrow> gerr + embed_response" where
  "mlx_CreateEmbedding m ev req =
     (let url = mlx_baseURL m @ ''/v1/embeddings''
      in case ev_enc_embed ev req of
           Inl e \<Rightarrow> Inl (context_error ''marshal embed request'' e)
         | Inr body \<Rightarrow>
             (case ev_new_request ev ''POST'' url of
                Some e \<Rightarrow> Inl (context_error ''create embed request'' e)
              | None \<Rightarrow>
                  (case ev_do ev (mlx_inferenceClient m) (post_json_request url body) of
                     Inl e \<Rightarrow> Inl (context_error ''mlx create embedding'' e)
                   | Inr resp \<Rightarrow>
                       if rp_status resp \<noteq> 200
                       then Inl (new_error (''mlx create embedding: status '' @ itoa (rp_status resp) @ '': '' @ rp_body resp))
                       else (case ev_dec_embed_resp ev (rp_body resp) (rp_read_err resp) of
                               Inl e \<Rightarrow> Inl (context_error ''decode embed response'' e)
                             | Inr result \<Rightarrow> Inr result))))"

definition mlx_backend :: "mlx \<Rightarrow> backend" where
  "mlx_backend m =
     \<lparr>be_Name = mlx_name m, be_Health = mlx_Health m, be_ChatCompletion = mlx_ChatCompletion m,
      be_ChatCompletionStream = mlx_ChatCompletionStream m, be_ListModels = mlx_ListModels m,
      be_CreateEmbedding = mlx_CreateEmbedding m\<rparr>"

section \<open>Ollama\<close>

record ollama =
  ol_name :: string
  ol_baseURL :: string
  ol_healthClient :: http_client
  ol_inferenceClient :: http_client

definition NewOllama :: "string \<Rightarrow> string \<Rightarrow> int \<Rightarrow> int \<Rightarrow> ollama" where
  "NewOllama name baseURL healthTimeout inferenceTimeout =
     \<lparr>ol_name = name, ol_baseURL = trim_right_slash baseURL,
      ol_healthClient = newHTTPClient healthTimeout, ol_inferenceClient = newHTTPClient inferenceTimeout\<rparr>"

definition ol_Health :: "ollama \<Rightarrow> env \<Rightarrow> gerr option" where
  "ol_Health m ev =
     (let url = ol_baseURL m @ ''/api/tags''
      in case ev_new_request ev ''GET'' url of
           Some e \<Rightarrow> Some (context_error ''create health request'' e)
         | None \<Rightarrow>
             (case ev_do ev (ol_healthClient m) (get_request url) of
                Inl e \<Rightarrow> Some (context_error ''ollama health check'' e)
              | Inr resp \<Rightarrow>
                  if rp_status resp \<noteq> 200
                  then Some (new_error (''ollama health check: status '' @ itoa (rp_status resp)))
                  else None))"

definition ol_ChatCompletion :: "ollama \<Rightarrow> env \<Rightarrow> chat_request \<Rightarrow> gerr + chat_response" where
  "ol_ChatCompletion m ev req =
     (let local = req\<lparr>cr_Stream := False\<rparr>; url = ol_baseURL m @ ''/v1/chat/completions''
      in case ev_enc_chat ev local of
           Inl e \<Rightarrow> Inl (context_error ''marshal chat request'' e)
         | Inr body \<Rightarrow>
             (case ev_new_request ev ''POST'' url of
                Some e \<Rightarrow> Inl (context_error ''create chat request'' e)
              | None \<Rightarrow>
                  (case ev_do ev (ol_inferenceClient m) (post_json_request url body) of
                     Inl e \<Rightarrow> Inl (context_error ''ollama chat completion'' e)
                   | Inr resp \<Rightarrow>
                       if rp_status resp \<noteq> 200
                       then Inl (new_error (''ollama chat completion: status '' @ itoa (rp_status resp) @ '': '' @ rp_body resp))
                       else (case ev_dec_chat_resp ev (rp_body resp) (rp_read_err resp) of
                               Inl e \<Rightarrow> Inl (context_error ''decode chat response'' e)
                             | Inr result \<Rightarrow> Inr result))))"

definition ol_ChatCompletionStream ::
  "ollama \<Rightarrow> env \<Rightarrow> chat_request \<Rightarrow> stream_func \<Rightarrow> writer \<Rightarrow> gerr option \<times> writer" where
  "ol_ChatCompletionStream m ev req send w =
     (let local = req\<lparr>cr_Stream := True\<rparr>; url = ol_baseURL m @ ''/v1/chat/completions''
      in case ev_enc_chat ev local of
           Inl e \<Rightarrow> (Some (context_error ''marshal chat request'' e), w)
         | Inr body \<Rightarrow>
             (case ev_new_request ev ''POST'' url of
                Some e \<Rightarrow> (Some (context_error ''create stream request'' e), w)
              | None \<Rightarrow>
                  (case ev_do ev \<lparr>cl_timeout = 0\<rparr> (post_json_request url body) of
                     Inl e \<Rightarrow> (Some (context_error ''ollama stream request'' e), w)
                   | Inr resp \<Rightarrow>
                       if rp_status resp \<noteq> 200
                       then (Some (new_error (''ollama stream: status '' @ itoa (rp_status resp) @ '': '' @ rp_body resp)), w)
                       else scan_stream resp send w)))"

definition ol_ListModels :: "ollama \<Rightarrow> env \<Rightarrow> gerr + models_response" where
  "ol_ListModels m ev =
     (let url = ol_baseURL m @ ''/v1/models''
      in case ev_new_request ev ''GET'' url of
           Some e \<Rightarrow> Inl (context_error ''create models request'' e)
         | None \<Rightarrow>
             (case ev_do ev (ol_healthClient m) (get_request url) of
                Inl e \<Rightarrow> Inl (context_error ''ollama list models'' e)
              | Inr resp \<Rightarrow>
                  if rp_status resp \<noteq> 200
                  then Inl (new_error (''ollama list models: status '' @ itoa (rp_status resp) @ '': '' @ rp_body resp))
                  else (case ev_dec_models_resp ev (rp_body resp) (rp_read_err resp) of
                          Inl e \<Rightarrow> Inl (context_error ''decode models response'' e)
                        | Inr result \<Rightarrow> Inr result)))"

definition ol_CreateEmbedding :: "ollama \<Rightarrow> env \<Rightarrow> embed_request \<Rightarrow> gerr + embed_response" where
  "ol_CreateEmbedding m ev req =
     (let url = ol_baseURL m @ ''/v1/embeddings''
      in case ev_enc_embed ev req of
           Inl e \<Rightarrow> Inl (context_error ''marshal embed request'' e)
         | Inr body \<Rightarrow>
             (case ev_new_request ev ''POST'' url of
                Some e \<Rightarrow> Inl (context_error ''create embed request'' e)
              | None \<Rightarrow>
                  (case ev_do ev (ol_inferenceClient m) (post_json_request url body) of
                     Inl e \<Rightarrow> Inl (context_error ''ollama create embedding'' e)
                   | Inr resp \<Rightarrow>
                       if rp_status resp \<noteq> 200
                       then Inl (new_error (''ollama create embedding: status '' @ itoa (rp_status resp) @ '': '' @ rp_body resp))
                       else (case ev_dec_embed_resp ev (rp_body resp) (rp_read_err resp) of
                               Inl e \<Rightarrow> Inl (context_error ''decode embed response'' e)
                             | Inr result \<Rightarrow> Inr result))))"

definition ol_backend :: "ollama \<Rightarrow> backend" where
  "ol_backend m =
     \<lparr>be_Name = ol_name m, be_Health = ol_Health m, be_ChatCompletion = ol_ChatCompletion m,
      be_ChatCompletionStream = ol_ChatCompletionStream m, be_ListModels = ol_ListModels m,
      be_CreateEmbedding = ol_CreateEmbedding m\<rparr>"

section \<open>TTSHTTP\<close>

record tts_http =
  th_name :: string
  th_baseURL :: string
  th_client :: http_client

definition NewTTSHTTP :: "string \<Rightarrow> string \<Rightarrow> int \<Rightarrow> tts_http" where
  "NewTTSHTTP name baseURL timeout =
     \<lparr>th_name = name, th_baseURL = trim_right_slash baseURL, th_client = \<lparr>cl_timeout = timeout\<rparr>\<rparr>"

definition th_Health :: "tts_http \<Rightarrow> env \<Rightarrow> gerr option" where
  "th_Health t ev =
     (let url = th_baseURL t @ ''/health''
      in case ev_new_request ev ''GET'' url of
           Some e \<Rightarrow> Some (context_error ''create tts health request'' e)
         | None \<Rightarrow>
             (case ev_do ev (th_client t) (get_request url) of
                Inl e \<Rightarrow> Some (context_error ''tts health check'' e)
              | Inr resp \<Rightarrow>
                  if rp_status resp \<noteq> 200
                  then Some (new_error (''tts health check: status '' @ itoa (rp_status resp)))
                  else None))"

definition mimeTypeForFormat :: "string \<Rightarrow> string" where
  "mimeTypeForFormat format =
     (let f = to_lower format
      in if f = ''mp3'' then ''audio/mpeg''
         else if f = ''opus'' then ''audio/opus''
         else if f = ''flac'' then ''audio/flac''
         else if f = ''wav'' then ''audio/wav''
         else if f = ''pcm'' then ''audio/L16''
         else ''audio/wav'')"

definition with_tts_defaults :: "tts_request \<Rightarrow> tts_request" where
  "with_tts_defaults req =
     (let r1 = (if tr_ResponseFormat req = [] then req\<lparr>tr_ResponseFormat := ''wav''\<rparr> else req);
          r2 = (if fle (tr_Speed r1) (Fin 0) then r1\<lparr>tr_Speed := Fin 1\<rparr> else r1)
      in if tr_Voice r2 = [] then r2\<lparr>tr_Voice := ''default''\<rparr> else r2)"

definition th_Synthesize :: "tts_http \<Rightarrow> env \<Rightarrow> tts_request \<Rightarrow> gerr + tts_response" where
  "th_Synthesize t ev req =
     (let local = with_tts_defaults req; url = th_baseURL t @ ''/v1/audio/speech''
      in case ev_enc_tts ev local of
           Inl e \<Rightarrow> Inl (context_error ''marshal tts request'' e)
         | Inr body \<Rightarrow>
             (case ev_new_request ev ''POST'' url of
                Some e \<Rightarrow> Inl (context_error ''create tts request'' e)
              | None \<Rightarrow>
                  (case ev_do ev (th_client t) (post_json_request url body) of
                     Inl e \<Rightarrow> Inl (context_error ''tts synthesize'' e)
                   | Inr resp \<Rightarrow>
                       if rp_status resp \<noteq> 200
                       then Inl (new_error (''tts synthesize: status '' @ itoa (rp_status resp) @ '': '' @ rp_body resp))
                       else (case rp_read_err resp of
                               Some e \<Rightarrow> Inl (context_error ''read tts audio'' e)
                             | None \<Rightarrow>
                                 let sent = get_or_empty (rp_header resp) ''Content-Type''
                                 in Inr \<lparr>tp_Audio = rp_body resp,
                                         tp_Format = (if sent = [] then mimeTypeForFormat (tr_ResponseFormat req) else sent),
                                         tp_DurationMs = 0\<rparr>))))"

definition th_Voices :: "tts_http \<Rightarrow> env \<Rightarrow> gerr + voice list" where
  "th_Voices t ev =
     (let url = th_baseURL t @ ''/v1/models''
      in case ev_new_request ev ''GET'' url of
           Some e \<Rightarrow> Inl (context_error ''create voices request'' e)
         | None \<Rightarrow>
             (case ev_do ev (th_client t) (get_request url) of
                Inl e \<Rightarrow> Inl (context_error ''tts list models'' e)
              | Inr resp \<Rightarrow>
                  if rp_status resp \<noteq> 200
                  then Inl (new_error (''tts list models: status '' @ itoa (rp_status resp) @ '': '' @ rp_body resp))
                  else (case ev_dec_models_resp ev (rp_body resp) (rp_read_err resp) of
                          Inl e \<Rightarrow> Inl (context_error ''decode models response'' e)
                        | Inr r \<Rightarrow>
                            Inr (map (\<lambda>m. \<lparr>vc_ID = md_ID m, vc_Name = md_ID m, vc_Gender = [], vc_Language = []\<rparr>)
                                   (mr_Data r)))))"

definition tts_http_backend :: "tts_http \<Rightarrow> tts_backend" where
  "tts_http_backend t =
     \<lparr>tb_Name = th_name t, tb_Health = th_Health t, tb_Synthesize = th_Synthesize t, tb_Voices = th_Voices t\<rparr>"

end
