(* ===== verification/Upstream.thy ===== *)
theory Upstream
  imports Adapters
begin

text \<open>
  The contract between the adapters and the classification of their errors. Every call of an
  adapter that yields a document (chat, models and embeddings of the two chat adapters, speech
  and voices of the TTS adapter) prepares a request, has it carried out, reports a status other
  than 200 in a message of one form, and decodes the body otherwise. What the client is told
  when such a call fails follows from that contract alone.
\<close>

section \<open>Words in a message\<close>

lemma contains_Nil [simp]: "contains s []"
  by (cases s) (auto simp: contains_def)

lemma contains_split_at:
  assumes "c \<notin> set p"
  shows "contains (a @ c # b) p \<longleftrightarrow> contains a p \<or> contains b p"
proof
  assume "contains (a @ c # b) p"
  then obtain x y where eq: "a @ c # b = x @ p @ y" by (auto simp: contains_iff)
  then consider us where "a = x @ us" "us @ c # b = p @ y" | us where "x = a @ us" "c # b = us @ p @ y"
    by (auto simp: append_eq_append_conv2)
  then show "contains a p \<or> contains b p"
  proof cases
    case 1
    then consider vs where "us = p @ vs" | vs where "p = us @ vs" "c # b = vs @ y"
      by (auto simp: append_eq_append_conv2)
    then show ?thesis
    proof cases
      case (1 vs)
      with \<open>a = x @ us\<close> show ?thesis by (auto simp: contains_iff)
    next
      case (2 vs)
      with assms have "vs = []" by (cases vs) auto
      with 2 \<open>a = x @ us\<close> have "a = x @ p @ []" by simp
      then show ?thesis unfolding contains_iff by blast
    qed
  next
    case 2
    then show ?thesis using assms by (cases us; cases p) (auto simp: contains_iff)
  qed
next
  assume "contains a p \<or> contains b p"
  then show "contains (a @ c # b) p"
    using contains_append [of a p "[]" "c # b"] contains_append [of b p "a @ [c]" "[]"] by auto
qed

lemma contains_chars: "contains s p \<Longrightarrow> set p \<subseteq> set s"
  by (auto simp: contains_iff)

lemma to_lower_append_ascii: "is_ascii a \<Longrightarrow> to_lower (a @ s) = map lower_char a @ to_lower s"
  by (induction a) (auto simp: is_ascii_def)

definition mentions :: "string list \<Rightarrow> string \<Rightarrow> bool" where
  "mentions ws s \<longleftrightarrow> (\<exists>w \<in> set ws. contains s w)"

definition timeout_words :: "string list" where
  "timeout_words =
     [''client.timeout exceeded'', ''context deadline exceeded'', ''i/o timeout'',
      ''timeout awaiting response headers'']"

definition unavailable_words :: "string list" where
  "unavailable_words =
     [''connection refused'', ''no such host'', ''network is unreachable'', ''connection reset'', ''dial tcp'']"

definition overload_words :: "string list" where
  "overload_words = [''server busy'', ''too many requests'', ''overloaded'', ''rate limit'']"

lemma isClientTimeout_mentions: "isClientTimeout e \<longleftrightarrow> mentions timeout_words (to_lower (err_msg e))"
  by (simp add: isClientTimeout_def mentions_def timeout_words_def Let_def)

lemma isOverload_mentions: "isOverloadMessage m \<longleftrightarrow> mentions overload_words (to_lower m)"
  by (simp add: isOverloadMessage_def mentions_def overload_words_def Let_def)

lemma isConnectionUnavailable_mentions:
  "isConnectionUnavailable (new_error m) \<longleftrightarrow> mentions unavailable_words (to_lower m)"
  by (simp add: isConnectionUnavailable_def mentions_def unavailable_words_def Let_def)

section \<open>Status reports\<close>

definition report :: "string \<Rightarrow> int \<Rightarrow> string \<Rightarrow> string" where
  "report label n body = label @ '': status '' @ itoa n @ '': '' @ body"

text \<open>
  A word that the classification looks for never starts with a space, holds no colon, and is not
  written with the letters of \<open>status\<close> and digits alone.
\<close>

definition status_chars :: string where
  "status_chars = '' status 0123456789''"

definition word_ok :: "string \<Rightarrow> bool" where
  "word_ok w \<longleftrightarrow>
     w \<noteq> [] \<and> hd w \<noteq> CHR '' '' \<and> CHR '':'' \<notin> set w \<and> (\<exists>c \<in> set w. c \<notin> set status_chars)"

lemma words_ok:
  "\<forall>w \<in> set timeout_words. word_ok w"
  "\<forall>w \<in> set unavailable_words. word_ok w"
  "\<forall>w \<in> set overload_words. word_ok w"
  by (simp_all add: word_ok_def status_chars_def timeout_words_def unavailable_words_def overload_words_def)

definition label_ok :: "string \<Rightarrow> bool" where
  "label_ok label \<longleftrightarrow>
     is_ascii label
     \<and> \<not> mentions (timeout_words @ unavailable_words @ overload_words) (map lower_char label)
     \<and> index_of ''status '' (label @ '': '' @ ''status '') = Some (length label + 2)"

lemma itoa_bytes: "0 \<le> n \<Longrightarrow> c \<in> set (itoa n) \<Longrightarrow> 48 \<le> (of_char c :: nat) \<and> (of_char c :: nat) \<le> 57"
  by (auto simp: itoa_def is_digit_def dest: itoa_nat_digits)

lemma itoa_digits:
  assumes "0 \<le> n" "c \<in> set (itoa n)"
  shows "c \<in> set ''0123456789''"
proof -
  have "(of_char c :: nat) \<in> {48..<58}" using itoa_bytes [OF assms] by (simp add: less_Suc_eq_le)
  then have "(of_char c :: nat) \<in> set [48..<58]" by (simp only: set_upt)
  then have "char_of (of_char c :: nat) \<in> set (map char_of [48..<58 :: nat])"
    unfolding set_map by (rule imageI)
  moreover have "map char_of [48..<58 :: nat] = ''0123456789''" by code_simp
  ultimately show ?thesis by (simp only: char_of_char)
qed

lemma ascii_digits: "0 \<le> n \<Longrightarrow> is_ascii (itoa n) \<and> map lower_char (itoa n) = itoa n"
  using itoa_bytes [of n] by (force simp: is_ascii_def lower_char_def intro!: map_idI)

lemma ascii_frame:
  "is_ascii '': status ''" "is_ascii '': ''"
  "map lower_char '': status '' = '': status ''" "map lower_char '': '' = '': ''"
  by (simp_all add: is_ascii_def lower_char_def)

lemma is_ascii_append [simp]: "is_ascii (a @ b) \<longleftrightarrow> is_ascii a \<and> is_ascii b"
  by (auto simp: is_ascii_def)

lemma lower_report:
  assumes "is_ascii label" "0 \<le> n"
  shows "to_lower (report label n body) =
           map lower_char label @ CHR '':'' # ('' status '' @ itoa n) @ CHR '':'' # CHR '' '' # to_lower body"
proof -
  have d: "is_ascii (itoa n)" "map lower_char (itoa n) = itoa n" using ascii_digits [OF assms(2)] by auto
  have "is_ascii (label @ '': status '' @ itoa n @ '': '')"
    unfolding is_ascii_append using assms(1) d(1) ascii_frame(1,2) by blast
  from to_lower_append_ascii [OF this, of body]
  have "to_lower (report label n body) =
      map lower_char label @ '': status '' @ itoa n @ '': '' @ to_lower body"
    by (simp only: report_def map_append ascii_frame d append_assoc)
  then show ?thesis by simp
qed

lemma status_part:
  assumes "0 \<le> n"
  shows "set ('' status '' @ itoa n) \<subseteq> set status_chars"
proof -
  have "set ''0123456789'' \<subseteq> set status_chars" "set '' status '' \<subseteq> set status_chars"
    by (simp_all add: status_chars_def)
  moreover have "set (itoa n) \<subseteq> set ''0123456789''" using itoa_digits [OF assms] by blast
  ultimately show ?thesis unfolding set_append by blast
qed

lemma contains_report:
  assumes w: "word_ok w" and label: "is_ascii label" "\<not> contains (map lower_char label) w" and n: "0 \<le> n"
  shows "contains (to_lower (report label n body)) w \<longleftrightarrow> contains (to_lower body) w"
proof -
  have colon: "CHR '':'' \<notin> set w" using w by (simp add: word_ok_def)
  have none: "\<not> contains ('' status '' @ itoa n) w"
    using w contains_chars [of "'' status '' @ itoa n" w] status_part [OF n] unfolding word_ok_def by blast
  have "\<not> has_prefix w (CHR '' '' # to_lower body)"
    using w by (cases w) (auto simp: word_ok_def has_prefix_def)
  then have "contains (CHR '' '' # to_lower body) w \<longleftrightarrow> contains (to_lower body) w"
    unfolding contains_Cons by blast
  with none label(2) show ?thesis
    unfolding lower_report [OF label(1) n] contains_split_at [OF colon] by blast
qed

lemma mentions_report:
  assumes "\<forall>w \<in> set ws. word_ok w" "is_ascii label" "\<not> mentions ws (map lower_char label)" "0 \<le> n"
  shows "mentions ws (to_lower (report label n body)) \<longleftrightarrow> mentions ws (to_lower body)"
  using assms contains_report [of _ label n body] by (auto simp: mentions_def)

lemma mentions_append [simp]: "mentions (ws @ vs) s \<longleftrightarrow> mentions ws s \<or> mentions vs s"
  by (auto simp: mentions_def)

text \<open>The error that a client is shown for a status report.\<close>

definition classify_report :: "string \<Rightarrow> int \<Rightarrow> string \<Rightarrow> api_error" where
  "classify_report b n body =
     (let text = to_lower body
      in if mentions timeout_words text then BackendTimeout b
         else if mentions unavailable_words text then BackendUnavailable b
         else if n \<in> {429, 502, 503} then BackendOverloaded b
         else if n = 504 then BackendTimeout b
         else if mentions overload_words text then BackendOverloaded b
         else BackendUnavailable b)"

lemma report_classified:
  assumes label: "label_ok label" and n: "0 \<le> n" "in_int64 n"
  shows "FromBackendError b (Some (new_error (report label n body))) = Some (classify_report b n body)"
proof -
  let ?e = "new_error (report label n body)"
  have l: "is_ascii label" "\<not> mentions timeout_words (map lower_char label)"
    "\<not> mentions unavailable_words (map lower_char label)" "\<not> mentions overload_words (map lower_char label)"
    using label by (auto simp: label_ok_def)
  note same = words_ok [THEN mentions_report, OF l(1)]
  have "upstreamHTTPStatus ?e = Some n"
    by (rule upstreamHTTPStatus_report [of _ "label @ '': ''" n body])
      (use label n in \<open>auto simp: report_def label_ok_def\<close>)
  then show ?thesis
    using same(1) [OF l(2) n(1), of body] same(2) [OF l(3) n(1), of body] same(3) [OF l(4) n(1), of body]
    by (simp add: FromBackendError_def classify_report_def Let_def isClientTimeout_mentions
        isConnectionUnavailable_mentions isOverload_mentions)
qed

section \<open>Labels in front of an error\<close>

lemma has_prefix_split: "x \<notin> set p \<Longrightarrow> has_prefix p (a @ x # s) \<Longrightarrow> has_prefix p a"
  by (fastforce simp: has_prefix_iff append_eq_append_conv2 Cons_eq_append_conv)

lemma index_of_after:
  assumes "p \<noteq> []" "x \<notin> set p"
  shows "\<not> contains a p \<Longrightarrow> index_of p (a @ x # s) = map_option (\<lambda>i. Suc (length a) + i) (index_of p s)"
proof (induction a)
  case Nil
  have "\<not> has_prefix p (x # s)" using assms by (cases p) (auto simp: has_prefix_def)
  then show ?case by (simp add: option.map_comp comp_def)
next
  case (Cons c a)
  then have "\<not> has_prefix p (c # a @ x # s)" "\<not> contains a p"
    using has_prefix_split [OF assms(2), of "c # a" s] by (auto simp: contains_Cons)
  with Cons.IH show ?case by (simp add: option.map_comp comp_def)
qed

lemma index_of_label:
  assumes "\<not> contains label p" "p \<noteq> []" "CHR '':'' \<notin> set p" "hd p \<noteq> CHR '' ''"
  shows "index_of p (label @ '': '' @ m) = map_option (\<lambda>i. length label + 2 + i) (index_of p m)"
proof -
  have "\<not> has_prefix p (CHR '' '' # m)" using assms by (cases p) (auto simp: has_prefix_def)
  then show ?thesis
    using index_of_after [OF assms(2,3,1), of "CHR '' '' # m"] by (simp add: option.map_comp comp_def)
qed

lemma upstreamHTTPStatus_label:
  assumes "\<not> contains label ''status ''"
  shows "upstreamHTTPStatus (context_error label e) = upstreamHTTPStatus e"
proof -
  have idx: "index_of ''status '' (label @ '': '' @ err_msg e) =
      map_option (\<lambda>i. length label + 2 + i) (index_of ''status '' (err_msg e))"
    by (rule index_of_label) (use assms in simp_all)
  have d: "drop (length label + 2 + i + length ''status '') (label @ '': '' @ m) = drop (i + length ''status '') m" for i m
  proof -
    have "drop (length (label @ '': '') + (i + length ''status '')) ((label @ '': '') @ m) = drop (i + length ''status '') m"
      by (simp only: drop_append length_append) (simp only: diff_add_inverse drop_all le_add1 append_Nil length_append)
    moreover have "length (label @ '': '') + (i + length ''status '') = length label + 2 + i + length ''status ''" by simp
    ultimately show ?thesis by (simp only: append_assoc)
  qed
  show ?thesis
  proof (cases "index_of ''status '' (err_msg e)")
    case None
    with idx show ?thesis by (simp add: upstreamHTTPStatus_def)
  next
    case (Some i)
    then show ?thesis
      unfolding upstreamHTTPStatus_def Let_def context_error_simps idx option.map option.case d Some by simp
  qed
qed

lemma contains_label:
  assumes "word_ok w" "\<not> contains (map lower_char label) w" "is_ascii label"
  shows "contains (to_lower (label @ '': '' @ m)) w \<longleftrightarrow> contains (to_lower m) w"
proof -
  have low: "to_lower (label @ '': '' @ m) = map lower_char label @ CHR '':'' # CHR '' '' # to_lower m"
    using to_lower_append_ascii [of "label @ '': ''" m] assms(3)
    by (simp only: is_ascii_append ascii_frame map_append append_assoc) simp
  have colon: "CHR '':'' \<notin> set w" using assms(1) by (simp add: word_ok_def)
  have "\<not> has_prefix w (CHR '' '' # to_lower m)"
    using assms(1) by (cases w) (auto simp: word_ok_def has_prefix_def)
  with assms(2) show ?thesis unfolding low contains_split_at [OF colon] contains_Cons by blast
qed

lemma mentions_label:
  assumes "\<forall>w \<in> set ws. word_ok w" "is_ascii label" "\<not> mentions ws (map lower_char label)"
  shows "mentions ws (to_lower (label @ '': '' @ m)) \<longleftrightarrow> mentions ws (to_lower m)"
  using assms contains_label [of _ label m] by (auto simp: mentions_def)

text \<open>The label an adapter puts in front of a transport error does not change what the client is told.\<close>

lemma label_transparent:
  assumes "label_ok label"
  shows "FromBackendError b (Some (context_error label e)) = FromBackendError b (Some e)"
proof -
  have l: "is_ascii label" "\<not> mentions timeout_words (map lower_char label)"
    "\<not> mentions unavailable_words (map lower_char label)" "\<not> mentions overload_words (map lower_char label)"
    using assms by (auto simp: label_ok_def)
  have "\<not> contains label ''status ''"
  proof
    assume "contains label ''status ''"
    then obtain i where i: "index_of ''status '' label = Some i" by (auto simp: contains_def)
    then have "index_of ''status '' (label @ '': '' @ ''status '') = Some i" "i < length label"
      using index_of_append [of _ label] index_of_Some [OF i] by auto
    with assms show False by (simp add: label_ok_def)
  qed
  note status = upstreamHTTPStatus_label [OF this, of e]
  note same = words_ok [THEN mentions_label, OF l(1)]
  have conn: "isConnectionUnavailable (context_error label e) = isConnectionUnavailable e"
    using same(2) [OF l(3), of "err_msg e"]
    by (simp add: isConnectionUnavailable_def mentions_def unavailable_words_def Let_def)
  have "isClientTimeout (context_error label e) = isClientTimeout e"
    using same(1) [OF l(2), of "err_msg e"] by (simp add: isClientTimeout_mentions)
  with status conn same(3) [OF l(4), of "err_msg e"] show ?thesis
    by (simp add: FromBackendError_def Let_def isOverload_mentions)
qed

text \<open>What the client gets to see of the outcome of a call.\<close>

definition shown :: "string \<Rightarrow> gerr + 'a \<Rightarrow> api_error option + 'a" where
  "shown name r = (case r of Inl e \<Rightarrow> Inl (FromBackendError name (Some e)) | Inr d \<Rightarrow> Inr d)"

lemma report_transparent:
  assumes "label_ok label"
  shows "FromBackendError b (Some (new_error (report label n body))) =
           FromBackendError b (Some (new_error (''status '' @ itoa n @ '': '' @ body)))"
proof -
  let ?m = "''status '' @ itoa n @ '': '' @ body"
  have "FromBackendError b (Some (new_error (report label n body))) =
      FromBackendError b (Some (context_error label (new_error ?m)))"
    by (simp add: FromBackendError_def report_def isClientTimeout_def isConnectionUnavailable_def
        upstreamHTTPStatus_def)
  with label_transparent [OF assms] show ?thesis by simp
qed

section \<open>The contract of a call\<close>

locale upstream_call =
  fixes call :: "env \<Rightarrow> gerr + 'a"
    and prepare :: "env \<Rightarrow> gerr + http_client \<times> http_request"
    and decode :: "env \<Rightarrow> http_reply \<Rightarrow> gerr + 'a"
    and label :: string
  assumes label: "label_ok label"
    and prepare_fails: "prepare ev = Inl e \<Longrightarrow> call ev = Inl e"
    and transport_fails:
      "prepare ev = Inr (cl, rq) \<Longrightarrow> ev_do ev cl rq = Inl e \<Longrightarrow> call ev = Inl (context_error label e)"
    and bad_status:
      "prepare ev = Inr (cl, rq) \<Longrightarrow> ev_do ev cl rq = Inr resp \<Longrightarrow> rp_status resp \<noteq> 200 \<Longrightarrow>
       call ev = Inl (new_error (report label (rp_status resp) (rp_body resp)))"
    and good_status:
      "prepare ev = Inr (cl, rq) \<Longrightarrow> ev_do ev cl rq = Inr resp \<Longrightarrow> rp_status resp = 200 \<Longrightarrow>
       call ev = decode ev resp"
begin

lemma call_ok_iff:
  "call ev = Inr result \<longleftrightarrow>
     (\<exists>cl rq resp. prepare ev = Inr (cl, rq) \<and> ev_do ev cl rq = Inr resp \<and> rp_status resp = 200
        \<and> decode ev resp = Inr result)"
proof (cases "prepare ev")
  case (Inl e)
  then show ?thesis using prepare_fails by simp
next
  case (Inr p)
  obtain cl rq where p: "prepare ev = Inr (cl, rq)" using Inr by (cases p) auto
  show ?thesis
  proof (cases "ev_do ev cl rq")
    case (Inl e)
    with transport_fails [OF p] p show ?thesis by simp
  next
    case (Inr resp)
    with bad_status [OF p] good_status [OF p] p show ?thesis by (cases "rp_status resp = 200") auto
  qed
qed

text \<open>What the client is shown for a reply that is not a success, and for a transport failure.\<close>

lemma reply_classified:
  assumes "prepare ev = Inr (cl, rq)" "ev_do ev cl rq = Inr resp" "rp_status resp \<noteq> 200"
    and "0 \<le> rp_status resp" "in_int64 (rp_status resp)"
  shows "\<exists>e. call ev = Inl e
           \<and> FromBackendError b (Some e) = Some (classify_report b (rp_status resp) (rp_body resp))"
  using bad_status [OF assms(1-3)] report_classified [OF label assms(4,5)] by auto

lemma deadline_classified:
  assumes "prepare ev = Inr (cl, rq)" "ev_do ev cl rq = Inl e" "err_is DeadlineExceeded e"
  shows "\<exists>e'. call ev = Inl e' \<and> FromBackendError b (Some e') = Some (BackendTimeout b)"
  using transport_fails [OF assms(1,2)] assms(3) by (auto simp: FromBackendError_def)

text \<open>The outcome as the client sees it does not depend on the label.\<close>

lemma shown_call:
  "shown b (call ev) =
     (case prepare ev of
        Inl e \<Rightarrow> Inl (FromBackendError b (Some e))
      | Inr (cl, rq) \<Rightarrow>
          (case ev_do ev cl rq of
             Inl e \<Rightarrow> Inl (FromBackendError b (Some e))
           | Inr resp \<Rightarrow>
               if rp_status resp \<noteq> 200
               then Inl (FromBackendError b
                      (Some (new_error (''status '' @ itoa (rp_status resp) @ '': '' @ rp_body resp))))
               else shown b (decode ev resp)))"
  using prepare_fails transport_fails bad_status good_status label_transparent [OF label] report_transparent [OF label]
  by (auto simp: shown_def split: sum.split prod.split)

end

section \<open>The calls of the adapters\<close>

definition prepare_post ::
  "string \<Rightarrow> string \<Rightarrow> (env \<Rightarrow> gerr + string) \<Rightarrow> http_client \<Rightarrow> string \<Rightarrow> env \<Rightarrow> gerr + http_client \<times> http_request" where
  "prepare_post what create enc cl url ev =
     (case enc ev of
        Inl e \<Rightarrow> Inl (context_error what e)
      | Inr body \<Rightarrow>
          (case ev_new_request ev ''POST'' url of
             Some e \<Rightarrow> Inl (context_error create e)
           | None \<Rightarrow> Inr (cl, post_json_request url body)))"

definition prepare_get :: "string \<Rightarrow> http_client \<Rightarrow> string \<Rightarrow> env \<Rightarrow> gerr + http_client \<times> http_request" where
  "prepare_get create cl url ev =
     (case ev_new_request ev ''GET'' url of
        Some e \<Rightarrow> Inl (context_error create e)
      | None \<Rightarrow> Inr (cl, get_request url))"

definition decoded :: "string \<Rightarrow> (string \<Rightarrow> gerr option \<Rightarrow> gerr + 'a) \<Rightarrow> http_reply \<Rightarrow> gerr + 'a" where
  "decoded what dec resp =
     (case dec (rp_body resp) (rp_read_err resp) of Inl e \<Rightarrow> Inl (context_error what e) | Inr r \<Rightarrow> Inr r)"

lemmas call_defs = prepare_post_def prepare_get_def decoded_def report_def

lemma labels_ok:
  "label_ok ''mlx chat completion''" "label_ok ''mlx list models''" "label_ok ''mlx create embedding''"
  "label_ok ''ollama chat completion''" "label_ok ''ollama list models''" "label_ok ''ollama create embedding''"
  "label_ok ''tts synthesize''" "label_ok ''tts list models''"
  by code_simp+

interpretation mlx_chat: upstream_call "\<lambda>ev. mlx_ChatCompletion m ev req"
  "prepare_post ''marshal chat request'' ''create chat request'' (\<lambda>ev. ev_enc_chat ev (req\<lparr>cr_Stream := False\<rparr>))
     (mlx_inferenceClient m) (mlx_baseURL m @ ''/v1/chat/completions'')"
  "\<lambda>ev. decoded ''decode chat response'' (ev_dec_chat_resp ev)" "''mlx chat completion''" for m req
  by unfold_locales
    (auto simp: labels_ok mlx_ChatCompletion_def call_defs Let_def split: sum.splits option.splits)

interpretation mlx_embed: upstream_call "\<lambda>ev. mlx_CreateEmbedding m ev req"
  "prepare_post ''marshal embed request'' ''create embed request'' (\<lambda>ev. ev_enc_embed ev req)
     (mlx_inferenceClient m) (mlx_baseURL m @ ''/v1/embeddings'')"
  "\<lambda>ev. decoded ''decode embed response'' (ev_dec_embed_resp ev)" "''mlx create embedding''" for m req
  by unfold_locales
    (auto simp: labels_ok mlx_CreateEmbedding_def call_defs Let_def split: sum.splits option.splits)

interpretation mlx_models: upstream_call "mlx_ListModels m"
  "prepare_get ''create models request'' (mlx_healthClient m) (mlx_baseURL m @ ''/v1/models'')"
  "\<lambda>ev. decoded ''decode models response'' (ev_dec_models_resp ev)" "''mlx list models''" for m
  by unfold_locales
    (auto simp: labels_ok mlx_ListModels_def call_defs Let_def split: sum.splits option.splits)

interpretation ol_chat: upstream_call "\<lambda>ev. ol_ChatCompletion m ev req"
  "prepare_post ''marshal chat request'' ''create chat request'' (\<lambda>ev. ev_enc_chat ev (req\<lparr>cr_Stream := False\<rparr>))
     (ol_inferenceClient m) (ol_baseURL m @ ''/v1/chat/completions'')"
  "\<lambda>ev. decoded ''decode chat response'' (ev_dec_chat_resp ev)" "''ollama chat completion''" for m req
  by unfold_locales
    (auto simp: labels_ok ol_ChatCompletion_def call_defs Let_def split: sum.splits option.splits)

interpretation ol_embed: upstream_call "\<lambda>ev. ol_CreateEmbedding m ev req"
  "prepare_post ''marshal embed request'' ''create embed request'' (\<lambda>ev. ev_enc_embed ev req)
     (ol_inferenceClient m) (ol_baseURL m @ ''/v1/embeddings'')"
  "\<lambda>ev. decoded ''decode embed response'' (ev_dec_embed_resp ev)" "''ollama create embedding''" for m req
  by unfold_locales
    (auto simp: labels_ok ol_CreateEmbedding_def call_defs Let_def split: sum.splits option.splits)

interpretation ol_models: upstream_call "ol_ListModels m"
  "prepare_get ''create models request'' (ol_healthClient m) (ol_baseURL m @ ''/v1/models'')"
  "\<lambda>ev. decoded ''decode models response'' (ev_dec_models_resp ev)" "''ollama list models''" for m
  by unfold_locales
    (auto simp: labels_ok ol_ListModels_def call_defs Let_def split: sum.splits option.splits)

definition speech_of :: "tts_request \<Rightarrow> http_reply \<Rightarrow> gerr + tts_response" where
  "speech_of req resp =
     (case rp_read_err resp of
        Some e \<Rightarrow> Inl (context_error ''read tts audio'' e)
      | None \<Rightarrow>
          let sent = get_or_empty (rp_header resp) ''Content-Type''
          in Inr \<lparr>tp_Audio = rp_body resp,
                  tp_Format = (if sent = [] then mimeTypeForFormat (tr_ResponseFormat req) else sent),
                  tp_DurationMs = 0\<rparr>)"

definition voice_of :: "model \<Rightarrow> voice" where
  "voice_of m = \<lparr>vc_ID = md_ID m, vc_Name = md_ID m, vc_Gender = [], vc_Language = []\<rparr>"

interpretation tts_speech: upstream_call "\<lambda>ev. th_Synthesize t ev req"
  "prepare_post ''marshal tts request'' ''create tts request'' (\<lambda>ev. ev_enc_tts ev (with_tts_defaults req))
     (th_client t) (th_baseURL t @ ''/v1/audio/speech'')"
  "\<lambda>ev. speech_of req" "''tts synthesize''" for t req
  by unfold_locales
    (auto simp: labels_ok th_Synthesize_def speech_of_def call_defs Let_def split: sum.splits option.splits)

interpretation tts_voices: upstream_call "th_Voices t"
  "prepare_get ''create voices request'' (th_client t) (th_baseURL t @ ''/v1/models'')"
  "\<lambda>ev resp. map_sum id (\<lambda>r. map voice_of (mr_Data r)) (decoded ''decode models response'' (ev_dec_models_resp ev) resp)"
  "''tts list models''" for t
  by unfold_locales
    (auto simp: labels_ok th_Voices_def voice_of_def call_defs Let_def split: sum.splits option.splits)

section \<open>Properties\<close>

lemma stream_refused:
  assumes "ev_enc_chat ev (req\<lparr>cr_Stream := True\<rparr>) = Inr body" "\<And>method url. ev_new_request ev method url = None"
    and "\<And>cl rq. ev_do ev cl rq = Inr resp" "rp_status resp \<noteq> 200" "b = mlx_backend m \<or> b = ol_backend m'"
  shows "\<exists>e. be_ChatCompletionStream b ev req send w = (Some e, w)"
  using assms(5)
  by (auto simp: mlx_backend_def ol_backend_def mlx_ChatCompletionStream_def ol_ChatCompletionStream_def
      assms(1-3) assms(4) Let_def)

text \<open>
  C28: when the server of a chat backend answers with a status other than 200, every chat, models
  and embeddings call of both adapters fails. The error of a call that is not streamed is shown to
  the client as a function of the status and the body: 504 for a body that speaks of a timeout, 503
  \<open>backend_unavailable\<close> for one that speaks of the connection, then 503 \<open>backend_overloaded\<close> for the
  statuses 429, 502 and 503 and 504 for 504. A streamed call fails without having sent anything
  through \<open>send\<close>; its error is not classified, since its handler has sent status 200 before.
\<close>

theorem bad_reply_shown:
  assumes enc: "ev_enc_chat ev (req\<lparr>cr_Stream := False\<rparr>) = Inr chat" "ev_enc_embed ev ereq = Inr emb"
      "ev_enc_chat ev (req\<lparr>cr_Stream := True\<rparr>) = Inr streamed"
    and create: "\<And>method url. ev_new_request ev method url = None"
    and reply: "\<And>cl rq. ev_do ev cl rq = Inr resp" and status: "rp_status resp \<noteq> 200"
    and range: "0 \<le> rp_status resp" "in_int64 (rp_status resp)"
    and b: "b = mlx_backend m \<or> b = ol_backend m'"
  shows "(\<exists>e. be_ChatCompletion b ev req = Inl e
            \<and> FromBackendError name (Some e) = Some (classify_report name (rp_status resp) (rp_body resp)))
       \<and> (\<exists>e. be_CreateEmbedding b ev ereq = Inl e
            \<and> FromBackendError name (Some e) = Some (classify_report name (rp_status resp) (rp_body resp)))
       \<and> (\<exists>e. be_ListModels b ev = Inl e
            \<and> FromBackendError name (Some e) = Some (classify_report name (rp_status resp) (rp_body resp)))
       \<and> (\<exists>e. be_ChatCompletionStream b ev req send w = (Some e, w))"
proof -
  have streamed: "\<exists>e. be_ChatCompletionStream b ev req send w = (Some e, w)"
    using enc(3) create reply status b by (rule stream_refused)
  from b show ?thesis
  proof
    assume "b = mlx_backend m"
    then show ?thesis
      using mlx_chat.reply_classified [where ev = ev and req = req and m = m and b = name, OF _ reply status range]
        mlx_embed.reply_classified [where ev = ev and req = ereq and m = m and b = name, OF _ reply status range]
        mlx_models.reply_classified [where ev = ev and m = m and b = name, OF _ reply status range] enc create streamed
      by (simp add: mlx_backend_def prepare_post_def prepare_get_def)
  next
    assume "b = ol_backend m'"
    then show ?thesis
      using ol_chat.reply_classified [where ev = ev and req = req and m = m' and b = name, OF _ reply status range]
        ol_embed.reply_classified [where ev = ev and req = ereq and m = m' and b = name, OF _ reply status range]
        ol_models.reply_classified [where ev = ev and m = m' and b = name, OF _ reply status range] enc create streamed
      by (simp add: ol_backend_def prepare_post_def prepare_get_def)
  qed
qed

text \<open>An environment in which every request gets the same reply.\<close>

definition answering :: "gerr + http_reply \<Rightarrow> env" where
  "answering r =
     \<lparr>ev_new_request = \<lambda>_ _. None, ev_do = \<lambda>_ _. r, ev_enc_chat = \<lambda>_. Inr ''{}'', ev_enc_embed = \<lambda>_. Inr ''{}'',
      ev_enc_tts = \<lambda>_. Inr ''{}'', ev_dec_chat_resp = \<lambda>_ _. Inl (new_error ''EOF''),
      ev_dec_models_resp = \<lambda>_ _. Inl (new_error ''EOF''), ev_dec_embed_resp = \<lambda>_ _. Inl (new_error ''EOF'')\<rparr>"

definition plain_reply :: "int \<Rightarrow> string \<Rightarrow> http_reply" where
  "plain_reply status body =
     \<lparr>rp_status = status, rp_header = Map.empty, rp_body = body, rp_read_err = None, rp_err_early = False\<rparr>"

theorem bad_reply_shown_witness:
  "\<exists>e. be_ListModels (mlx_backend (NewMLX ''m'' ''http://h/'' 1 1)) (answering (Inr (plain_reply 429 ''slow down''))) = Inl e
       \<and> FromBackendError ''m'' (Some e) = Some (BackendOverloaded ''m'')"
proof -
  let ?resp = "plain_reply 429 ''slow down''"
  have "classify_report ''m'' (rp_status ?resp) (rp_body ?resp) = BackendOverloaded ''m''" by code_simp
  then show ?thesis
    using bad_reply_shown [of "answering (Inr ?resp)" undefined "''{}''" undefined "''{}''" "''{}''" ?resp
        "mlx_backend (NewMLX ''m'' ''http://h/'' 1 1)" "NewMLX ''m'' ''http://h/'' 1 1" undefined "''m''"]
    by (simp add: answering_def plain_reply_def in_int64_def)
qed

text \<open>
  C29: the two chat adapters are interchangeable: configured alike, they yield the same documents,
  make the same writes to a streamed response, and lead to the same errors shown to the client.
\<close>

theorem adapters_agree:
  "shown n (be_ChatCompletion (mlx_backend (NewMLX n u h t)) ev req) =
     shown n (be_ChatCompletion (ol_backend (NewOllama n u h t)) ev req)
 \<and> shown n (be_CreateEmbedding (mlx_backend (NewMLX n u h t)) ev ereq) =
     shown n (be_CreateEmbedding (ol_backend (NewOllama n u h t)) ev ereq)
 \<and> shown n (be_ListModels (mlx_backend (NewMLX n u h t)) ev) =
     shown n (be_ListModels (ol_backend (NewOllama n u h t)) ev)
 \<and> snd (be_ChatCompletionStream (mlx_backend (NewMLX n u h t)) ev req send w) =
     snd (be_ChatCompletionStream (ol_backend (NewOllama n u h t)) ev req send w)"
proof -
  note defs = mlx_backend_def ol_backend_def NewMLX_def NewOllama_def
  have "shown n (be_ChatCompletion (mlx_backend (NewMLX n u h t)) ev req) =
      shown n (be_ChatCompletion (ol_backend (NewOllama n u h t)) ev req)"
    by (simp add: defs mlx_chat.shown_call ol_chat.shown_call)
  moreover have "shown n (be_CreateEmbedding (mlx_backend (NewMLX n u h t)) ev ereq) =
      shown n (be_CreateEmbedding (ol_backend (NewOllama n u h t)) ev ereq)"
    by (simp add: defs mlx_embed.shown_call ol_embed.shown_call)
  moreover have "shown n (be_ListModels (mlx_backend (NewMLX n u h t)) ev) =
      shown n (be_ListModels (ol_backend (NewOllama n u h t)) ev)"
    by (simp add: defs mlx_models.shown_call ol_models.shown_call)
  moreover have "snd (be_ChatCompletionStream (mlx_backend (NewMLX n u h t)) ev req send w) =
      snd (be_ChatCompletionStream (ol_backend (NewOllama n u h t)) ev req send w)"
    by (simp add: defs Let_def mlx_ChatCompletionStream_def ol_ChatCompletionStream_def split: sum.splits option.splits)
  ultimately show ?thesis by blast
qed

end
