(* ===== verification/Gateway.thy ===== *)
theory Gateway
  imports Http Observe Backend_Registry Router Rate_Limiter
begin

text \<open>
  The state one request runs in: the registries, the two rate limiters, the response writer and
  what has been observed so far, with the clock the code reads. A handler takes the request and
  this state; it returns or panics, and leaves a new state. What the process cannot foresee (the
  random source, the JSON codec for the large documents, whether a counter accepts a value) is
  the record \<open>runtime\<close>.
\<close>

datatype limiter_id = ApiLimiter | SpeechLimiter

record gateway =
  gw_reg :: registry
  gw_router :: router
  gw_rl :: "limiter_id \<Rightarrow> limiter"
  gw_clock :: "nat \<Rightarrow> int"
  gw_reads :: nat
  gw_w :: writer
  gw_ob :: observed

datatype flow = Returned | Panicked string

type_synonym handler = "request \<Rightarrow> gateway \<Rightarrow> flow \<times> gateway"
type_synonym middleware = "handler \<Rightarrow> handler"

text \<open>
  \<open>rt_rand\<close> is what \<open>rand.Read\<close> delivers, \<open>rt_add\<close> the panic of \<open>Counter.Add\<close>, if it panics on
  that value; the rest decodes request bodies and encodes response documents.
\<close>

record runtime =
  rt_rand :: "string option"
  rt_stack :: string
  rt_add :: "int \<Rightarrow> string option"
  rt_dec_chat :: "string \<Rightarrow> gerr + chat_request"
  rt_dec_embed :: "string \<Rightarrow> gerr + embed_request"
  rt_dec_tts :: "string \<Rightarrow> gerr + tts_request"
  rt_enc_chat_resp :: "chat_response \<Rightarrow> gerr + string"
  rt_enc_models_resp :: "models_response \<Rightarrow> gerr + string"
  rt_enc_embed_resp :: "embed_response \<Rightarrow> gerr + string"

definition read_clock :: "gateway \<Rightarrow> int \<times> gateway" where
  "read_clock g = (gw_clock g (gw_reads g), g\<lparr>gw_reads := Suc (gw_reads g)\<rparr>)"

definition on_w :: "(writer \<Rightarrow> writer) \<Rightarrow> gateway \<Rightarrow> gateway" where
  "on_w f g = g\<lparr>gw_w := f (gw_w g)\<rparr>"

definition count :: "metric_call \<Rightarrow> gateway \<Rightarrow> gateway" where
  "count c g = g\<lparr>gw_ob := metric c (gw_ob g)\<rparr>"

definition write_log :: "level \<Rightarrow> string \<Rightarrow> (string \<times> string) list \<Rightarrow> gateway \<Rightarrow> gateway" where
  "write_log l m as g = g\<lparr>gw_ob := log_attrs l m as (gw_ob g)\<rparr>"

definition answer_with :: "api_error option \<Rightarrow> gateway \<Rightarrow> gateway" where
  "answer_with e g = on_w (api_write e) g"

text \<open>\<open>Counter.Add\<close> either counts or panics; what follows it runs only when it counts.\<close>

definition counter_add :: "runtime \<Rightarrow> metric \<Rightarrow> string list \<Rightarrow> int \<Rightarrow> (gateway \<Rightarrow> flow \<times> gateway) \<Rightarrow> gateway \<Rightarrow> flow \<times> gateway" where
  "counter_add rt m ls v k g =
     (case rt_add rt v of Some p \<Rightarrow> (Panicked p, g) | None \<Rightarrow> k (count (MAdd m ls v) g))"

lemma on_w_simps [simp]:
  "gw_w (on_w f g) = f (gw_w g)" "gw_ob (on_w f g) = gw_ob g" "gw_reg (on_w f g) = gw_reg g"
  "gw_router (on_w f g) = gw_router g" "gw_rl (on_w f g) = gw_rl g"
  "gw_clock (on_w f g) = gw_clock g" "gw_reads (on_w f g) = gw_reads g"
  by (simp_all add: on_w_def)

lemma count_simps [simp]:
  "gw_w (count c g) = gw_w g" "gw_ob (count c g) = metric c (gw_ob g)" "gw_reg (count c g) = gw_reg g"
  "gw_router (count c g) = gw_router g" "gw_rl (count c g) = gw_rl g"
  "gw_clock (count c g) = gw_clock g" "gw_reads (count c g) = gw_reads g"
  by (simp_all add: count_def)

lemma write_log_simps [simp]:
  "gw_w (write_log l m as g) = gw_w g" "gw_ob (write_log l m as g) = log_attrs l m as (gw_ob g)"
  "gw_reg (write_log l m as g) = gw_reg g" "gw_router (write_log l m as g) = gw_router g"
  "gw_rl (write_log l m as g) = gw_rl g" "gw_clock (write_log l m as g) = gw_clock g"
  "gw_reads (write_log l m as g) = gw_reads g"
  by (simp_all add: write_log_def)

lemma answer_with_simps [simp]:
  "gw_w (answer_with e g) = api_write e (gw_w g)" "gw_ob (answer_with e g) = gw_ob g"
  "gw_reg (answer_with e g) = gw_reg g" "gw_router (answer_with e g) = gw_router g"
  "gw_rl (answer_with e g) = gw_rl g" "gw_clock (answer_with e g) = gw_clock g"
  "gw_reads (answer_with e g) = gw_reads g"
  by (simp_all add: answer_with_def)

lemma read_clock_simps [simp]:
  "fst (read_clock g) = gw_clock g (gw_reads g)"
  "gw_w (snd (read_clock g)) = gw_w g" "gw_ob (snd (read_clock g)) = gw_ob g"
  "gw_reg (snd (read_clock g)) = gw_reg g" "gw_router (snd (read_clock g)) = gw_router g"
  "gw_rl (snd (read_clock g)) = gw_rl g" "gw_clock (snd (read_clock g)) = gw_clock g"
  "gw_reads (snd (read_clock g)) = Suc (gw_reads g)"
  by (simp_all add: read_clock_def)

section \<open>What a handler owes the middleware\<close>

text \<open>
  The status writers around the connection agree with what the connection sent: the status each
  of them holds is the status sent, or 200 while nothing was sent.
\<close>

definition synced :: "writer \<Rightarrow> bool" where
  "synced w \<longleftrightarrow>
     (\<forall>sw \<in> set (wr_wrap w). sw_status sw = (case status_of w of None \<Rightarrow> 200 | Some c \<Rightarrow> c)
        \<and> (status_of w = None \<longrightarrow> \<not> sw_wrote sw))"

lemma synced_new [simp]: "wr_wrap w = [] \<Longrightarrow> synced w"
  by (simp add: synced_def)

lemma synced_set_header [simp]: "synced (set_header k v w) = synced w"
  by (simp add: synced_def set_header_def status_of_def)

lemma synced_push: "status_of w = None \<Longrightarrow> synced w \<Longrightarrow> synced (push_wrap w)"
  by (auto simp: synced_def push_wrap_def status_of_def new_status_writer_def)

lemma synced_pop: "synced w \<Longrightarrow> synced (pop_wrap w)"
  by (cases "wr_wrap w") (auto simp: synced_def pop_wrap_def status_of_def)

lemma synced_write_header: "status_of w = None \<Longrightarrow> synced w \<Longrightarrow> synced (write_header code w)"
  by (auto simp: synced_def write_header_def send_status_def status_of_def sw_WriteHeader_def)

lemma synced_write_bytes: "synced w \<Longrightarrow> synced (snd (write_bytes s w))"
  by (auto simp: synced_def write_bytes_def send_status_def accept_bytes_def status_of_def sw_Write_def Let_def
      split: option.splits list.splits)

lemma synced_flush: "synced w \<Longrightarrow> synced (flush w)"
  by (auto simp: synced_def flush_def send_status_def status_of_def split: option.splits)

lemma synced_context_err: "synced (snd (context_err w)) = synced w"
  by (simp add: synced_def context_err_def status_of_def split: list.splits)

lemma synced_api_write: "status_of w = None \<Longrightarrow> synced w \<Longrightarrow> synced (api_write e w)"
  by (cases e) (auto simp: api_write_def write_json_def intro!: synced_write_bytes synced_write_header)

end
