(* ===== verification/Streaming.thy ===== *)
theory Streaming
  imports Adapters
begin

text \<open>
  The streaming loop of the chat adapters against a specification of server-sent events: which
  events of a reply are relayed, and that a reply in the usual format is relayed event by event.
\<close>

section \<open>The events of a reply\<close>

definition events :: "string list \<Rightarrow> string list" where
  "events ls = map (trim_prefix ''data: '') (filter (has_prefix ''data: '') ls)"

text \<open>The events up to the first \<open>[DONE]\<close>, which is included.\<close>

fun upto_done :: "string list \<Rightarrow> string list" where
  "upto_done [] = []"
| "upto_done (d # ds) = (if d = ''[DONE]'' then [d] else d # upto_done ds)"

text \<open>Sending in order until a send fails.\<close>

fun run_sends :: "stream_func \<Rightarrow> string list \<Rightarrow> writer \<Rightarrow> gerr option \<times> writer" where
  "run_sends send [] w = (None, w)"
| "run_sends send (d # ds) w =
     (case send d w of (Some e, w') \<Rightarrow> (Some e, w') | (None, w') \<Rightarrow> run_sends send ds w')"

lemma forward_run_sends:
  "snd (forward send ls w) = snd (run_sends send (upto_done (events ls)) w)"
  "(\<exists>e. fst (forward send ls w) = Inl e) \<longleftrightarrow> fst (run_sends send (upto_done (events ls)) w) \<noteq> None"
  "fst (forward send ls w) = Inl e \<Longrightarrow> fst (run_sends send (upto_done (events ls)) w) = Some e"
  by (induction ls arbitrary: w)
    (auto simp: events_def Let_def split: prod.splits option.splits if_splits)

lemma scan_stream_sends:
  "snd (scan_stream resp send w) = snd (run_sends send (upto_done (events (reply_lines resp))) w)"
  by (auto simp: scan_stream_def simp flip: forward_run_sends(1) split: prod.splits sum.splits option.splits)

lemma scan_stream_failed:
  assumes "fst (run_sends send (upto_done (events (reply_lines resp))) w) = Some e"
  shows "fst (scan_stream resp send w) = Some e"
proof -
  obtain err where "fst (forward send (reply_lines resp) w) = Inl err"
    using forward_run_sends(2) [of send "reply_lines resp" w] assms by auto
  with forward_run_sends(3) [OF this] assms show ?thesis
    by (cases "forward send (reply_lines resp) w") (simp add: scan_stream_def)
qed

text \<open>A backend's stream acts on the response through \<open>send\<close> alone.\<close>

definition relays :: "backend \<Rightarrow> bool" where
  "relays b \<longleftrightarrow> (\<forall>ev req send w. \<exists>ds. snd (be_ChatCompletionStream b ev req send w) = snd (run_sends send ds w))"

lemma relays_mlx: "relays (mlx_backend m)"
  unfolding relays_def mlx_backend_def
  by (auto simp: mlx_ChatCompletionStream_def Let_def scan_stream_sends intro: exI [of _ "[]"]
      split: sum.splits option.splits)

lemma relays_ollama: "relays (ol_backend m)"
  unfolding relays_def ol_backend_def
  by (auto simp: ol_ChatCompletionStream_def Let_def scan_stream_sends intro: exI [of _ "[]"]
      split: sum.splits option.splits)

section \<open>Which events are relayed\<close>

text \<open>
  C25: the streaming loop hands to \<open>send\<close> the data of the events of the reply, in order, up to and
  including the first \<open>[DONE]\<close>, and stops at the first failing \<open>send\<close>, whose error it returns.
  Without \<open>[DONE]\<close> it reports a line that is too long or the error that ended the reply.
\<close>

theorem stream_relays_events:
  "snd (scan_stream resp send w) = snd (run_sends send (upto_done (events (reply_lines resp))) w)
   \<and> (case fst (run_sends send (upto_done (events (reply_lines resp))) w) of
        Some e \<Rightarrow> fst (scan_stream resp send w) = Some e
      | None \<Rightarrow>
          if ''[DONE]'' \<in> set (events (reply_lines resp))
          then fst (scan_stream resp send w) \<in> {None, rp_read_err resp}
          else fst (scan_stream resp send w) =
                 (if reply_too_long resp then Some (sentinel_error ErrTooLong) else rp_read_err resp))"
proof -
  have rest: "fst (forward send ls w) = Inr None \<Longrightarrow> ''[DONE]'' \<notin> set (events ls)" for ls w
    by (induction ls arbitrary: w) (auto simp: events_def Let_def split: prod.splits option.splits if_splits)
  have rest': "fst (forward send ls w) = Inr (Some us) \<Longrightarrow> ''[DONE]'' \<in> set (events ls)" for ls us w
    by (induction ls arbitrary: w) (auto simp: events_def Let_def split: prod.splits option.splits if_splits)
  obtain res w' where fw: "forward send (reply_lines resp) w = (res, w')" by fastforce
  show ?thesis
  proof (cases res)
    case (Inl e)
    then show ?thesis
      using fw forward_run_sends(3) [of send "reply_lines resp" w e] by (simp add: scan_stream_sends, simp add: scan_stream_def)
  next
    case (Inr r)
    then have "fst (run_sends send (upto_done (events (reply_lines resp))) w) = None"
      using fw forward_run_sends(2) [of send "reply_lines resp" w] by auto
    then show ?thesis
      using fw Inr rest [of "reply_lines resp" w] rest' [of "reply_lines resp" w]
      by (cases r) (simp_all add: scan_stream_sends, simp_all add: scan_stream_def)
  qed
qed

section \<open>Replies in the usual format\<close>

definition sse_event :: "string \<Rightarrow> string" where
  "sse_event d = ''data: '' @ d @ [CHR 0x0A, CHR 0x0A]"

definition sse :: "string list \<Rightarrow> string" where
  "sse ds = concat (map sse_event ds)"

definition plain_event :: "string \<Rightarrow> bool" where
  "plain_event d \<longleftrightarrow>
     CHR 0x0A \<notin> set d \<and> (d = [] \<or> last d \<noteq> CHR 0x0D) \<and> length d + 6 < stream_limit"

lemma sse_lines: "sse ds = concat (map (\<lambda>l. l @ [CHR 0x0A]) (concat (map (\<lambda>d. [''data: '' @ d, []]) ds)))"
  by (induction ds) (auto simp: sse_def sse_event_def)

lemma reply_lines_sse:
  assumes "rp_body resp = sse ds" and "\<forall>d \<in> set ds. plain_event d"
  shows "reply_lines resp = concat (map (\<lambda>d. [''data: '' @ d, []]) ds)" and "\<not> reply_too_long resp"
proof -
  let ?ls = "concat (map (\<lambda>d. [''data: '' @ d, []]) ds)"
  have raw: "raw_lines (rp_body resp) = ?ls"
    unfolding assms(1) sse_lines by (rule raw_lines_concat) (use assms(2) in \<open>auto simp: plain_event_def\<close>)
  have cr: "map drop_cr ?ls = ?ls"
    by (rule map_idI) (use assms(2) in \<open>auto simp: drop_cr_def plain_event_def split: if_splits\<close>)
  have short: "\<forall>l \<in> set ?ls. length l < stream_limit"
    using assms(2) by (auto simp: plain_event_def stream_limit_def)
  then have "\<not> scan_too_long stream_limit (rp_body resp)"
    unfolding scan_too_long_def raw by (auto simp: not_le)
  with cr show "reply_lines resp = ?ls" "\<not> reply_too_long resp"
    by (simp_all add: reply_lines_def scan_lines_all raw reply_too_long_def)
qed

lemma events_sse: "events (concat (map (\<lambda>d. [''data: '' @ d, []]) ds)) = ds"
  by (induction ds) (auto simp: events_def has_prefix_def trim_prefix_def)

lemma upto_done_snoc: "''[DONE]'' \<notin> set ds \<Longrightarrow> upto_done (ds @ [''[DONE]'']) = ds @ [''[DONE]'']"
  by (induction ds) auto

lemma plain_done: "plain_event ''[DONE]''"
  by (simp add: plain_event_def stream_limit_def)

end
