(* ===== verification/Handlers.thy ===== *)
theory Handlers
  imports Gateway Streaming
begin

text \<open>
  The handlers of the API routes (\<open>internal/handler\<close>: \<open>chat.go\<close>, \<open>models.go\<close>,
  \<open>embeddings.go\<close>, \<open>audio.go\<close>). Each takes the runtime, the environment of its backend call,
  the order in which the registry's map is visited and the health checker, and is then a handler
  in the sense of \<open>Gateway\<close>. The deferred release of a backend runs on every outcome.
\<close>

section \<open>Shared parts\<close>

definition defaultChatModel :: string where
  "defaultChatModel = ''qwen3.6:35b-a3b-coding-bf16''"

definition nil_dereference :: string where
  "nil_dereference = ''runtime error: invalid memory address or nil pointer dereference''"

definition backendSelectError :: "registry \<Rightarrow> gerr \<Rightarrow> api_error" where
  "backendSelectError reg err =
     (let name = (if PrimaryName reg = [] then ''default'' else PrimaryName reg)
      in if err_is ErrNoHealthyBackend err \<or> err_is ErrBackendNotFound err
         then BackendUnavailable name else BackendUnavailable name)"

definition invalid_json :: "gerr \<Rightarrow> api_error" where
  "invalid_json e = InvalidRequest (''Invalid JSON in request body: '' @ err_msg e)"

definition set_reg :: "registry \<Rightarrow> gateway \<Rightarrow> gateway" where
  "set_reg reg g = g\<lparr>gw_reg := reg\<rparr>"

definition set_router :: "router \<Rightarrow> gateway \<Rightarrow> gateway" where
  "set_router rtr g = g\<lparr>gw_router := rtr\<rparr>"

text \<open>\<open>b, err := reg.PrimaryHealthy(hc)\<close>, the error reply, the deferred release, and the rest.\<close>

definition with_backend ::
  "string list \<Rightarrow> health_checker \<Rightarrow> (backend \<Rightarrow> gateway \<Rightarrow> flow \<times> gateway) \<Rightarrow> gateway \<Rightarrow> flow \<times> gateway" where
  "with_backend visit hc body g =
     (case PrimaryHealthy visit hc (gw_reg g) of
        (Inl err, reg) \<Rightarrow> (Returned, answer_with (Some (backendSelectError reg err)) (set_reg reg g))
      | (Inr None, reg) \<Rightarrow> (Panicked nil_dereference, set_reg reg g)
      | (Inr (Some b), reg) \<Rightarrow>
          (case body b (set_reg reg g) of
             (f, g1) \<Rightarrow> (f, set_reg (ReleaseBackend (be_Name b) (gw_reg g1)) g1)))"

text \<open>\<open>json.NewEncoder(w).Encode(resp)\<close> as the document of a success, and the log line if it fails.\<close>

definition write_document :: "('d \<Rightarrow> gerr + string) \<Rightarrow> 'd \<Rightarrow> string \<Rightarrow> gateway \<Rightarrow> gateway" where
  "write_document enc doc failure g =
     (let g1 = on_w (set_header ''Content-Type'' ''application/json'') g
      in case enc doc of
           Inl e \<Rightarrow> write_log LevelError failure [(''err'', err_msg e)] g1
         | Inr text \<Rightarrow>
             (case write_bytes (text @ [CHR 0x0A]) (gw_w g1) of
                (None, w) \<Rightarrow> on_w (\<lambda>_. w) g1
              | (Some e, w) \<Rightarrow> write_log LevelError failure [(''err'', err_msg e)] (on_w (\<lambda>_. w) g1)))"

text \<open>The log line and the reply for a backend call that failed.\<close>

definition backend_failed :: "string \<Rightarrow> string \<Rightarrow> gerr \<Rightarrow> gateway \<Rightarrow> gateway" where
  "backend_failed what name e g =
     answer_with (FromBackendError name (Some e))
       (write_log LevelError what [(''backend'', name), (''err'', err_msg e)] g)"

section \<open>Chat completions\<close>

definition handleJSON :: "runtime \<Rightarrow> env \<Rightarrow> backend \<Rightarrow> chat_request \<Rightarrow> gateway \<Rightarrow> flow \<times> gateway" where
  "handleJSON rt ev b req g =
     (case be_ChatCompletion b ev req of
        Inl e \<Rightarrow> (Returned, backend_failed ''chat completion failed'' (be_Name b) e g)
      | Inr resp \<Rightarrow>
          let reply = (\<lambda>g. (Returned, write_document (rt_enc_chat_resp rt) resp ''failed to encode chat response'' g))
          in case cp_Usage resp of
               None \<Rightarrow> reply g
             | Some u \<Rightarrow>
                 counter_add rt TokensTotal [cp_Model resp, ''prompt''] (us_PromptTokens u)
                   (counter_add rt TokensTotal [cp_Model resp, ''completion''] (us_CompletionTokens u) reply) g)"

text \<open>
  The function that sends one event. The context is asked first; its error is sticky, so the
  second look at it gives the same answer.
\<close>

definition send_event :: stream_func where
  "send_event data w =
     (case context_err w of
        (Some e, w1) \<Rightarrow> (Some e, w1)
      | (None, w1) \<Rightarrow>
          if data = ''[DONE]''
          then (case write_bytes (''data: [DONE]'' @ [CHR 0x0A, CHR 0x0A]) w1 of
                  (Some e, w2) \<Rightarrow> (Some (context_error ''client disconnected'' e), w2)
                | (None, w2) \<Rightarrow> (None, flush w2))
          else (case write_bytes (''data: '' @ data @ [CHR 0x0A, CHR 0x0A]) w1 of
                  (Some e, w2) \<Rightarrow> (Some (context_error ''client disconnected'' e), w2)
                | (None, w2) \<Rightarrow> (None, flush w2)))"

definition stream_headers :: "writer \<Rightarrow> writer" where
  "stream_headers w =
     set_header ''X-Accel-Buffering'' ''no'' (set_header ''Connection'' ''keep-alive''
       (set_header ''Cache-Control'' ''no-cache'' (set_header ''Content-Type'' ''text/event-stream'' w)))"

definition handleStream :: "env \<Rightarrow> backend \<Rightarrow> chat_request \<Rightarrow> gateway \<Rightarrow> flow \<times> gateway" where
  "handleStream ev b req g =
     (if \<not> is_flusher (gw_w g)
      then (Returned, answer_with (Some (Internal ''Streaming not supported by this server.'')) g)
      else let g1 = on_w (\<lambda>w. flush (write_header 200 (stream_headers w))) g
           in case be_ChatCompletionStream b ev req send_event (gw_w g1) of
                (None, w) \<Rightarrow> (Returned, on_w (\<lambda>_. w) g1)
              | (Some e, w) \<Rightarrow>
                  (Returned, write_log LevelError ''stream error'' [(''backend'', be_Name b), (''err'', err_msg e)]
                     (on_w (\<lambda>_. w) g1)))"

definition ChatCompletions :: "runtime \<Rightarrow> env \<Rightarrow> string list \<Rightarrow> health_checker \<Rightarrow> handler" where
  "ChatCompletions rt ev visit hc r g =
     (case rt_dec_chat rt (rq_body r) of
        Inl e \<Rightarrow> (Returned, answer_with (Some (invalid_json e)) g)
      | Inr req0 \<Rightarrow>
          if cr_Messages req0 = []
          then (Returned, answer_with
                  (Some (InvalidParam ''messages'' ''messages is required and must not be empty'')) g)
          else let req = (if trim_space (cr_Model req0) = [] then req0\<lparr>cr_Model := defaultChatModel\<rparr> else req0)
               in with_backend visit hc
                    (\<lambda>b. if cr_Stream req then handleStream ev b req else handleJSON rt ev b req) g)"

section \<open>Models and embeddings\<close>

definition Models :: "runtime \<Rightarrow> env \<Rightarrow> string list \<Rightarrow> health_checker \<Rightarrow> handler" where
  "Models rt ev visit hc r g =
     with_backend visit hc
       (\<lambda>b g. case be_ListModels b ev of
                Inl e \<Rightarrow> (Returned, backend_failed ''list models failed'' (be_Name b) e g)
              | Inr resp \<Rightarrow>
                  (Returned, write_document (rt_enc_models_resp rt) resp ''failed to encode models response'' g)) g"

definition Embeddings :: "runtime \<Rightarrow> env \<Rightarrow> string list \<Rightarrow> health_checker \<Rightarrow> handler" where
  "Embeddings rt ev visit hc r g =
     (case rt_dec_embed rt (rq_body r) of
        Inl e \<Rightarrow> (Returned, answer_with (Some (invalid_json e)) g)
      | Inr req \<Rightarrow>
          if er_Input req = [] \<or> er_Input req = ''null'' \<or> er_Input req = [CHR 0x22, CHR 0x22]
             \<or> er_Input req = ''[]''
          then (Returned, answer_with (Some (InvalidParam ''input'' ''input is required'')) g)
          else with_backend visit hc
                 (\<lambda>b g. case be_CreateEmbedding b ev req of
                          Inl e \<Rightarrow> (Returned, backend_failed ''create embedding failed'' (be_Name b) e g)
                        | Inr resp \<Rightarrow>
                            (Returned, write_document (rt_enc_embed_resp rt) resp
                               ''failed to encode embedding response'' g)) g)"

section \<open>Speech\<close>

definition defaultTTSModel :: string where
  "defaultTTSModel = ''kokoro''"

definition maxTTSInputLength :: nat where
  "maxTTSInputLength = 4096"

definition mimeTypeFromFormat :: "string \<Rightarrow> string" where
  "mimeTypeFromFormat format =
     (let f = to_lower format
      in if f = ''mp3'' then ''audio/mpeg''
         else if f = ''opus'' then ''audio/opus''
         else if f = ''flac'' then ''audio/flac''
         else if f = ''wav'' then ''audio/wav''
         else if f = ''pcm'' then ''audio/L16''
         else ''audio/wav'')"

definition default_voice :: "string \<Rightarrow> string" where
  "default_voice name =
     (if name = ''kokoro'' then ''af_bella''
      else if name = ''chatterbox'' then ''chatterbox-default'' else ''default'')"

definition clamp_speed :: "float64 \<Rightarrow> float64" where
  "clamp_speed speed =
     (let s = (if fle speed (Fin 0) then Fin 1 else speed)
      in if flt s (Fin (1 / 4)) then Fin (1 / 4) else if flt (Fin 4) s then Fin 4 else s)"

text \<open>Voice and speed of the request that goes to the selected backend.\<close>

definition speech_request :: "string \<Rightarrow> tts_request \<Rightarrow> tts_request" where
  "speech_request name req =
     (let req1 = (if trim_space (tr_Voice req) = [] then req\<lparr>tr_Voice := default_voice name\<rparr> else req)
      in req1\<lparr>tr_Speed := clamp_speed (tr_Speed req1)\<rparr>)"

text \<open>The part of \<open>Audio\<close> after a backend was selected, without the release.\<close>

definition speak :: "runtime \<Rightarrow> env \<Rightarrow> backend_info \<Rightarrow> tts_request \<Rightarrow> gateway \<Rightarrow> flow \<times> gateway" where
  "speak rt ev info req0 g =
     (let req = speech_request (bi_Name info) req0;
          g1 = count (MInc RoutingDecisionsTotal [''tts'', bi_Name info]) g
      in case bi_TTSBackend info of
           None \<Rightarrow>
             (Returned, answer_with (Some (BackendUnavailable (bi_Name info)))
                (write_log LevelError ''selected backend has no TTS backend'' [(''name'', bi_Name info)] g1))
         | Some tb \<Rightarrow>
             let g2 = snd (read_clock (snd (read_clock g1)))
             in case tb_Synthesize tb ev req of
                  Inl e \<Rightarrow>
                    (Returned, backend_failed ''tts synthesis failed'' (bi_Name info) e
                       (count (MInc TTSRequestsTotal [bi_Name info, ''error'']) g2))
                | Inr resp \<Rightarrow>
                    counter_add rt TTSCharactersTotal [bi_Name info] (int (length (tr_Input req)))
                      (\<lambda>g. let ct = (if tp_Format resp = [] then mimeTypeFromFormat (tr_ResponseFormat req) else tp_Format resp);
                                g3 = on_w (set_header ''Content-Length'' (itoa (int (length (tp_Audio resp))))
                                           \<circ> set_header ''Content-Type'' ct) g
                            in case write_bytes (tp_Audio resp) (gw_w g3) of
                                 (None, w) \<Rightarrow> (Returned, on_w (\<lambda>_. w) g3)
                               | (Some e, w) \<Rightarrow>
                                   (Returned, write_log LevelError ''failed to write audio response'' [(''err'', err_msg e)]
                                      (on_w (\<lambda>_. w) g3)))
                      (count (MObserve TTSRequestDuration [bi_Name info])
                        (count (MInc TTSRequestsTotal [bi_Name info, ''success'']) g2)))"

definition Audio :: "runtime \<Rightarrow> env \<Rightarrow> string list \<Rightarrow> health_checker \<Rightarrow> handler" where
  "Audio rt ev visit hc r g =
     (case rt_dec_tts rt (rq_body r) of
        Inl e \<Rightarrow> (Returned, answer_with (Some (invalid_json e)) g)
      | Inr req0 \<Rightarrow>
          if trim_space (tr_Input req0) = []
          then (Returned, answer_with (Some (InvalidParam ''input'' ''input is required and must not be empty'')) g)
          else if maxTTSInputLength < length (tr_Input req0)
          then (Returned, answer_with (Some (InvalidParam ''input'' ''input must be at most 4096 characters'')) g)
          else let req = (if trim_space (tr_Model req0) = [] then req0\<lparr>tr_Model := defaultTTSModel\<rparr> else req0)
               in case SelectHealthyBackend visit CapTTS (tr_Model req) hc (gw_router g) of
                    (Inl err, rtr) \<Rightarrow>
                      (Returned, answer_with (Some (BackendUnavailable (tr_Model req)))
                         (write_log LevelError ''no TTS backend available'' [(''err'', err_msg err)] (set_router rtr g)))
                  | (Inr info, rtr) \<Rightarrow>
                      (case speak rt ev info req (set_router rtr g) of
                         (f, g1) \<Rightarrow> (f, set_router (ReleaseRouted (bi_Name info) (gw_router g1)) g1)))"

end
