(* ===== verification/Stream_Handler.thy ===== *)
theory Stream_Handler
  imports Handlers
begin

text \<open>
  The streaming chat handler end to end: what the adapters relay is what the client receives,
  byte for byte, and a client that goes away stops the stream at the event it missed.
\<close>

lemma send_event_ok:
  assumes "wr_outcomes w = []" "wr_ctx_errs w = []"
  shows "fst (send_event d w) = None" and "wr_body (snd (send_event d w)) = wr_body w @ sse_event d"
    and "wr_outcomes (snd (send_event d w)) = []" and "wr_ctx_errs (snd (send_event d w)) = []"
    and "status_of w = Some c \<Longrightarrow> status_of (snd (send_event d w)) = Some c"
  using assms
  by (auto simp: send_event_def context_err_def write_bytes_def accept_bytes_def send_status_def flush_def
      sse_event_def status_of_def Let_def split: option.splits)

lemma run_sends_ok:
  assumes "wr_outcomes w = []" "wr_ctx_errs w = []" "status_of w = Some c"
  shows "fst (run_sends send_event ds w) = None
       \<and> wr_body (snd (run_sends send_event ds w)) = wr_body w @ sse ds
       \<and> status_of (snd (run_sends send_event ds w)) = Some c"
  using assms
proof (induction ds arbitrary: w)
  case (Cons d ds)
  obtain w' where step: "send_event d w = (None, w')"
    using send_event_ok(1) [OF Cons.prems(1,2), of d] by (metis prod.collapse)
  then have "wr_outcomes w' = []" "wr_ctx_errs w' = []" "status_of w' = Some c" "wr_body w' = wr_body w @ sse_event d"
    using send_event_ok [where d = d, OF Cons.prems(1,2)] Cons.prems(3) by auto
  with Cons.IH [of w'] step show ?case by (simp add: sse_def)
qed (simp add: sse_def)

lemma stream_start:
  assumes "wr_sent w = None"
  shows "wr_body (flush (write_header 200 (stream_headers w))) = wr_body w"
    and "wr_outcomes (flush (write_header 200 (stream_headers w))) = wr_outcomes w"
    and "wr_ctx_errs (flush (write_header 200 (stream_headers w))) = wr_ctx_errs w"
    and "status_of (flush (write_header 200 (stream_headers w))) = Some 200"
    and "sent_header (flush (write_header 200 (stream_headers w))) ''Content-Type'' = Some ''text/event-stream''"
  using assms
  by (auto simp: flush_def write_header_def stream_headers_def send_status_def set_header_def status_of_def sent_header_def)

text \<open>The adapters' stream once the request is accepted.\<close>

lemma adapter_stream:
  assumes "ev_enc_chat ev (req\<lparr>cr_Stream := True\<rparr>) = Inr body" "\<And>m u. ev_new_request ev m u = None"
    and "\<And>cl rq. ev_do ev cl rq = Inr resp" "rp_status resp = 200" "b = mlx_backend m \<or> b = ol_backend m'"
  shows "be_ChatCompletionStream b ev req send w = scan_stream resp send w"
  using assms
  by (auto simp: mlx_backend_def ol_backend_def mlx_ChatCompletionStream_def ol_ChatCompletionStream_def)

text \<open>
  C24: a reply of server-sent events that ends with \<open>[DONE]\<close> reaches the client unchanged: status
  200 and the very bytes the backend sent, whatever the events are, as long as the client stays.
\<close>

theorem stream_round_trip:
  assumes env: "ev_enc_chat ev (req\<lparr>cr_Stream := True\<rparr>) = Inr body" "\<And>m u. ev_new_request ev m u = None"
      "\<And>cl rq. ev_do ev cl rq = Inr resp"
    and reply: "rp_status resp = 200" "rp_body resp = sse (ds @ [''[DONE]''])"
    and plain: "\<forall>d \<in> set ds. plain_event d" "''[DONE]'' \<notin> set ds"
    and b: "b = mlx_backend m \<or> b = ol_backend m'"
    and w: "is_flusher (gw_w g)" "wr_sent (gw_w g) = None" "wr_body (gw_w g) = []" "wr_outcomes (gw_w g) = []"
      "wr_ctx_errs (gw_w g) = []"
  shows "fst (handleStream ev b req g) = Returned
       \<and> wr_body (gw_w (snd (handleStream ev b req g))) = rp_body resp
       \<and> status_of (gw_w (snd (handleStream ev b req g))) = Some 200"
proof -
  let ?w = "flush (write_header 200 (stream_headers (gw_w g)))"
  let ?ds = "ds @ [''[DONE]'']"
  have all: "\<forall>d \<in> set ?ds. plain_event d" using plain(1) plain_done by simp
  have sends: "upto_done (events (reply_lines resp)) = ?ds"
    unfolding reply_lines_sse(1) [OF reply(2) all] events_sse using plain(2) by (rule upto_done_snoc)
  have ok: "wr_body (snd (scan_stream resp send_event ?w)) = rp_body resp
      \<and> status_of (snd (scan_stream resp send_event ?w)) = Some 200"
    using run_sends_ok [where w = ?w and c = 200 and ds = ?ds] stream_start [OF w(2)] w(3-5) reply(2)
    unfolding scan_stream_sends sends by simp
  have str: "be_ChatCompletionStream b ev req send_event ?w = scan_stream resp send_event ?w"
    by (rule adapter_stream [OF env reply(1) b])
  obtain res w' where res: "scan_stream resp send_event ?w = (res, w')" by fastforce
  have "handleStream ev b req g =
      (Returned, (case res of
         None \<Rightarrow> on_w (\<lambda>_. w') (on_w (\<lambda>w. flush (write_header 200 (stream_headers w))) g)
       | Some e \<Rightarrow> write_log LevelError ''stream error'' [(''backend'', be_Name b), (''err'', err_msg e)]
           (on_w (\<lambda>_. w') (on_w (\<lambda>w. flush (write_header 200 (stream_headers w))) g))))"
    using w(1) by (simp add: handleStream_def Let_def str res split: option.splits)
  with ok res show ?thesis by (simp split: option.splits)
qed

definition empty_chat :: chat_request where
  "empty_chat =
     \<lparr>cr_Model = [], cr_Messages = [], cr_Temperature = None, cr_TopP = None, cr_N = None, cr_MaxTokens = None,
      cr_MaxCompletionTokens = None, cr_Stop = [], cr_Stream = True, cr_PresencePenalty = None,
      cr_FrequencyPenalty = None, cr_Logprobs = None, cr_TopLogprobs = None, cr_Seed = None, cr_User = [],
      cr_Tools = [], cr_ToolChoice = [], cr_ResponseFormat = []\<rparr>"

definition quiet_gateway :: gateway where
  "quiet_gateway =
     \<lparr>gw_reg = NewRegistry, gw_router = NewRouter, gw_rl = (\<lambda>_. NewRateLimiter (Fin 10) 1), gw_clock = (\<lambda>_. 0),
      gw_reads = 0, gw_w = new_writer, gw_ob = no_observed\<rparr>"

definition event_stream :: "string list \<Rightarrow> env" where
  "event_stream ds =
     \<lparr>ev_new_request = \<lambda>_ _. None,
      ev_do = \<lambda>_ _. Inr \<lparr>rp_status = 200, rp_header = Map.empty, rp_body = sse ds, rp_read_err = None, rp_err_early = False\<rparr>,
      ev_enc_chat = \<lambda>_. Inr ''{}'', ev_enc_embed = \<lambda>_. Inr ''{}'', ev_enc_tts = \<lambda>_. Inr ''{}'',
      ev_dec_chat_resp = \<lambda>_ _. Inl (new_error ''EOF''), ev_dec_models_resp = \<lambda>_ _. Inl (new_error ''EOF''),
      ev_dec_embed_resp = \<lambda>_ _. Inl (new_error ''EOF'')\<rparr>"

theorem stream_round_trip_witness:
  "wr_body (gw_w (snd (handleStream (event_stream [''a'', ''b'', ''[DONE]'']) (mlx_backend (NewMLX ''m'' ''http://h'' 0 0))
      empty_chat quiet_gateway))) = sse [''a'', ''b'', ''[DONE]'']"
  using stream_round_trip [of "event_stream [''a'', ''b'', ''[DONE]'']" empty_chat "''{}''"
      "\<lparr>rp_status = 200, rp_header = Map.empty, rp_body = sse [''a'', ''b'', ''[DONE]''], rp_read_err = None, rp_err_early = False\<rparr>"
      "[''a'', ''b'']" "mlx_backend (NewMLX ''m'' ''http://h'' 0 0)" "NewMLX ''m'' ''http://h'' 0 0" undefined quiet_gateway]
  by (simp add: event_stream_def quiet_gateway_def new_writer_def is_flusher_def plain_event_def stream_limit_def)

section \<open>A client that goes away\<close>

lemma send_event_outcome:
  assumes "wr_ctx_errs w = []"
  shows "wr_outcomes w = None # os \<Longrightarrow>
      fst (send_event d w) = None \<and> wr_body (snd (send_event d w)) = wr_body w @ sse_event d
      \<and> wr_outcomes (snd (send_event d w)) = os \<and> wr_ctx_errs (snd (send_event d w)) = []"
    and "wr_outcomes w = Some (n, e) # os \<Longrightarrow>
      fst (send_event d w) = Some (context_error ''client disconnected'' e)
      \<and> wr_body (snd (send_event d w)) = wr_body w @ take n (sse_event d)"
  using assms
  by (auto simp: send_event_def context_err_def write_bytes_def accept_bytes_def send_status_def flush_def
      sse_event_def Let_def split: option.splits)

text \<open>
  The client is gone when event number \<open>k\<close> is due: the write of it fails after a part of it went out,
  or the context of the request was cancelled before. What a later write would do is not said.
\<close>

definition leaves_at :: "nat \<Rightarrow> string \<Rightarrow> writer \<Rightarrow> gerr \<Rightarrow> string \<Rightarrow> bool" where
  "leaves_at k event w err part \<longleftrightarrow>
     wr_ctx_errs w = []
       \<and> (\<exists>n e os. wr_outcomes w = replicate k None @ Some (n, e) # os
            \<and> err = context_error ''client disconnected'' e \<and> part = take n event)
     \<or> wr_outcomes w = [] \<and> (\<exists>cs. wr_ctx_errs w = replicate k None @ Some err # cs) \<and> part = []"

lemma send_event_cancelled:
  assumes "wr_outcomes w = []"
  shows "wr_ctx_errs w = None # cs \<Longrightarrow>
      fst (send_event d w) = None \<and> wr_body (snd (send_event d w)) = wr_body w @ sse_event d
      \<and> wr_outcomes (snd (send_event d w)) = [] \<and> wr_ctx_errs (snd (send_event d w)) = cs"
    and "wr_ctx_errs w = Some e # cs \<Longrightarrow>
      fst (send_event d w) = Some e \<and> wr_body (snd (send_event d w)) = wr_body w"
  using assms
  by (auto simp: send_event_def context_err_def write_bytes_def accept_bytes_def send_status_def flush_def
      sse_event_def Let_def split: option.splits)

lemma send_event_gone:
  assumes "leaves_at 0 (sse_event d) w err part"
  shows "fst (send_event d w) = Some err \<and> wr_body (snd (send_event d w)) = wr_body w @ part"
  using assms send_event_outcome(2) [where w = w and d = d] send_event_cancelled(2) [where w = w and d = d]
  unfolding leaves_at_def by fastforce

lemma send_event_stays:
  assumes "leaves_at (Suc k) event w err part"
  shows "fst (send_event d w) = None \<and> wr_body (snd (send_event d w)) = wr_body w @ sse_event d
       \<and> leaves_at k event (snd (send_event d w)) err part"
  using assms send_event_outcome(1) [where w = w and d = d] send_event_cancelled(1) [where w = w and d = d]
  unfolding leaves_at_def by fastforce

lemma run_sends_stop:
  assumes "leaves_at (length before) (sse_event d) w err part"
  shows "fst (run_sends send_event (before @ d # after) w) = Some err
       \<and> wr_body (snd (run_sends send_event (before @ d # after) w)) = wr_body w @ sse before @ part"
  using assms
proof (induction before arbitrary: w)
  case Nil
  with send_event_gone [of d w err part] show ?case by (cases "send_event d w") (simp add: sse_def)
next
  case (Cons b before)
  then have "leaves_at (Suc (length before)) (sse_event d) w err part" by simp
  from send_event_stays [OF this, of b] Cons.IH [of "snd (send_event b w)"] show ?case
    by (cases "send_event b w") (simp add: sse_def)
qed

lemma status_send_event: "status_of w = Some c \<Longrightarrow> status_of (snd (send_event d w)) = Some c"
proof -
  assume w: "status_of w = Some c"
  obtain r1 w1 where c: "context_err w = (r1, w1)" by fastforce
  then have w1: "status_of w1 = Some c" using w wrap_status(3) [of w] by simp
  have "status_of w2 = Some c" if "write_bytes s w1 = (r2, w2)" for s r2 w2
    using write_bytes_status [of s w1] w1 that by simp
  with w1 show ?thesis
    unfolding send_event_def c by (auto split: option.splits prod.splits)
qed

lemma status_run_sends: "status_of w = Some c \<Longrightarrow> status_of (snd (run_sends send_event ds w)) = Some c"
proof (induction ds arbitrary: w)
  case (Cons d ds)
  then show ?case using status_send_event [of w c d] by (auto split: prod.splits option.splits)
qed simp

lemma upto_done_prefix: "''[DONE]'' \<notin> set ds \<Longrightarrow> \<exists>es'. upto_done (ds @ d # es) = ds @ d # es'"
  by (induction ds) auto

text \<open>
  C26: a client that goes away stops the stream at the event it misses. Whatever events the reply of
  the backend still holds, the client has received status 200, all events before that one and the
  part of it that went out, nothing is written afterwards, the handler returns, and the error of the
  client is logged.
\<close>

theorem disconnect_stops_stream:
  assumes env: "ev_enc_chat ev (req\<lparr>cr_Stream := True\<rparr>) = Inr body" "\<And>m u. ev_new_request ev m u = None"
      "\<And>cl rq. ev_do ev cl rq = Inr resp"
    and reply: "rp_status resp = 200" "rp_body resp = sse (before @ d # after)"
    and plain: "\<forall>d \<in> set (before @ d # after). plain_event d" "''[DONE]'' \<notin> set before"
    and b: "b = mlx_backend m \<or> b = ol_backend m'"
    and w: "is_flusher (gw_w g)" "wr_sent (gw_w g) = None" "wr_body (gw_w g) = []"
    and gone: "leaves_at (length before) (sse_event d) (gw_w g) err part"
  shows "fst (handleStream ev b req g) = Returned
       \<and> status_of (gw_w (snd (handleStream ev b req g))) = Some 200
       \<and> wr_body (gw_w (snd (handleStream ev b req g))) = sse before @ part
       \<and> ob_logs (gw_ob (snd (handleStream ev b req g))) = ob_logs (gw_ob g) @
           [\<lparr>lg_level = LevelError, lg_msg = ''stream error'',
             lg_attrs = [(''backend'', be_Name b), (''err'', err_msg err)]\<rparr>]"
proof -
  let ?w = "flush (write_header 200 (stream_headers (gw_w g)))"
  obtain es where sends: "upto_done (events (reply_lines resp)) = before @ d # es"
    unfolding reply_lines_sse(1) [OF reply(2) plain(1)] events_sse using upto_done_prefix [OF plain(2)] by blast
  have gone': "leaves_at (length before) (sse_event d) ?w err part"
    using gone stream_start(2,3) [OF w(2)] by (simp add: leaves_at_def)
  note stop = run_sends_stop [OF gone', of es]
  have "fst (scan_stream resp send_event ?w) = Some err"
    by (rule scan_stream_failed) (use stop sends in simp)
  moreover have "wr_body (snd (scan_stream resp send_event ?w)) = sse before @ part"
    unfolding scan_stream_sends sends using stop stream_start(1) [OF w(2)] w(3) by simp
  moreover have "status_of (snd (scan_stream resp send_event ?w)) = Some 200"
    unfolding scan_stream_sends by (rule status_run_sends) (rule stream_start(4) [OF w(2)])
  moreover have "be_ChatCompletionStream b ev req send_event ?w = scan_stream resp send_event ?w"
    by (rule adapter_stream [OF env reply(1) b])
  ultimately show ?thesis
    using w(1) by (cases "scan_stream resp send_event ?w") (simp add: handleStream_def Let_def)
qed

text \<open>The witness: three events, and a pipe that breaks within the second.\<close>

theorem disconnect_stops_stream_witness:
  "wr_body (gw_w (snd (handleStream (event_stream [''a'', ''b'', ''[DONE]'']) (mlx_backend (NewMLX ''m'' ''http://h'' 0 0))
      empty_chat (on_w (\<lambda>_. new_writer\<lparr>wr_outcomes := [None, Some (6, new_error ''broken pipe'')]\<rparr>) quiet_gateway))))
   = sse_event ''a'' @ ''data: ''"
  using disconnect_stops_stream [of "event_stream [''a'', ''b'', ''[DONE]'']" empty_chat "''{}''"
      "\<lparr>rp_status = 200, rp_header = Map.empty, rp_body = sse [''a'', ''b'', ''[DONE]''], rp_read_err = None, rp_err_early = False\<rparr>"
      "[''a'']" "''b''" "[''[DONE]'']" "mlx_backend (NewMLX ''m'' ''http://h'' 0 0)" "NewMLX ''m'' ''http://h'' 0 0" undefined
      "on_w (\<lambda>_. new_writer\<lparr>wr_outcomes := [None, Some (6, new_error ''broken pipe'')]\<rparr>) quiet_gateway"
      "context_error ''client disconnected'' (new_error ''broken pipe'')" "''data: ''"]
  by (simp add: event_stream_def quiet_gateway_def new_writer_def is_flusher_def plain_event_def stream_limit_def
      leaves_at_def sse_def sse_event_def)

text \<open>
  A backend that refuses a streamed request is not shown: the status 200 went out before it was asked,
  and the error is only logged.
\<close>

lemma refused_stream_not_shown:
  assumes "ev_enc_chat ev (req\<lparr>cr_Stream := True\<rparr>) = Inr body" "\<And>m u. ev_new_request ev m u = None"
    and "\<And>cl rq. ev_do ev cl rq = Inr resp" "rp_status resp \<noteq> 200" "b = mlx_backend m \<or> b = ol_backend m'"
    and w: "is_flusher (gw_w g)" "wr_sent (gw_w g) = None" "wr_body (gw_w g) = []"
  shows "status_of (gw_w (snd (handleStream ev b req g))) = Some 200
       \<and> wr_body (gw_w (snd (handleStream ev b req g))) = []"
proof -
  let ?w = "flush (write_header 200 (stream_headers (gw_w g)))"
  obtain e where "be_ChatCompletionStream b ev req send_event ?w = (Some e, ?w)"
    using assms(1-5)
    by (auto simp: mlx_backend_def ol_backend_def mlx_ChatCompletionStream_def ol_ChatCompletionStream_def)
  with stream_start [OF w(2)] w show ?thesis by (simp add: handleStream_def Let_def)
qed

end
