(* ===== verification/Key_Store.thy ===== *)
theory Key_Store
  imports Go_Error
begin

text \<open>
  API keys (\<open>internal/auth/keystore.go\<close>): a set of keys taken from an environment variable or
  from a file. What the operating system provides (the variable's value, the outcome of opening
  and reading the file) and the text of \<open>%q\<close> are arguments.
\<close>

section \<open>State and operations\<close>

record key_store =
  ks_keys :: "string set"

definition empty_key_store :: key_store where
  "empty_key_store = \<lparr>ks_keys = {}\<rparr>"

definition add_key :: "string \<Rightarrow> key_store \<Rightarrow> key_store" where
  "add_key k ks = ks\<lparr>ks_keys := insert k (ks_keys ks)\<rparr>"

definition Validate :: "key_store \<Rightarrow> string \<Rightarrow> gerr option" where
  "Validate ks key = (if key \<in> ks_keys ks then None else Some (sentinel_error ErrInvalidKey))"

definition Count :: "key_store \<Rightarrow> nat" where
  "Count ks = card (ks_keys ks)"

text \<open>\<open>bufio.MaxScanTokenSize\<close>, the scanner's default limit.\<close>

definition max_key_line :: nat where
  "max_key_line = 65536"

fun load_lines :: "string list \<Rightarrow> key_store \<Rightarrow> key_store" where
  "load_lines [] ks = ks"
| "load_lines (text # rest) ks =
     (let line = trim_space text
      in if line = [] \<or> has_prefix ''#'' line then load_lines rest ks
         else load_lines rest (add_key line ks))"

text \<open>An opened file is its contents and the error that reading it ends with, if any.\<close>

definition loadFile :: "gerr + (string \<times> gerr option) \<Rightarrow> key_store \<Rightarrow> gerr option \<times> key_store" where
  "loadFile file ks =
     (case file of
        Inl e \<Rightarrow> (Some e, ks)
      | Inr (content, read_err) \<Rightarrow>
          ((if scan_too_long max_key_line content then Some (sentinel_error ErrTooLong) else read_err),
           load_lines (scan_lines max_key_line content) ks))"

fun load_pieces :: "string list \<Rightarrow> key_store \<Rightarrow> key_store" where
  "load_pieces [] ks = ks"
| "load_pieces (k # rest) ks =
     (let key = trim_space k
      in if key = [] then load_pieces rest ks else load_pieces rest (add_key key ks))"

definition NewKeyStore ::
  "(string \<Rightarrow> string) \<Rightarrow> string \<Rightarrow> (string \<Rightarrow> gerr + (string \<times> gerr option)) \<Rightarrow> string \<Rightarrow> gerr + key_store" where
  "NewKeyStore quote env_keys open_file path =
     (if env_keys \<noteq> [] then
        let ks = load_pieces (split_on (CHR '','') env_keys) empty_key_store
        in if ks_keys ks = {}
           then Inl (new_error ''INFERENCIA_API_KEYS is set but contains no valid keys'')
           else Inr ks
      else if path = [] then
        Inl (new_error ''no keys file path provided and INFERENCIA_API_KEYS is not set'')
      else case loadFile (open_file path) empty_key_store of
             (Some e, ks) \<Rightarrow> Inl (context_error ''load keys file'' e)
           | (None, ks) \<Rightarrow>
               if ks_keys ks = {}
               then Inl (new_error (''keys file '' @ quote path @ '' contains no valid keys''))
               else Inr ks)"

section \<open>Which keys are stored\<close>

lemma load_pieces_keys:
  "ks_keys (load_pieces ps ks) = ks_keys ks \<union> {trim_space p | p. p \<in> set ps \<and> trim_space p \<noteq> []}"
  by (induction ps arbitrary: ks) (auto simp: add_key_def Let_def)

lemma load_lines_keys:
  "ks_keys (load_lines ls ks) =
     ks_keys ks \<union> {trim_space l | l. l \<in> set ls \<and> trim_space l \<noteq> [] \<and> \<not> has_prefix ''#'' (trim_space l)}"
  by (induction ls arbitrary: ks) (auto simp: add_key_def Let_def)

definition env_key_set :: "string \<Rightarrow> string set" where
  "env_key_set env = {trim_space p | p. p \<in> set (split_on (CHR '','') env) \<and> trim_space p \<noteq> []}"

definition file_key_set :: "string \<Rightarrow> string set" where
  "file_key_set content =
     {trim_space l | l. l \<in> set (map drop_cr (raw_lines content)) \<and> trim_space l \<noteq> []
                        \<and> \<not> has_prefix ''#'' (trim_space l)}"

section \<open>Properties\<close>

text \<open>
  C32: a key store is created exactly when the configured source yields a key, and then it holds
  precisely the keys of that source: the pieces of the variable when it is set, otherwise the
  lines of the file that are neither empty nor comments, all trimmed. A file that cannot be read
  to its end yields no store.
\<close>

theorem NewKeyStore_correct:
  "(case NewKeyStore quote env_keys open_file path of
      Inr ks \<Rightarrow> Some (ks_keys ks)
    | Inl e \<Rightarrow> None) =
   (let source = (if env_keys \<noteq> [] then Some (env_key_set env_keys)
                  else if path = [] then None
                  else case open_file path of
                         Inr (content, None) \<Rightarrow>
                           if scan_too_long max_key_line content then None else Some (file_key_set content)
                       | _ \<Rightarrow> None)
    in if source = Some {} then None else source)"
proof (cases "env_keys = []")
  case False
  then show ?thesis
    by (simp add: NewKeyStore_def Let_def load_pieces_keys env_key_set_def empty_key_store_def)
next
  case env: True
  show ?thesis
  proof (cases "path = [] \<or> isl (open_file path)")
    case True
    with env show ?thesis
      by (cases "open_file path") (auto simp: NewKeyStore_def loadFile_def)
  next
    case False
    then obtain content rerr where opened: "open_file path = Inr (content, rerr)"
      by (cases "open_file path") auto
    show ?thesis
    proof (cases "scan_too_long max_key_line content")
      case True
      with env False opened show ?thesis by (simp add: NewKeyStore_def loadFile_def split: option.splits)
    next
      case short: False
      with env False opened show ?thesis
        by (cases rerr)
          (simp_all add: NewKeyStore_def loadFile_def load_lines_keys file_key_set_def empty_key_store_def
            scan_lines_all Let_def)
    qed
  qed
qed

text \<open>
  Every key that a store accepts is non-empty and carries no surrounding white space, and a
  store that was created accepts at least one key.
\<close>

theorem accepted_keys_trimmed:
  assumes "NewKeyStore quote env_keys open_file path = Inr ks"
  shows "(\<forall>key. Validate ks key = None \<longrightarrow> key \<noteq> [] \<and> trim_space key = key)
         \<and> (\<exists>key. Validate ks key = None)"
proof -
  have keys: "ks_keys ks \<noteq> {} \<and> (ks_keys ks = env_key_set env_keys \<or> (\<exists>c. ks_keys ks = file_key_set c))"
    using NewKeyStore_correct [of quote env_keys open_file path] assms
    by (auto simp: Let_def split: if_splits sum.splits prod.splits option.splits)
  have "trim_space key = key \<and> key \<noteq> []" if "key \<in> ks_keys ks" for key
    using that keys by (auto simp: env_key_set_def file_key_set_def)
  with keys show ?thesis by (auto simp: Validate_def)
qed

theorem accepted_keys_trimmed_witness:
  "\<exists>ks. NewKeyStore (\<lambda>s. s) [CHR '' '', CHR ''k'', CHR '' '', CHR '',''] (\<lambda>_. Inl (new_error [])) [] = Inr ks
        \<and> Validate ks [] \<noteq> None"
proof -
  let ?env = "[CHR '' '', CHR ''k'', CHR '' '', CHR '','']"
  have "trim_space [CHR '' '', CHR ''k'', CHR '' ''] = [CHR ''k'']"
    by (simp add: trim_space_def strip_any.simps space_seqs_def has_prefix_def)
  then have new: "NewKeyStore (\<lambda>s. s) ?env (\<lambda>_. Inl (new_error [])) [] = Inr \<lparr>ks_keys = {[CHR ''k'']}\<rparr>"
    by (simp add: NewKeyStore_def Let_def empty_key_store_def add_key_def)
  show ?thesis
    using accepted_keys_trimmed [OF new] new by (auto simp: Validate_def)
qed

end
