(* ===== verification/Middleware.thy ===== *)
theory Middleware
  imports Gateway Key_Store
begin

text \<open>
  The package \<open>middleware\<close>: each middleware as a function from handlers to handlers, their
  composition, and the stack every authenticated route runs in. A deferred function runs on
  both outcomes of the inner handler; the code after a call runs only when it returns.
\<close>

section \<open>Chain\<close>

definition Chain :: "handler \<Rightarrow> middleware list \<Rightarrow> handler" where
  "Chain h mw = foldr (\<lambda>m h. m h) mw h"

section \<open>RequestID\<close>

definition fallbackID :: string where
  "fallbackID = ''inferencia-fallback-request-id''"

definition hex_encode :: "string \<Rightarrow> string" where
  "hex_encode bs = concat (map (\<lambda>c. [hex_digit (byte c div 16), hex_digit (byte c mod 16)]) bs)"

definition generateID :: "runtime \<Rightarrow> string" where
  "generateID rt = hex_encode (case rt_rand rt of Some b \<Rightarrow> b | None \<Rightarrow> take 16 fallbackID)"

definition request_id :: "runtime \<Rightarrow> request \<Rightarrow> string" where
  "request_id rt r =
     (let id = get_or_empty (rq_header r) ''X-Request-ID'' in if id = [] then generateID rt else id)"

definition RequestID :: "runtime \<Rightarrow> middleware" where
  "RequestID rt next_h r g =
     (let id = request_id rt r
      in next_h (with_value CtxRequestID id r) (on_w (set_header ''X-Request-ID'' id) g))"

definition RequestIDFromContext :: "request \<Rightarrow> string" where
  "RequestIDFromContext r = get_or_empty (rq_ctx r) CtxRequestID"

section \<open>Recover\<close>

definition recovered :: "runtime \<Rightarrow> request \<Rightarrow> string \<Rightarrow> gateway \<Rightarrow> gateway" where
  "recovered rt r err g =
     answer_with (Some (Internal ''Internal server error.''))
       (write_log LevelError ''panic recovered''
          [(''error'', err), (''stack'', rt_stack rt), (''method'', rq_method r), (''path'', rq_path r)] g)"

definition Recover :: "runtime \<Rightarrow> middleware" where
  "Recover rt next_h r g =
     (case next_h r g of
        (Panicked err, g') \<Rightarrow> (Returned, recovered rt r err g')
      | (Returned, g') \<Rightarrow> (Returned, g'))"

section \<open>Metrics\<close>

definition normalizePath :: "string \<Rightarrow> string" where
  "normalizePath path =
     (if path \<in> set [''/v1/chat/completions'', ''/v1/models'', ''/v1/embeddings'', ''/v1/audio/speech'',
                    ''/health'', ''/health/ready'', ''/health/status'', ''/metrics'', ''/openapi.yaml'', ''/docs'']
      then path else ''/other'')"

definition count_request :: "request \<Rightarrow> string \<Rightarrow> gateway \<Rightarrow> gateway" where
  "count_request r path g =
     (let status = itoa (sw_status (top_wrap (gw_w g)))
      in count (MObserve HttpRequestDuration [rq_method r, path])
           (snd (read_clock (count (MInc HttpRequestsTotal [rq_method r, path, status]) g))))"

definition Metrics :: middleware where
  "Metrics next_h r g =
     (let path = normalizePath (rq_path r);
          g1 = on_w push_wrap (count (MInc HttpRequestsInFlight []) (snd (read_clock g)))
      in case next_h r g1 of
           (Panicked err, g2) \<Rightarrow> (Panicked err, count (MDec HttpRequestsInFlight []) (on_w pop_wrap g2))
         | (Returned, g2) \<Rightarrow>
             (Returned, count (MDec HttpRequestsInFlight []) (on_w pop_wrap (count_request r path g2))))"

section \<open>Auth\<close>

definition extractBearerToken :: "request \<Rightarrow> string option" where
  "extractBearerToken r =
     (let h = get_or_empty (rq_header r) ''Authorization''; prefix = ''Bearer ''
      in if h = [] then None
         else if length h < length prefix \<or> \<not> equal_fold (take (length prefix) h) prefix then None
         else let token = trim_space (drop (length prefix) h)
              in if token = [] then None else Some token)"

definition Auth :: "key_store \<Rightarrow> middleware" where
  "Auth ks next_h r g =
     (case extractBearerToken r of
        None \<Rightarrow>
          (Returned, answer_with
             (Some (Unauthorized ''Missing or malformed Authorization header. Expected: Bearer <api_key>'')) g)
      | Some key \<Rightarrow>
          (case Validate ks key of
             Some err \<Rightarrow> (Returned, answer_with (Some (Unauthorized ''Invalid API key.'')) g)
           | None \<Rightarrow> next_h (with_value CtxAPIKey key r) g))"

definition APIKeyFromContext :: "request \<Rightarrow> string" where
  "APIKeyFromContext r = get_or_empty (rq_ctx r) CtxAPIKey"

section \<open>Logging\<close>

definition maskKey :: "string \<Rightarrow> string" where
  "maskKey key = (if length key \<le> 8 then ''***'' else ''...'' @ drop (length key - 8) key)"

definition milliseconds :: "int \<Rightarrow> int" where
  "milliseconds d = sgn d * (\<bar>d\<bar> div 1000000)"

definition request_attrs :: "request \<Rightarrow> status_writer \<Rightarrow> int \<Rightarrow> (string \<times> string) list" where
  "request_attrs r sw elapsed =
     [(''request_id'', RequestIDFromContext r), (''method'', rq_method r), (''path'', rq_path r),
      (''status'', itoa (sw_status sw)), (''duration_ms'', itoa (milliseconds elapsed)),
      (''bytes'', itoa (sw_bytes sw)), (''remote_addr'', rq_remote r),
      (''user_agent'', get_or_empty (rq_header r) ''User-Agent'')]
     @ (let key = APIKeyFromContext r in if key = [] then [] else [(''api_key'', maskKey key)])"

definition status_level :: "int \<Rightarrow> level" where
  "status_level status =
     (if 500 \<le> status then LevelError else if 400 \<le> status then LevelWarn else LevelInfo)"

definition Logging :: middleware where
  "Logging next_h r g =
     (let (start, g0) = read_clock g
      in case next_h r (on_w push_wrap g0) of
           (Panicked err, g1) \<Rightarrow> (Panicked err, on_w pop_wrap g1)
         | (Returned, g1) \<Rightarrow>
             let sw = top_wrap (gw_w g1); (stop, g2) = read_clock g1
             in (Returned, on_w pop_wrap
                   (write_log (status_level (sw_status sw)) ''request'' (request_attrs r sw (stop - start)) g2)))"

section \<open>RateLimit\<close>

definition set_limiter :: "limiter_id \<Rightarrow> limiter \<Rightarrow> gateway \<Rightarrow> gateway" where
  "set_limiter i l g = g\<lparr>gw_rl := (gw_rl g)(i := l)\<rparr>"

definition RateLimit :: "limiter_id \<Rightarrow> middleware" where
  "RateLimit i next_h r g =
     (let key = APIKeyFromContext r
      in if key = [] then next_h r g
         else let (now, g0) = read_clock g;
                  (remaining, ok, l) = Allow key now (gw_rl g0 i);
                  g1 = set_limiter i l g0;
                  burst = itoa (rl_burst l)
              in if \<not> ok
                 then (Returned,
                       answer_with (Some RateLimited)
                         (on_w (set_header ''Retry-After'' ''1'' \<circ> set_header ''X-RateLimit-Remaining'' ''0''
                                \<circ> set_header ''X-RateLimit-Limit'' burst)
                            (count (MInc RateLimitRejections []) g1)))
                 else next_h r
                        (on_w (set_header ''X-RateLimit-Remaining'' (itoa remaining)
                               \<circ> set_header ''X-RateLimit-Limit'' burst) g1))"

text \<open>The two outcomes for a request that carries a key.\<close>

definition limited :: "limiter_id \<Rightarrow> limiter \<Rightarrow> gateway \<Rightarrow> gateway" where
  "limited i l g =
     on_w (set_header ''Retry-After'' ''1'' \<circ> set_header ''X-RateLimit-Remaining'' ''0''
           \<circ> set_header ''X-RateLimit-Limit'' (itoa (rl_burst l)))
       (count (MInc RateLimitRejections []) (set_limiter i l (snd (read_clock g))))"

definition admitted :: "limiter_id \<Rightarrow> int \<Rightarrow> limiter \<Rightarrow> gateway \<Rightarrow> gateway" where
  "admitted i remaining l g =
     on_w (set_header ''X-RateLimit-Remaining'' (itoa remaining) \<circ> set_header ''X-RateLimit-Limit'' (itoa (rl_burst l)))
       (set_limiter i l (snd (read_clock g)))"

lemma RateLimit_key:
  assumes "APIKeyFromContext r \<noteq> []"
    and "Allow (APIKeyFromContext r) (gw_clock g (gw_reads g)) (gw_rl g i) = (n, ok, l)"
  shows "RateLimit i h r g =
     (if ok then h r (admitted i n l g) else (Returned, answer_with (Some RateLimited) (limited i l g)))"
  using assms by (simp add: RateLimit_def read_clock_def limited_def admitted_def)

lemma limited_simps [simp]:
  "gw_reg (limited i l g) = gw_reg g" "gw_router (limited i l g) = gw_router g"
  "gw_rl (limited i l g) = (gw_rl g)(i := l)" "gw_clock (limited i l g) = gw_clock g"
  "ob_logs (gw_ob (limited i l g)) = ob_logs (gw_ob g)"
  "ob_metrics (gw_ob (limited i l g)) = ob_metrics (gw_ob g) @ [MInc RateLimitRejections []]"
  "wr_sent (gw_w (limited i l g)) = wr_sent (gw_w g)" "wr_wrap (gw_w (limited i l g)) = wr_wrap (gw_w g)"
  "status_of (gw_w (limited i l g)) = status_of (gw_w g)" "synced (gw_w (limited i l g)) = synced (gw_w g)"
  "wr_hdr (gw_w (limited i l g)) = (wr_hdr (gw_w g))(''X-RateLimit-Limit'' \<mapsto> itoa (rl_burst l),
     ''X-RateLimit-Remaining'' \<mapsto> ''0'', ''Retry-After'' \<mapsto> ''1'')"
  by (simp_all add: limited_def set_limiter_def)

lemma admitted_simps [simp]:
  "gw_reg (admitted i n l g) = gw_reg g" "gw_router (admitted i n l g) = gw_router g"
  "gw_rl (admitted i n l g) = (gw_rl g)(i := l)" "gw_clock (admitted i n l g) = gw_clock g"
  "gw_ob (admitted i n l g) = gw_ob g"
  "wr_sent (gw_w (admitted i n l g)) = wr_sent (gw_w g)" "wr_wrap (gw_w (admitted i n l g)) = wr_wrap (gw_w g)"
  "status_of (gw_w (admitted i n l g)) = status_of (gw_w g)" "synced (gw_w (admitted i n l g)) = synced (gw_w g)"
  "wr_hdr (gw_w (admitted i n l g)) = (wr_hdr (gw_w g))(''X-RateLimit-Limit'' \<mapsto> itoa (rl_burst l),
     ''X-RateLimit-Remaining'' \<mapsto> itoa n)"
  by (simp_all add: admitted_def set_limiter_def)

section \<open>The stack of the authenticated routes\<close>

definition protected :: "runtime \<Rightarrow> key_store \<Rightarrow> limiter_id \<Rightarrow> middleware" where
  "protected rt ks i h =
     Chain h [RequestID rt, Recover rt, Metrics, Logging, Auth ks, RateLimit i]"

end
