(* ===== verification/Protected.thy ===== *)
theory Protected
  imports Middleware
begin

text \<open>
  What the stack of the authenticated routes guarantees for every handler put into it: who gets
  in, what a refused request leaves behind, what happens to a panic, and that the counters and
  the log line agree with what the client was sent.
\<close>

section \<open>The stack as a whole\<close>

definition valid_key :: "key_store \<Rightarrow> request \<Rightarrow> string \<Rightarrow> bool" where
  "valid_key ks r key \<longleftrightarrow> extractBearerToken r = Some key \<and> key \<in> ks_keys ks"

abbreviation identified :: "runtime \<Rightarrow> request \<Rightarrow> request" where
  "identified rt r \<equiv> with_value CtxRequestID (request_id rt r) r"

text \<open>The state in which \<open>Auth\<close> runs: the identifier is set, two status writers are around.\<close>

definition entered :: "runtime \<Rightarrow> request \<Rightarrow> gateway \<Rightarrow> gateway" where
  "entered rt r g =
     on_w push_wrap (snd (read_clock
       (on_w push_wrap (count (MInc HttpRequestsInFlight [])
         (snd (read_clock (on_w (set_header ''X-Request-ID'' (request_id rt r)) g)))))))"

text \<open>What follows a handler that returned, and one that panicked.\<close>

definition left_well :: "request \<Rightarrow> int \<Rightarrow> gateway \<Rightarrow> gateway" where
  "left_well r start g =
     (let sw = top_wrap (gw_w g); (stop, g1) = read_clock g;
          g2 = on_w pop_wrap (write_log (status_level (sw_status sw)) ''request'' (request_attrs r sw (stop - start)) g1)
      in count (MDec HttpRequestsInFlight []) (on_w pop_wrap (count_request r (normalizePath (rq_path r)) g2)))"

definition left_panicking :: "runtime \<Rightarrow> request \<Rightarrow> string \<Rightarrow> gateway \<Rightarrow> gateway" where
  "left_panicking rt r err g =
     recovered rt r err (count (MDec HttpRequestsInFlight []) (on_w pop_wrap (on_w pop_wrap g)))"

lemma protected_unfold:
  "protected rt ks i h r g =
     (case Auth ks (RateLimit i h) (identified rt r) (entered rt r g) of
        (Returned, g') \<Rightarrow> (Returned, left_well (identified rt r) (gw_clock g (Suc (gw_reads g))) g')
      | (Panicked err, g') \<Rightarrow> (Returned, left_panicking rt (identified rt r) err g'))"
  by (simp add: protected_def Chain_def RequestID_def Recover_def Metrics_def Logging_def entered_def
      left_well_def left_panicking_def Let_def read_clock_def on_w_def count_def
      split: prod.splits flow.splits)

lemma identified_simps [simp]:
  "extractBearerToken (with_value k v r) = extractBearerToken r"
  "APIKeyFromContext (with_value CtxRequestID v r) = APIKeyFromContext r"
  "APIKeyFromContext (with_value CtxAPIKey v r) = v"
  by (simp_all add: extractBearerToken_def APIKeyFromContext_def)

lemma entered_simps [simp]:
  "gw_reg (entered rt r g) = gw_reg g" "gw_router (entered rt r g) = gw_router g"
  "gw_rl (entered rt r g) = gw_rl g" "gw_clock (entered rt r g) = gw_clock g"
  "gw_reads (entered rt r g) = gw_reads g + 2"
  "ob_logs (gw_ob (entered rt r g)) = ob_logs (gw_ob g)"
  "ob_metrics (gw_ob (entered rt r g)) = ob_metrics (gw_ob g) @ [MInc HttpRequestsInFlight []]"
  "wr_wrap (gw_w (entered rt r g)) = new_status_writer # new_status_writer # wr_wrap (gw_w g)"
  "status_of (gw_w (entered rt r g)) = status_of (gw_w g)"
  "wr_sent (gw_w (entered rt r g)) = wr_sent (gw_w g)"
  "wr_body (gw_w (entered rt r g)) = wr_body (gw_w g)"
  "wr_outcomes (gw_w (entered rt r g)) = wr_outcomes (gw_w g)"
  "wr_hdr (gw_w (entered rt r g)) = (wr_hdr (gw_w g))(''X-Request-ID'' \<mapsto> request_id rt r)"
  by (simp_all add: entered_def)

lemma left_well_simps [simp]:
  "gw_reg (left_well r t g) = gw_reg g" "gw_router (left_well r t g) = gw_router g"
  "gw_rl (left_well r t g) = gw_rl g" "status_of (gw_w (left_well r t g)) = status_of (gw_w g)"
  "wr_sent (gw_w (left_well r t g)) = wr_sent (gw_w g)" "wr_body (gw_w (left_well r t g)) = wr_body (gw_w g)"
  "wr_wrap (gw_w (left_well r t g)) = tl (tl (wr_wrap (gw_w g)))"
  by (simp_all add: left_well_def count_request_def Let_def read_clock_def)

lemma left_panicking_simps [simp]:
  "gw_reg (left_panicking rt r e g) = gw_reg g" "gw_router (left_panicking rt r e g) = gw_router g"
  "gw_rl (left_panicking rt r e g) = gw_rl g"
  by (simp_all add: left_panicking_def recovered_def)

section \<open>Who gets in\<close>

lemma no_key_refused:
  assumes "\<nexists>key. valid_key ks r key" and "status_of (gw_w g) = None"
  shows "fst (protected rt ks i h r g) = Returned
       \<and> status_of (gw_w (snd (protected rt ks i h r g))) = Some 401
       \<and> gw_rl (snd (protected rt ks i h r g)) = gw_rl g
       \<and> gw_reg (snd (protected rt ks i h r g)) = gw_reg g
       \<and> gw_router (snd (protected rt ks i h r g)) = gw_router g
       \<and> (\<forall>h'. protected rt ks i h' r g = protected rt ks i h r g)"
proof -
  obtain m where refused: "Auth ks f (identified rt r) (entered rt r g) =
      (Returned, answer_with (Some (Unauthorized m)) (entered rt r g))" for f
  proof (cases "extractBearerToken r")
    case None
    show ?thesis
      by (rule that [of "''Missing or malformed Authorization header. Expected: Bearer <api_key>''"])
        (simp add: Auth_def None)
  next
    case (Some key)
    with assms(1) have "key \<notin> ks_keys ks" by (auto simp: valid_key_def)
    show ?thesis
      by (rule that [of "''Invalid API key.''"]) (simp add: Auth_def Some Validate_def \<open>key \<notin> ks_keys ks\<close>)
  qed
  show ?thesis
    unfolding protected_unfold refused using assms(2)
    by (simp add: api_write_status Unauthorized_def)
qed

text \<open>The witness: a gateway at rest, one stored key, and a handler that greets.\<close>

definition resting :: gateway where
  "resting =
     \<lparr>gw_reg = NewRegistry, gw_router = NewRouter, gw_rl = (\<lambda>_. NewRateLimiter (Fin 10) 1), gw_clock = (\<lambda>_. 0),
      gw_reads = 0, gw_w = new_writer, gw_ob = no_observed\<rparr>"

definition bearing :: "string \<Rightarrow> request" where
  "bearing auth =
     \<lparr>rq_method = ''GET'', rq_path = ''/v1/models'', rq_header = [''Authorization'' \<mapsto> auth], rq_body = [],
      rq_remote = ''::1'', rq_ctx = Map.empty\<rparr>"

definition one_key :: key_store where
  "one_key = \<lparr>ks_keys = {''sk-0123456789''}\<rparr>"

definition plain_runtime :: runtime where
  "plain_runtime =
     \<lparr>rt_rand = Some ''0123456789abcdef'', rt_stack = [], rt_add = (\<lambda>v. if v < 0 then Some ''counter cannot decrease in value'' else None),
      rt_dec_chat = (\<lambda>_. Inl (new_error ''EOF'')), rt_dec_embed = (\<lambda>_. Inl (new_error ''EOF'')),
      rt_dec_tts = (\<lambda>_. Inl (new_error ''EOF'')), rt_enc_chat_resp = (\<lambda>_. Inr ''{}''),
      rt_enc_models_resp = (\<lambda>_. Inr ''{}''), rt_enc_embed_resp = (\<lambda>_. Inr ''{}'')\<rparr>"

lemma resting_simps [simp]:
  "gw_w resting = new_writer" "gw_rl resting = (\<lambda>_. NewRateLimiter (Fin 10) 1)"
  "gw_clock resting n = 0" "status_of new_writer = None" "gw_ob resting = no_observed"
  "wr_wrap new_writer = []" "gw_reads resting = 0"
  by (simp_all add: resting_def new_writer_def status_of_def)

lemma bearing_tokens:
  "extractBearerToken (bearing ''Bearer sk-0123456789'') = Some ''sk-0123456789''"
  "extractBearerToken (bearing ''Basic c2VjcmV0'') = None"
  by (simp_all add: bearing_def) code_simp+

text \<open>
  C11: a request without a stored key never reaches the handler. Whatever the handler is, the
  client gets 401, and neither a rate limiter nor a registry is touched.
\<close>

theorem no_key_no_entry:
  assumes "\<nexists>key. valid_key ks r key" and "status_of (gw_w g) = None"
  shows "fst (protected rt ks i h r g) = Returned
       \<and> status_of (gw_w (snd (protected rt ks i h r g))) = Some 401
       \<and> gw_rl (snd (protected rt ks i h r g)) = gw_rl g
       \<and> gw_reg (snd (protected rt ks i h r g)) = gw_reg g
       \<and> gw_router (snd (protected rt ks i h r g)) = gw_router g
       \<and> (\<forall>h'. protected rt ks i h' r g = protected rt ks i h r g)"
  using assms by (rule no_key_refused)

theorem no_key_no_entry_witness:
  "status_of (gw_w (snd (protected plain_runtime one_key ApiLimiter (\<lambda>r g. (Returned, g)) (bearing ''Basic c2VjcmV0'') resting))) = Some 401"
  using no_key_no_entry [of one_key "bearing ''Basic c2VjcmV0''" resting plain_runtime ApiLimiter "\<lambda>r g. (Returned, g)"]
  by (simp add: valid_key_def bearing_tokens)

text \<open>
  C13: a request with a stored key whose bucket is empty is answered 429 with the headers a client
  needs to wait, is counted as a rejection, and never reaches the handler.
\<close>

theorem limited_no_entry:
  assumes "valid_key ks r key" and "key \<noteq> []" and "status_of (gw_w g) = None"
    and "Allow key (gw_clock g (gw_reads g + 2)) (gw_rl g i) = (n, False, l)"
  shows "fst (protected rt ks i h r g) = Returned
       \<and> status_of (gw_w (snd (protected rt ks i h r g))) = Some 429
       \<and> sent_header (gw_w (snd (protected rt ks i h r g))) ''Retry-After'' = Some ''1''
       \<and> sent_header (gw_w (snd (protected rt ks i h r g))) ''X-RateLimit-Remaining'' = Some ''0''
       \<and> sent_header (gw_w (snd (protected rt ks i h r g))) ''X-RateLimit-Limit'' = Some (itoa (rl_burst l))
       \<and> MInc RateLimitRejections [] \<in> set (ob_metrics (gw_ob (snd (protected rt ks i h r g))))
       \<and> gw_rl (snd (protected rt ks i h r g)) = (gw_rl g)(i := l)
       \<and> gw_reg (snd (protected rt ks i h r g)) = gw_reg g
       \<and> (\<forall>h'. protected rt ks i h' r g = protected rt ks i h r g)"
proof -
  let ?g = "limited i l (entered rt r g)"
  have refused: "Auth ks (RateLimit i f) (identified rt r) (entered rt r g) =
      (Returned, answer_with (Some RateLimited) ?g)" for f
    using assms by (simp add: Auth_def valid_key_def Validate_def RateLimit_key)
  have sent: "wr_sent (api_write (Some RateLimited) (gw_w ?g)) =
      Some (429, (wr_hdr (gw_w ?g))(''Content-Type'' \<mapsto> ''application/json''))"
    using assms(3) by (simp add: api_write_sent RateLimited_def status_of_def)
  have kept: "set (ob_metrics (gw_ob g')) \<subseteq> set (ob_metrics (gw_ob (left_well r' t g')))" for r' t g'
    by (auto simp: left_well_def count_request_def Let_def read_clock_def)
  show ?thesis
    unfolding protected_unfold refused using sent kept [of "answer_with (Some RateLimited) ?g"]
    by (auto simp: status_of_def sent_header_def)
qed

text \<open>A bucket of one token that was just used up.\<close>

definition used_up :: limiter where
  "used_up = (NewRateLimiter (Fin 10) 1)\<lparr>rl_buckets := [''sk-0123456789'' \<mapsto> \<lparr>bk_tokens = Fin (of_int 0), bk_lastSeen = 0\<rparr>]\<rparr>"

lemma used_up_refuses: "Allow ''sk-0123456789'' 0 used_up = (0, False, used_up)"
  using refill_same_time [of 0 1 10 0] take_token_int [of 0 0]
  by (simp add: used_up_def Allow_def NewRateLimiter_def bucket_or_new_def)

theorem limited_no_entry_witness:
  "status_of (gw_w (snd (protected plain_runtime one_key ApiLimiter (\<lambda>r g. (Returned, g)) (bearing ''Bearer sk-0123456789'')
     (resting\<lparr>gw_rl := \<lambda>_. used_up\<rparr>)))) = Some 429"
  using limited_no_entry [of one_key "bearing ''Bearer sk-0123456789''" "''sk-0123456789''"
      "resting\<lparr>gw_rl := \<lambda>_. used_up\<rparr>" ApiLimiter 0 used_up plain_runtime "\<lambda>r g. (Returned, g)"] used_up_refuses
  by (simp add: valid_key_def bearing_tokens one_key_def resting_def new_writer_def status_of_def)

section \<open>Who is let in\<close>

lemma protected_admits:
  assumes "valid_key ks r key" and "key \<noteq> []"
    and "Allow key (gw_clock g (gw_reads g + 2)) (gw_rl g i) = (n, True, l)"
  shows "Auth ks (RateLimit i h) (identified rt r) (entered rt r g) =
           h (with_value CtxAPIKey key (identified rt r)) (admitted i n l (entered rt r g))"
  using assms by (simp add: Auth_def valid_key_def Validate_def RateLimit_key)

text \<open>
  C12: a panic of a handler is contained: the client gets 500 unless a status was sent before, and
  the panic is logged. The request leaves no canonical log line and is not counted in
  \<open>requests_total\<close>; only the in-flight gauge is taken back.
\<close>

theorem panic_contained:
  assumes "valid_key ks r key" and "key \<noteq> []"
    and "Allow key (gw_clock g (gw_reads g + 2)) (gw_rl g i) = (n, True, l)"
    and "h (with_value CtxAPIKey key (identified rt r)) (admitted i n l (entered rt r g)) = (Panicked err, g1)"
  shows "fst (protected rt ks i h r g) = Returned
       \<and> status_of (gw_w (snd (protected rt ks i h r g))) =
           (case status_of (gw_w g1) of None \<Rightarrow> Some 500 | Some c \<Rightarrow> Some c)
       \<and> ob_logs (gw_ob (snd (protected rt ks i h r g))) =
           ob_logs (gw_ob g1) @ [\<lparr>lg_level = LevelError, lg_msg = ''panic recovered'',
             lg_attrs = [(''error'', err), (''stack'', rt_stack rt), (''method'', rq_method r), (''path'', rq_path r)]\<rparr>]
       \<and> ob_metrics (gw_ob (snd (protected rt ks i h r g))) =
           ob_metrics (gw_ob g1) @ [MDec HttpRequestsInFlight []]"
  unfolding protected_unfold protected_admits [OF assms(1-3)] assms(4)
  by (cases "status_of (gw_w g1)")
    (simp_all add: left_panicking_def recovered_def api_write_def write_json_def Internal_def)

lemma fresh_bucket: "1 \<le> burst \<Longrightarrow> burst \<le> 2 ^ 53 \<Longrightarrow>
  \<exists>l. Allow key 0 (NewRateLimiter (Fin 10) burst) = (burst - 1, True, l)"
  using refill_fresh_bucket [of 10 burst 0] take_token_int [of burst 0]
  by (simp add: Allow_def NewRateLimiter_def)

theorem panic_contained_witness:
  "status_of (gw_w (snd (protected plain_runtime one_key ApiLimiter (\<lambda>r g. (Panicked ''boom'', g))
     (bearing ''Bearer sk-0123456789'') resting))) = Some 500"
proof -
  obtain l where "Allow ''sk-0123456789'' 0 (NewRateLimiter (Fin 10) 1) = (0, True, l)"
    using fresh_bucket [of 1 "''sk-0123456789''"] by auto
  then show ?thesis
    using panic_contained [of one_key "bearing ''Bearer sk-0123456789''" "''sk-0123456789''" resting ApiLimiter 0 l
        "\<lambda>r g. (Panicked ''boom'', g)" plain_runtime "''boom''"]
    by (simp add: valid_key_def bearing_tokens one_key_def)
qed

section \<open>The contract of a handler\<close>

text \<open>
  A handler leaves the status writers it runs in where they are and in agreement with what was
  sent, does not touch the gauge of requests in flight, and leaves the accounting of requests, the
  calls on \<open>requests_total\<close> and the canonical log lines, to the middleware. Whether it does may depend on the
  registries it finds, which the middleware leaves alone.
\<close>

locale well_behaved =
  fixes h :: handler and ok :: "registry \<Rightarrow> router \<Rightarrow> bool"
  assumes keeps_wraps: "ok (gw_reg g) (gw_router g) \<Longrightarrow>
      length (wr_wrap (gw_w (snd (h r g)))) = length (wr_wrap (gw_w g))"
    and keeps_synced: "ok (gw_reg g) (gw_router g) \<Longrightarrow> status_of (gw_w g) = None \<Longrightarrow> synced (gw_w g) \<Longrightarrow>
      synced (gw_w (snd (h r g)))"
    and keeps_gauge: "ok (gw_reg g) (gw_router g) \<Longrightarrow>
      gauge_level HttpRequestsInFlight (ob_metrics (gw_ob (snd (h r g)))) =
      gauge_level HttpRequestsInFlight (ob_metrics (gw_ob g))"
    and keeps_accounts: "ok (gw_reg g) (gw_router g) \<Longrightarrow> accounts (gw_ob (snd (h r g))) = accounts (gw_ob g)"
begin

text \<open>The two guards in front of the handler keep the contract.\<close>

lemma limited_ok:
  assumes "ok (gw_reg g) (gw_router g)"
  shows "length (wr_wrap (gw_w (snd (RateLimit i h r g)))) = length (wr_wrap (gw_w g))"
    and "status_of (gw_w g) = None \<Longrightarrow> synced (gw_w g) \<Longrightarrow> synced (gw_w (snd (RateLimit i h r g)))"
    and "gauge_level HttpRequestsInFlight (ob_metrics (gw_ob (snd (RateLimit i h r g)))) =
         gauge_level HttpRequestsInFlight (ob_metrics (gw_ob g))"
    and "accounts (gw_ob (snd (RateLimit i h r g))) = accounts (gw_ob g)"
proof -
  obtain n b l where allow: "Allow (APIKeyFromContext r) (gw_clock g (gw_reads g)) (gw_rl g i) = (n, b, l)"
    by (metis prod_cases3)
  have "length (wr_wrap (gw_w (snd (RateLimit i h r g)))) = length (wr_wrap (gw_w g))
    \<and> (status_of (gw_w g) = None \<longrightarrow> synced (gw_w g) \<longrightarrow> synced (gw_w (snd (RateLimit i h r g))))
    \<and> gauge_level HttpRequestsInFlight (ob_metrics (gw_ob (snd (RateLimit i h r g)))) =
        gauge_level HttpRequestsInFlight (ob_metrics (gw_ob g))
    \<and> accounts (gw_ob (snd (RateLimit i h r g))) = accounts (gw_ob g)"
  proof (cases "APIKeyFromContext r = []")
    case True
    then show ?thesis
      using keeps_wraps keeps_synced keeps_gauge keeps_accounts assms by (simp add: RateLimit_def)
  next
    case False
    show ?thesis
      unfolding RateLimit_key [OF False allow]
      using keeps_wraps [of "admitted i n l g" r] keeps_synced [of "admitted i n l g" r]
        keeps_gauge [of "admitted i n l g" r] keeps_accounts [of "admitted i n l g" r] assms synced_api_write [of "gw_w (limited i l g)"]
      by (simp add: call_delta_def)
  qed
  then show "length (wr_wrap (gw_w (snd (RateLimit i h r g)))) = length (wr_wrap (gw_w g))"
    "status_of (gw_w g) = None \<Longrightarrow> synced (gw_w g) \<Longrightarrow> synced (gw_w (snd (RateLimit i h r g)))"
    "gauge_level HttpRequestsInFlight (ob_metrics (gw_ob (snd (RateLimit i h r g)))) =
       gauge_level HttpRequestsInFlight (ob_metrics (gw_ob g))"
    "accounts (gw_ob (snd (RateLimit i h r g))) = accounts (gw_ob g)"
    by blast+
qed

lemma guarded: "well_behaved (Auth ks (RateLimit i h)) ok"
  by unfold_locales
    (auto simp: Auth_def limited_ok(1-3) limited_ok(4) [unfolded prod.inject] synced_api_write split: option.splits)

lemma entered_ok:
  assumes "ok (gw_reg g) (gw_router g)" "status_of (gw_w g) = None" "wr_wrap (gw_w g) = []"
    and "Auth ks (RateLimit i h) r' (entered rt r g) = (f, g1)"
  shows "synced (gw_w g1)" and "length (wr_wrap (gw_w g1)) = 2"
    and "gauge_level HttpRequestsInFlight (ob_metrics (gw_ob g1)) =
           gauge_level HttpRequestsInFlight (ob_metrics (gw_ob g)) + 1"
    and "accounts (gw_ob g1) = accounts (gw_ob g)"
proof -
  note guard = guarded [of ks i]
  have "synced (gw_w (entered rt r g))"
    using assms(2,3) by (simp add: synced_def new_status_writer_def)
  then show "synced (gw_w g1)"
    using well_behaved.keeps_synced [OF guard, of "entered rt r g" r'] assms by simp
  show "length (wr_wrap (gw_w g1)) = 2"
    using well_behaved.keeps_wraps [OF guard, of "entered rt r g" r'] assms by simp
  show "gauge_level HttpRequestsInFlight (ob_metrics (gw_ob g1)) =
      gauge_level HttpRequestsInFlight (ob_metrics (gw_ob g)) + 1"
    using well_behaved.keeps_gauge [OF guard, of "entered rt r g" r'] assms by (simp add: call_delta_def)
  show "accounts (gw_ob g1) = accounts (gw_ob g)"
    using well_behaved.keeps_accounts [OF guard, of "entered rt r g" r'] assms by simp
qed

text \<open>The gauge of requests in flight ends where it began, panic or not.\<close>

lemma gauge_balanced:
  assumes "ok (gw_reg g) (gw_router g)" "status_of (gw_w g) = None" "wr_wrap (gw_w g) = []"
  shows "gauge_level HttpRequestsInFlight (ob_metrics (gw_ob (snd (protected rt ks i h r g)))) =
         gauge_level HttpRequestsInFlight (ob_metrics (gw_ob g))"
proof -
  obtain f g1 where res: "Auth ks (RateLimit i h) (identified rt r) (entered rt r g) = (f, g1)" by fastforce
  from entered_ok(3) [OF assms res] show ?thesis
    unfolding protected_unfold res
    by (cases f) (simp_all add: left_well_def left_panicking_def recovered_def count_request_def Let_def
        read_clock_def call_delta_def)
qed

text \<open>A request that does not panic is counted and logged once, with the status the client got.\<close>

lemma accounted:
  assumes "ok (gw_reg g) (gw_router g)" "status_of (gw_w g) = None" "wr_wrap (gw_w g) = []"
    and anonymous: "rq_ctx r CtxAPIKey = None"
    and res: "Auth ks (RateLimit i h) (identified rt r) (entered rt r g) = (Returned, g1)"
    and s: "s = (case status_of (gw_w (snd (protected rt ks i h r g))) of None \<Rightarrow> 200 | Some c \<Rightarrow> c)"
  shows "\<exists>ms ls line.
      ob_metrics (gw_ob (snd (protected rt ks i h r g))) =
        ms @ [MInc HttpRequestsTotal [rq_method r, normalizePath (rq_path r), itoa s],
              MObserve HttpRequestDuration [rq_method r, normalizePath (rq_path r)], MDec HttpRequestsInFlight []]
    \<and> accounting ms = accounting (ob_metrics (gw_ob g))
    \<and> ob_logs (gw_ob (snd (protected rt ks i h r g))) = ls @ [line]
    \<and> canonical ls = canonical (ob_logs (gw_ob g))
    \<and> lg_msg line = ''request'' \<and> lg_level line = status_level s
    \<and> map fst (lg_attrs line) = [''request_id'', ''method'', ''path'', ''status'', ''duration_ms'', ''bytes'', ''remote_addr'', ''user_agent'']
    \<and> (''status'', itoa s) \<in> set (lg_attrs line)"
proof -
  obtain a b where wraps: "wr_wrap (gw_w g1) = [a, b]"
    using entered_ok(2) [OF assms(1-3) res] by (auto simp: numeral_2_eq_2 length_Suc_conv)
  have s1: "s = (case status_of (gw_w g1) of None \<Rightarrow> 200 | Some c \<Rightarrow> c)"
    using s unfolding protected_unfold res by simp
  have st: "sw_status a = s" "sw_status b = s"
    using entered_ok(1) [OF assms(1-3) res] wraps s1 by (auto simp: synced_def)
  have key: "APIKeyFromContext r = []"
    using anonymous by (simp add: APIKeyFromContext_def get_or_empty_def)
  let ?line = "\<lparr>lg_level = status_level s, lg_msg = ''request'',
    lg_attrs = request_attrs (identified rt r) a (gw_clock g1 (gw_reads g1) - gw_clock g (Suc (gw_reads g)))\<rparr>"
  show ?thesis
    unfolding protected_unfold res
    by (rule exI [of _ "ob_metrics (gw_ob g1)"], rule exI [of _ "ob_logs (gw_ob g1)"], rule exI [of _ ?line])
      (use entered_ok(4) [OF assms(1-3) res] in
        \<open>simp add: left_well_def count_request_def Let_def read_clock_def top_wrap_def wraps st request_attrs_def key\<close>)
qed

end

end
