(* ===== verification/Handler_Facts.thy ===== *)
theory Handler_Facts
  imports Stream_Handler Protected
begin

text \<open>
  What every API handler keeps: the contract \<open>well_behaved\<close> that the middleware relies on, and the
  in-flight counts of the registry a backend was taken from, which end where they began on every
  path, a panic included.
\<close>

section \<open>Steps that keep the contract\<close>

named_theorems quiet \<open>steps that send nothing\<close>
named_theorems tidy \<open>steps that keep the contract of a handler\<close>

definition quiet_step :: "gateway \<Rightarrow> gateway \<Rightarrow> bool" where
  "quiet_step g g' \<longleftrightarrow>
     length (wr_wrap (gw_w g')) = length (wr_wrap (gw_w g)) \<and> status_of (gw_w g') = status_of (gw_w g)
     \<and> synced (gw_w g') = synced (gw_w g)
     \<and> gauge_level HttpRequestsInFlight (ob_metrics (gw_ob g')) = gauge_level HttpRequestsInFlight (ob_metrics (gw_ob g))
     \<and> accounts (gw_ob g') = accounts (gw_ob g)"

definition tidy_step :: "gateway \<Rightarrow> gateway \<Rightarrow> bool" where
  "tidy_step g g' \<longleftrightarrow>
     length (wr_wrap (gw_w g')) = length (wr_wrap (gw_w g))
     \<and> (status_of (gw_w g) = None \<longrightarrow> synced (gw_w g) \<longrightarrow> synced (gw_w g'))
     \<and> gauge_level HttpRequestsInFlight (ob_metrics (gw_ob g')) = gauge_level HttpRequestsInFlight (ob_metrics (gw_ob g))
     \<and> accounts (gw_ob g') = accounts (gw_ob g)"

text \<open>The calls a handler makes are not on the metrics of the middleware.\<close>

definition off_books :: "metric_call \<Rightarrow> bool" where
  [simp]: "off_books c \<longleftrightarrow> metric_of c \<notin> {HttpRequestsInFlight, HttpRequestsTotal, HttpRequestDuration}"

lemma off_books_kept:
  "off_books c \<Longrightarrow> call_delta HttpRequestsInFlight c = 0 \<and> accounting [c] = []"
  by (cases c) (auto simp: off_books_def call_delta_def)

lemma quiet_refl [quiet]: "quiet_step g g"
  by (simp add: quiet_step_def)

lemma quiet_log [quiet]: "quiet_step g h \<Longrightarrow> m \<noteq> ''request'' \<Longrightarrow> quiet_step g (write_log l m as h)"
  by (simp add: quiet_step_def)

lemma quiet_count [quiet]: "quiet_step g h \<Longrightarrow> off_books c \<Longrightarrow> quiet_step g (count c h)"
  using off_books_kept [of c] by (simp add: quiet_step_def del: accounting_simps(3) off_books_def)

lemma quiet_set_reg [quiet]: "quiet_step g h \<Longrightarrow> quiet_step g (set_reg r h)"
  by (simp add: quiet_step_def set_reg_def)

lemma quiet_set_router [quiet]: "quiet_step g h \<Longrightarrow> quiet_step g (set_router r h)"
  by (simp add: quiet_step_def set_router_def)

lemma quiet_clock [quiet]: "quiet_step g h \<Longrightarrow> quiet_step g (snd (read_clock h))"
  by (simp add: quiet_step_def)

lemma quiet_header [quiet]: "quiet_step g h \<Longrightarrow> quiet_step g (on_w (set_header k v) h)"
  by (simp add: quiet_step_def)

lemma quiet_headers [quiet]: "quiet_step g h \<Longrightarrow> quiet_step g (on_w (set_header k v \<circ> set_header k' v') h)"
  by (simp add: quiet_step_def)

lemma quiet_tidy: "quiet_step g h \<Longrightarrow> tidy_step g h"
  by (simp add: quiet_step_def tidy_step_def)

lemma tidy_answer [tidy]: "quiet_step g h \<Longrightarrow> tidy_step g (answer_with e h)"
  by (auto simp: quiet_step_def tidy_step_def intro!: synced_api_write)

lemma tidy_log [tidy]: "tidy_step g h \<Longrightarrow> m \<noteq> ''request'' \<Longrightarrow> tidy_step g (write_log l m as h)"
  by (simp add: tidy_step_def)

lemma tidy_set_reg [tidy]: "tidy_step g h \<Longrightarrow> tidy_step g (set_reg r h)"
  by (simp add: tidy_step_def set_reg_def)

lemma tidy_set_router [tidy]: "tidy_step g h \<Longrightarrow> tidy_step g (set_router r h)"
  by (simp add: tidy_step_def set_router_def)

lemma tidy_write [tidy]:
  assumes "quiet_step g h" "write_bytes s (gw_w h) = (e, w)"
  shows "tidy_step g (on_w (\<lambda>_. w) h)"
  using assms synced_write_bytes [of "gw_w h" s] wrap_length(2) [of s "gw_w h"]
  by (auto simp: quiet_step_def tidy_step_def simp del: wrap_length)

lemma tidy_document [tidy]: "quiet_step g h \<Longrightarrow> m \<noteq> ''request'' \<Longrightarrow> tidy_step g (write_document enc doc m h)"
  unfolding write_document_def
  by (auto simp: Let_def simp del: on_w_simps intro!: tidy quiet intro: quiet_tidy split: sum.split prod.split option.split)

lemma tidy_failed [tidy]: "quiet_step g h \<Longrightarrow> what \<noteq> ''request'' \<Longrightarrow> tidy_step g (backend_failed what name e h)"
  unfolding backend_failed_def by (intro tidy quiet)

lemma tidy_counter_add [tidy]:
  assumes "quiet_step g h" and "\<And>h'. quiet_step g h' \<Longrightarrow> tidy_step g (snd (k h'))"
    and "m \<notin> {HttpRequestsInFlight, HttpRequestsTotal, HttpRequestDuration}"
  shows "tidy_step g (snd (counter_add rt m ls v k h))"
proof (cases "rt_add rt v")
  case None
  have "quiet_step g (count (MAdd m ls v) h)" using assms(1) by (rule quiet_count) (use assms(3) in simp)
  with assms(2) None show ?thesis by (simp add: counter_add_def)
qed (use assms(1) in \<open>simp add: counter_add_def quiet_tidy\<close>)

section \<open>Streams\<close>

lemma send_event_cases:
  obtains e w1 r w2 where "context_err w = (e, w1)" "write_bytes (sse_event d) w1 = (r, w2)"
    "send_event d w =
       (case e of Some e \<Rightarrow> (Some e, w1)
        | None \<Rightarrow> (case r of Some e \<Rightarrow> (Some (context_error ''client disconnected'' e), w2) | None \<Rightarrow> (None, flush w2)))"
proof -
  obtain e w1 where c: "context_err w = (e, w1)" by fastforce
  obtain r w2 where b: "write_bytes (sse_event d) w1 = (r, w2)" by fastforce
  show ?thesis
    by (rule that [OF c b]) (use b in \<open>auto simp: send_event_def c sse_event_def split: option.splits\<close>)
qed

lemma send_event_tidy:
  "length (wr_wrap (snd (send_event d w))) = length (wr_wrap w)"
  "synced w \<Longrightarrow> synced (snd (send_event d w))"
proof -
  have ctx: "length (wr_wrap (snd (context_err w))) = length (wr_wrap w)"
    "synced w \<Longrightarrow> synced (snd (context_err w))" by (simp_all add: synced_context_err)
  have wb: "length (wr_wrap (snd (write_bytes s v))) = length (wr_wrap v)"
    "synced v \<Longrightarrow> synced (snd (write_bytes s v))" for s v by (simp_all add: synced_write_bytes)
  obtain e w1 r w2 where c: "context_err w = (e, w1)" and b: "write_bytes (sse_event d) w1 = (r, w2)"
    and eq: "send_event d w =
       (case e of Some e \<Rightarrow> (Some e, w1)
        | None \<Rightarrow> (case r of Some e \<Rightarrow> (Some (context_error ''client disconnected'' e), w2) | None \<Rightarrow> (None, flush w2)))"
    by (rule send_event_cases)
  show "length (wr_wrap (snd (send_event d w))) = length (wr_wrap w)"
    "synced w \<Longrightarrow> synced (snd (send_event d w))"
    using ctx wb [where s = "sse_event d" and v = w1] unfolding eq b c
    by (auto split: option.splits intro!: synced_flush)
qed

lemma run_sends_tidy:
  "length (wr_wrap (snd (run_sends send_event ds w))) = length (wr_wrap w)
   \<and> (synced w \<longrightarrow> synced (snd (run_sends send_event ds w)))"
proof (induction ds arbitrary: w)
  case (Cons d ds)
  obtain r w' where step: "send_event d w = (r, w')" by fastforce
  with send_event_tidy [where d = d and w = w] Cons.IH [of w'] show ?case by (auto split: option.splits)
qed simp

lemma tidy_handleStream [tidy]:
  assumes "relays b" "quiet_step g h"
  shows "tidy_step g (snd (handleStream ev b req h))"
proof (cases "is_flusher (gw_w h)")
  case False
  then show ?thesis using assms(2) by (simp add: handleStream_def tidy_answer)
next
  case True
  let ?w = "flush (write_header 200 (stream_headers (gw_w h)))"
  obtain ds where ds: "snd (be_ChatCompletionStream b ev req send_event ?w) = snd (run_sends send_event ds ?w)"
    using assms(1) unfolding relays_def by blast
  obtain r w' where res: "be_ChatCompletionStream b ev req send_event ?w = (r, w')" by fastforce
  have start: "length (wr_wrap ?w) = length (wr_wrap (gw_w h))"
    "status_of (gw_w h) = None \<Longrightarrow> synced (gw_w h) \<Longrightarrow> synced ?w"
    by (simp_all add: stream_headers_def synced_flush synced_write_header)
  have "length (wr_wrap w') = length (wr_wrap (gw_w h))"
    "status_of (gw_w h) = None \<Longrightarrow> synced (gw_w h) \<Longrightarrow> synced w'"
    using run_sends_tidy [of ds ?w] start ds res by auto
  then show ?thesis
    using True assms(2) res by (auto simp: handleStream_def Let_def tidy_step_def quiet_step_def split: option.splits)
qed

section \<open>The handlers keep the contract\<close>

text \<open>Every backend of the registry streams through \<open>send\<close>, as both adapters do.\<close>

definition relaying :: "registry \<Rightarrow> router \<Rightarrow> bool" where
  "relaying reg rtr \<longleftrightarrow> (\<forall>k b. map_of (rg_backends reg) k = Some b \<longrightarrow> relays b)"

lemma PrimaryHealthy_backends:
  assumes "PrimaryHealthy visit hc reg = (res, reg')"
  shows "rg_backends reg' = rg_backends reg" and "res = Inr (Some b) \<Longrightarrow> \<exists>k. map_of (rg_backends reg) k = Some b"
  using assms by (auto simp: PrimaryHealthy_def Let_def split: if_splits prod.splits)

lemma tidy_with_backend:
  assumes "relaying (gw_reg g) rtr" and "\<And>b h. relays b \<Longrightarrow> quiet_step g h \<Longrightarrow> tidy_step g (snd (body b h))"
  shows "tidy_step g (snd (with_backend visit hc body g))"
proof -
  obtain res reg where sel: "PrimaryHealthy visit hc (gw_reg g) = (res, reg)" by fastforce
  consider e where "res = Inl e" | "res = Inr None" | b where "res = Inr (Some b)" by (metis option.exhaust sum.exhaust)
  then show ?thesis
  proof cases
    case 1
    then show ?thesis by (auto simp: with_backend_def sel intro!: tidy quiet)
  next
    case 2
    then show ?thesis by (auto simp: with_backend_def sel intro!: quiet_tidy quiet)
  next
    case (3 b)
    then have "relays b" using PrimaryHealthy_backends(2) [OF sel 3] assms(1) by (auto simp: relaying_def)
    then have "tidy_step g (snd (body b (set_reg reg g)))" by (rule assms(2)) (intro quiet)
    then show ?thesis using 3 by (auto simp: with_backend_def sel split: prod.split intro!: tidy_set_reg)
  qed
qed

lemma tidy_handleJSON [tidy]: "quiet_step g h \<Longrightarrow> tidy_step g (snd (handleJSON rt ev b req h))"
  unfolding handleJSON_def
  by (auto simp: Let_def intro!: tidy split: sum.split option.split)

lemma tidy_chat: "relaying (gw_reg g) rtr \<Longrightarrow> tidy_step g (snd (ChatCompletions rt ev visit hc r g))"
  unfolding ChatCompletions_def
  by (auto simp: Let_def intro!: tidy quiet tidy_with_backend split: sum.split)

lemma tidy_models: "relaying (gw_reg g) rtr \<Longrightarrow> tidy_step g (snd (Models rt ev visit hc r g))"
  unfolding Models_def by (auto intro!: tidy tidy_with_backend split: sum.split)

lemma tidy_embeddings: "relaying (gw_reg g) rtr \<Longrightarrow> tidy_step g (snd (Embeddings rt ev visit hc r g))"
  unfolding Embeddings_def by (auto intro!: tidy quiet tidy_with_backend split: sum.split)

lemma tidy_speak: "quiet_step g h \<Longrightarrow> tidy_step g (snd (speak rt ev info req h))"
  unfolding speak_def
  by (auto simp: Let_def simp del: on_w_simps intro!: tidy quiet split: option.split sum.split prod.split)

lemma tidy_release:
  "quiet_step g h \<Longrightarrow> tidy_step g (snd (case speak rt ev info req h of (f, g1) \<Rightarrow> (f, set_router (k g1) g1)))"
  using tidy_speak [of g h rt ev info req] by (simp add: split_beta tidy_set_router)

lemma tidy_audio: "tidy_step g (snd (Audio rt ev visit hc r g))"
  unfolding Audio_def
  by (simp add: Let_def split_beta tidy_release [unfolded split_beta] split: sum.split)
    (auto intro!: tidy quiet tidy_speak)

end
