(* ===== verification/Routes.thy ===== *)
theory Routes
  imports Handler_Facts
begin

text \<open>
  The authenticated routes: the API handlers inside the middleware stack. The handlers are
  instances of the contract \<open>well_behaved\<close>, so the accounting of the stack holds for every route;
  and the in-flight counts of the load balancers are restored on every path through a handler.
\<close>

section \<open>Instances of the contract\<close>

interpretation chat_route: well_behaved "ChatCompletions rt ev visit hc" relaying for rt ev visit hc
  by unfold_locales (use tidy_chat in \<open>auto simp: tidy_step_def\<close>)

interpretation models_route: well_behaved "Models rt ev visit hc" relaying for rt ev visit hc
  by unfold_locales (use tidy_models in \<open>auto simp: tidy_step_def\<close>)

interpretation embeddings_route: well_behaved "Embeddings rt ev visit hc" relaying for rt ev visit hc
  by unfold_locales (use tidy_embeddings in \<open>auto simp: tidy_step_def\<close>)

interpretation audio_route: well_behaved "Audio rt ev visit hc" relaying for rt ev visit hc
  by unfold_locales (use tidy_audio in \<open>auto simp: tidy_step_def\<close>)

definition api_handlers :: "runtime \<Rightarrow> env \<Rightarrow> string list \<Rightarrow> health_checker \<Rightarrow> handler set" where
  "api_handlers rt ev visit hc =
     {ChatCompletions rt ev visit hc, Models rt ev visit hc, Embeddings rt ev visit hc, Audio rt ev visit hc}"

lemma api_handlers_well_behaved: "h \<in> api_handlers rt ev visit hc \<Longrightarrow> well_behaved h relaying"
  using chat_route.well_behaved_axioms models_route.well_behaved_axioms embeddings_route.well_behaved_axioms
    audio_route.well_behaved_axioms
  by (auto simp: api_handlers_def)

section \<open>Accounting\<close>

text \<open>
  C15: on every API route the gauge of requests in flight ends where it began, for every request,
  every reply of the backends and every panic.
\<close>

theorem in_flight_balanced:
  assumes "h \<in> api_handlers rt ev visit hc" and "relaying (gw_reg g) (gw_router g)"
    and "status_of (gw_w g) = None" and "wr_wrap (gw_w g) = []"
  shows "gauge_level HttpRequestsInFlight (ob_metrics (gw_ob (snd (protected rt ks i h r g)))) =
         gauge_level HttpRequestsInFlight (ob_metrics (gw_ob g))"
  by (rule well_behaved.gauge_balanced [OF api_handlers_well_behaved [OF assms(1)] assms(2-4)])

lemma relaying_empty [simp]: "relaying NewRegistry rtr"
  by (simp add: relaying_def NewRegistry_def)

theorem in_flight_balanced_witness:
  "gauge_level HttpRequestsInFlight (ob_metrics (gw_ob (snd (protected plain_runtime one_key ApiLimiter
      (Models plain_runtime idle_env [] None) (bearing ''Bearer sk-0123456789'') resting)))) = 0"
  using in_flight_balanced [of "Models plain_runtime idle_env [] None" plain_runtime idle_env "[]" None resting one_key ApiLimiter]
  by (simp add: api_handlers_def resting_def new_writer_def status_of_def no_observed_def)

text \<open>
  C14: on every API route a request that does not panic, admitted or refused, is counted once and
  logged once. Before it takes the in-flight gauge back it makes one increment of \<open>requests_total\<close>
  and one observation of its duration, and the last log line is a canonical one, with the status the client
  got (200 when the handler sent none) and no field for the API key; among the calls and lines
  before these there is none on either metric and no canonical line that was not there when the
  request arrived.
\<close>

theorem request_accounted:
  assumes "h \<in> api_handlers rt ev visit hc" and "relaying (gw_reg g) (gw_router g)"
    and "status_of (gw_w g) = None" and "wr_wrap (gw_w g) = []" and "rq_ctx r CtxAPIKey = None"
    and "fst (Auth ks (RateLimit i h) (identified rt r) (entered rt r g)) = Returned"
    and "s = (case status_of (gw_w (snd (protected rt ks i h r g))) of None \<Rightarrow> 200 | Some c \<Rightarrow> c)"
  shows "\<exists>ms ls line.
      ob_metrics (gw_ob (snd (protected rt ks i h r g))) =
        ms @ [MInc HttpRequestsTotal [rq_method r, normalizePath (rq_path r), itoa s],
              MObserve HttpRequestDuration [rq_method r, normalizePath (rq_path r)], MDec HttpRequestsInFlight []]
    \<and> accounting ms = accounting (ob_metrics (gw_ob g))
    \<and> ob_logs (gw_ob (snd (protected rt ks i h r g))) = ls @ [line]
    \<and> canonical ls = canonical (ob_logs (gw_ob g))
    \<and> lg_msg line = ''request'' \<and> lg_level line = status_level s
    \<and> map fst (lg_attrs line) = [''request_id'', ''method'', ''path'', ''status'', ''duration_ms'', ''bytes'', ''remote_addr'', ''user_agent'']
    \<and> (''status'', itoa s) \<in> set (lg_attrs line)"
proof -
  obtain g1 where res: "Auth ks (RateLimit i h) (identified rt r) (entered rt r g) = (Returned, g1)"
    using assms(6) by (metis prod.collapse)
  show ?thesis
    by (rule well_behaved.accounted [OF api_handlers_well_behaved [OF assms(1)] assms(2-5) res assms(7)])
qed

text \<open>The witness: a refused request, which is logged as a warning.\<close>

lemma refused_status:
  "status_of (gw_w (snd (protected plain_runtime one_key ApiLimiter h (bearing ''Basic c2VjcmV0'') resting))) = Some 401"
  unfolding protected_unfold
  by (simp add: Auth_def bearing_tokens api_write_status Unauthorized_def)

theorem request_accounted_witness:
  "\<exists>line. canonical (ob_logs (gw_ob (snd (protected plain_runtime one_key ApiLimiter (Models plain_runtime idle_env [] None)
       (bearing ''Basic c2VjcmV0'') resting)))) = [line]
     \<and> lg_level line = LevelWarn \<and> (''status'', ''401'') \<in> set (lg_attrs line)"
proof -
  let ?h = "Models plain_runtime idle_env [] None"
  have "fst (Auth one_key (RateLimit ApiLimiter ?h) (identified plain_runtime (bearing ''Basic c2VjcmV0''))
      (entered plain_runtime (bearing ''Basic c2VjcmV0'') resting)) = Returned"
    by (simp add: Auth_def bearing_tokens)
  moreover have "rq_ctx (bearing ''Basic c2VjcmV0'') CtxAPIKey = None" by (simp add: bearing_def)
  moreover have "itoa 401 = ''401''" by code_simp
  ultimately show ?thesis
    using request_accounted [of ?h plain_runtime idle_env "[]" None resting "bearing ''Basic c2VjcmV0''" one_key ApiLimiter 401]
      refused_status [of ?h]
    by (auto simp: api_handlers_def resting_def new_writer_def status_of_def status_level_def no_observed_def)
qed

section \<open>Load\<close>

named_theorems reg_frame \<open>steps that leave the registries alone\<close>

lemma write_document_frame [reg_frame]:
  "gw_reg (write_document enc doc m g) = gw_reg g" "gw_router (write_document enc doc m g) = gw_router g"
  by (auto simp: write_document_def Let_def split: sum.split prod.split option.split)

lemma backend_failed_frame [reg_frame]:
  "gw_reg (backend_failed what n e g) = gw_reg g" "gw_router (backend_failed what n e g) = gw_router g"
  by (simp_all add: backend_failed_def)

lemma handleJSON_frame [reg_frame]: "gw_reg (snd (handleJSON rt ev b req g)) = gw_reg g"
  by (auto simp: handleJSON_def counter_add_def Let_def reg_frame split: sum.split option.split)

lemma handleStream_frame [reg_frame]: "gw_reg (snd (handleStream ev b req g)) = gw_reg g"
  by (auto simp: handleStream_def Let_def split: prod.split option.split)

lemma speak_frame [reg_frame]: "gw_router (snd (speak rt ev info req g)) = gw_router g"
  by (auto simp: speak_def counter_add_def Let_def reg_frame split: prod.split option.split sum.split)

text \<open>A registry in which every request that was charged is still being served.\<close>

definition loads_ok :: "load_balancer \<Rightarrow> bool" where
  "loads_ok lb \<longleftrightarrow> (\<forall>k. 0 \<le> InFlight lb k)"

lemma with_backend_load:
  assumes "registry_ok (gw_reg g)" "iterates visit (rg_backends (gw_reg g))" "loads_ok (rg_lb (gw_reg g))"
    and frame: "\<And>b h. gw_reg (snd (body b h)) = gw_reg h"
  shows "InFlight (rg_lb (gw_reg (snd (with_backend visit hc body g)))) k = InFlight (rg_lb (gw_reg g)) k"
proof -
  obtain res reg where sel: "PrimaryHealthy visit hc (gw_reg g) = (res, reg)" by fastforce
  note spec = PrimaryHealthy_selects [OF assms(1,2), of hc, unfolded sel prod.case]
  consider e where "res = Inl e" | "res = Inr None" | b where "res = Inr (Some b)" by (metis option.exhaust sum.exhaust)
  then show ?thesis
  proof cases
    case 1
    with spec show ?thesis by (simp add: with_backend_def sel set_reg_def)
  next
    case 2
    with spec show ?thesis by simp
  next
    case (3 b)
    then have "InFlight (rg_lb (ReleaseBackend (be_Name b) reg)) k = InFlight (rg_lb (gw_reg g)) k"
      using PrimaryHealthy_release [OF assms(1,2)] assms(3) sel by (auto simp: loads_ok_def)
    with 3 frame [of b "set_reg reg g"] show ?thesis
      by (auto simp: with_backend_def sel set_reg_def split: prod.split)
  qed
qed

lemma chat_load_kept:
  assumes "registry_ok (gw_reg g)" and "iterates visit (rg_backends (gw_reg g))" and "loads_ok (rg_lb (gw_reg g))"
    and "h \<in> {ChatCompletions rt ev visit hc, Models rt ev visit hc, Embeddings rt ev visit hc}"
  shows "InFlight (rg_lb (gw_reg (snd (h r g)))) k = InFlight (rg_lb (gw_reg g)) k"
proof -
  note load = with_backend_load [OF assms(1-3)]
  have "InFlight (rg_lb (gw_reg (snd (ChatCompletions rt ev visit hc r g)))) k = InFlight (rg_lb (gw_reg g)) k"
    by (auto simp: ChatCompletions_def Let_def reg_frame intro!: load split: sum.split)
  moreover have "InFlight (rg_lb (gw_reg (snd (Models rt ev visit hc r g)))) k = InFlight (rg_lb (gw_reg g)) k"
    unfolding Models_def by (rule load) (auto simp: reg_frame split: sum.split)
  moreover have "InFlight (rg_lb (gw_reg (snd (Embeddings rt ev visit hc r g)))) k = InFlight (rg_lb (gw_reg g)) k"
    by (auto simp: Embeddings_def reg_frame intro!: load split: sum.split)
  ultimately show ?thesis using assms(4) by auto
qed

definition one_backend :: gateway where
  "one_backend = resting\<lparr>gw_reg := Register (dummy_backend ''a'') NewRegistry\<rparr>"

lemma one_backend_reg:
  "registry_ok (gw_reg one_backend)" "iterates [''a''] (rg_backends (gw_reg one_backend))"
  "loads_ok (rg_lb (gw_reg one_backend))" "InFlight (rg_lb (gw_reg one_backend)) k = 0"
  by (simp_all add: one_backend_def registry_ok_Register registry_ok_New)
    (simp_all add: iterates_def Register_def NewRegistry_def loads_ok_def InFlight_def NewLoadBalancer_def)

text \<open>
  C16: whatever a request does, and also when its handler panics, the number of requests in flight
  on every backend is the same after it as before it.
\<close>

theorem chat_load_restored:
  assumes "registry_ok (gw_reg g)" and "iterates visit (rg_backends (gw_reg g))" and "loads_ok (rg_lb (gw_reg g))"
    and "h \<in> {ChatCompletions rt ev visit hc, Models rt ev visit hc, Embeddings rt ev visit hc}"
  shows "InFlight (rg_lb (gw_reg (snd (h r g)))) k = InFlight (rg_lb (gw_reg g)) k"
  using assms by (rule chat_load_kept)

theorem chat_load_restored_witness:
  "InFlight (rg_lb (gw_reg (snd (Models plain_runtime idle_env [''a''] None (bearing ''x'') one_backend)))) ''a'' = 0"
  using chat_load_restored [OF one_backend_reg(1-3), of "Models plain_runtime idle_env [''a''] None" plain_runtime idle_env None "bearing ''x''" "''a''"]
    one_backend_reg(4) by simp

lemma audio_load_kept:
  assumes "router_ok (gw_router g)" and "iterates visit (rr_backends (gw_router g))" and "loads_ok (rr_lb (gw_router g))"
  shows "InFlight (rr_lb (gw_router (snd (Audio rt ev visit hc r g)))) k = InFlight (rr_lb (gw_router g)) k"
proof -
  have main: "InFlight (rr_lb (gw_router (snd (case SelectHealthyBackend visit CapTTS m hc (gw_router g) of
         (Inl err, rtr) \<Rightarrow> (Returned, answer_with x (write_log l t (as err) (set_router rtr g)))
       | (Inr info, rtr) \<Rightarrow>
           (case speak rt ev info req (set_router rtr g) of
              (f, g1) \<Rightarrow> (f, set_router (ReleaseRouted (bi_Name info) (gw_router g1)) g1)))))) k =
      InFlight (rr_lb (gw_router g)) k" for m req x l t as
  proof -
    obtain res rtr where sel: "SelectHealthyBackend visit CapTTS m hc (gw_router g) = (res, rtr)" by fastforce
    note spec = selectBackend_selects [OF assms(1,2), of CapTTS m hc, folded SelectHealthyBackend_def, unfolded sel prod.case]
    show ?thesis
    proof (cases res)
      case (Inl e)
      with spec sel show ?thesis by (simp add: set_router_def)
    next
      case (Inr info)
      with spec have "InFlight (rr_lb rtr) j = InFlight (rr_lb (gw_router g)) j + (if j = bi_Name info then 1 else 0)" for j
        by (simp add: selected_ok_def)
      moreover have "0 \<le> InFlight (rr_lb (gw_router g)) (bi_Name info)" using assms(3) by (simp add: loads_ok_def)
      ultimately have "InFlight (rr_lb (ReleaseRouted (bi_Name info) rtr)) k = InFlight (rr_lb (gw_router g)) k"
        by (simp add: ReleaseRouted_def Release_load add_nonneg_pos)
      then show ?thesis
        using Inr sel speak_frame [of rt ev info req "set_router rtr g"]
        by (simp add: set_router_def split_beta)
    qed
  qed
  show ?thesis
    unfolding Audio_def by (auto simp: Let_def main split: sum.split)
qed

text \<open>
  C17: the same holds of the speech route and the router's backends.\<close>

theorem audio_load_restored:
  assumes "router_ok (gw_router g)" and "iterates visit (rr_backends (gw_router g))" and "loads_ok (rr_lb (gw_router g))"
  shows "InFlight (rr_lb (gw_router (snd (Audio rt ev visit hc r g)))) k = InFlight (rr_lb (gw_router g)) k"
  using assms by (rule audio_load_kept)

theorem audio_load_restored_witness:
  "InFlight (rr_lb (gw_router (snd (Audio plain_runtime idle_env [''chatterbox'', ''kokoro''] None (bearing ''x'')
     (resting\<lparr>gw_router := two_voices\<rparr>))))) ''kokoro'' = 0"
proof -
  have lb: "rr_lb two_voices = NewLoadBalancer" by (simp add: two_voices_def RegisterInfo_def NewRouter_def)
  then have "loads_ok (rr_lb two_voices)" by (simp add: loads_ok_def InFlight_def NewLoadBalancer_def)
  with audio_load_restored [of "resting\<lparr>gw_router := two_voices\<rparr>" "[''chatterbox'', ''kokoro'']" plain_runtime idle_env None "bearing ''x''" "''kokoro''"]
    two_voices_ok two_voices_visit lb
  show ?thesis by (simp add: InFlight_def NewLoadBalancer_def)
qed

end
