(* ===== verification/Replies.thy ===== *)
theory Replies
  imports Routes
begin

text \<open>
  Properties of the replies: what the speech handler asks of a backend and gives to the client,
  and what a chat request that is not streamed ends with.
\<close>

section \<open>The request for speech\<close>

lemma clamp_speed_bounds:
  assumes "speed \<noteq> NaN"
  shows "\<exists>s. clamp_speed speed = Fin s \<and> 1 / 4 \<le> s \<and> s \<le> 4"
  using assms by (cases speed) (auto simp: clamp_speed_def Let_def intro: exI [of _ "1 / 4"])

lemma default_voice_not_blank: "trim_space (default_voice name) \<noteq> []"
  unfolding default_voice_def by (simp split: if_split) code_simp

lemma speech_request_simps:
  "tr_Speed (speech_request name req) = clamp_speed (tr_Speed req)"
  "tr_Voice (speech_request name req) = (if trim_space (tr_Voice req) = [] then default_voice name else tr_Voice req)"
  "tr_Input (speech_request name req) = tr_Input req" "tr_Model (speech_request name req) = tr_Model req"
  "tr_ResponseFormat (speech_request name req) = tr_ResponseFormat req"
  by (simp_all add: speech_request_def)

lemma clamp_speed_Fin: "clamp_speed (Fin x) = Fin (if x \<le> 0 then 1 else max (1 / 4) (min 4 x))"
  by (auto simp: clamp_speed_def Let_def)

text \<open>What the adapter fills in itself is, of such a request, an empty format.\<close>

lemma with_tts_defaults_normal:
  assumes "trim_space (tr_Voice req) \<noteq> []" "tr_Speed req = Fin s" "0 < s"
  shows "with_tts_defaults req = (if tr_ResponseFormat req = [] then req\<lparr>tr_ResponseFormat := ''wav''\<rparr> else req)"
proof -
  have "tr_Voice req \<noteq> []" using assms(1) by (auto simp: trim_space_Nil)
  with assms(2,3) show ?thesis by (simp add: with_tts_defaults_def Let_def)
qed

lemma speech_request_spelled:
  assumes "tr_Speed req = Fin x"
  shows "speech_request name (if trim_space (tr_Model req) = [] then req\<lparr>tr_Model := defaultTTSModel\<rparr> else req) =
     \<lparr>tr_Model = (if trim_space (tr_Model req) = [] then ''kokoro'' else tr_Model req), tr_Input = tr_Input req,
      tr_Voice = (if trim_space (tr_Voice req) \<noteq> [] then tr_Voice req
                  else if name = ''kokoro'' then ''af_bella''
                  else if name = ''chatterbox'' then ''chatterbox-default'' else ''default''),
      tr_ResponseFormat = tr_ResponseFormat req, tr_Speed = Fin (if x \<le> 0 then 1 else max (1 / 4) (min 4 x))\<rparr>"
proof (cases req)
  case (fields model input voice format speed)
  have "defaultTTSModel = ''kokoro''" by (simp add: defaultTTSModel_def)
  with fields assms show ?thesis
    unfolding speech_request_def default_voice_def by (simp add: clamp_speed_Fin Let_def)
qed

lemma Audio_selected:
  assumes "rt_dec_tts rt (rq_body r) = Inr req"
    and "trim_space (tr_Input req) \<noteq> []" "length (tr_Input req) \<le> maxTTSInputLength"
    and "req' = (if trim_space (tr_Model req) = [] then req\<lparr>tr_Model := defaultTTSModel\<rparr> else req)"
    and "SelectHealthyBackend visit CapTTS (tr_Model req') hc (gw_router g) = (Inr info, rtr)"
  shows "gw_w (snd (Audio rt ev visit hc r g)) = gw_w (snd (speak rt ev info req' (set_router rtr g)))"
  using assms by (simp add: Audio_def Let_def not_less split_beta set_router_def)

text \<open>
  C33: the speech handler hands to the backend it selects the client's request with three changes,
  and answers with what the backend makes of it. A blank model is \<open>kokoro\<close>, and it is the model by
  which the backend is selected; a blank voice is the selected backend's default; the speed is 1 when
  it is not positive and is cut to the range from 0.25 to 4. The input and the format are the
  client's. Of the request so made the adapter's own defaults change nothing but an empty format.
\<close>

theorem speech_request_normal:
  assumes dec: "rt_dec_tts rt (rq_body r) = Inr req"
    and input: "trim_space (tr_Input req) \<noteq> []" "length (tr_Input req) \<le> 4096"
    and speed: "tr_Speed req = Fin x"
    and sel: "SelectHealthyBackend visit CapTTS (if trim_space (tr_Model req) = [] then ''kokoro'' else tr_Model req) hc
                (gw_router g) = (Inr info, rtr)"
    and tb: "bi_TTSBackend info = Some tb" and add: "rt_add rt (int (length (tr_Input req))) = None"
    and w: "wr_sent (gw_w g) = None" "wr_body (gw_w g) = []" "wr_outcomes (gw_w g) = []"
    and sent: "sent =
     \<lparr>tr_Model = (if trim_space (tr_Model req) = [] then ''kokoro'' else tr_Model req), tr_Input = tr_Input req,
      tr_Voice = (if trim_space (tr_Voice req) \<noteq> [] then tr_Voice req
                  else if bi_Name info = ''kokoro'' then ''af_bella''
                  else if bi_Name info = ''chatterbox'' then ''chatterbox-default'' else ''default''),
      tr_ResponseFormat = tr_ResponseFormat req, tr_Speed = Fin (if x \<le> 0 then 1 else max (1 / 4) (min 4 x))\<rparr>"
  shows "(case tb_Synthesize tb ev sent of
            Inr resp \<Rightarrow>
              status_of (gw_w (snd (Audio rt ev visit hc r g))) = Some 200
              \<and> wr_body (gw_w (snd (Audio rt ev visit hc r g))) = tp_Audio resp
          | Inl e \<Rightarrow>
              (\<exists>shown_err. FromBackendError (bi_Name info) (Some e) = Some shown_err
                 \<and> status_of (gw_w (snd (Audio rt ev visit hc r g))) = Some (ae_status shown_err)
                 \<and> wr_body (gw_w (snd (Audio rt ev visit hc r g))) = encode_line (error_envelope shown_err)))
       \<and> with_tts_defaults sent = (if tr_ResponseFormat req = [] then sent\<lparr>tr_ResponseFormat := ''wav''\<rparr> else sent)"
proof
  let ?req = "if trim_space (tr_Model req) = [] then req\<lparr>tr_Model := defaultTTSModel\<rparr> else req"
  have model: "tr_Model ?req = (if trim_space (tr_Model req) = [] then ''kokoro'' else tr_Model req)"
    by (simp add: defaultTTSModel_def)
  have gw: "gw_w (snd (Audio rt ev visit hc r g)) = gw_w (snd (speak rt ev info ?req (set_router rtr g)))"
    by (rule Audio_selected [OF dec input(1) _ refl]) (use input(2) sel model in \<open>simp_all add: maxTTSInputLength_def\<close>)
  have req: "speech_request (bi_Name info) ?req = sent" unfolding sent by (rule speech_request_spelled [OF speed])
  have len: "tr_Input sent = tr_Input req" by (simp add: sent)
  show "case tb_Synthesize tb ev sent of
            Inr resp \<Rightarrow>
              status_of (gw_w (snd (Audio rt ev visit hc r g))) = Some 200
              \<and> wr_body (gw_w (snd (Audio rt ev visit hc r g))) = tp_Audio resp
          | Inl e \<Rightarrow>
              (\<exists>shown_err. FromBackendError (bi_Name info) (Some e) = Some shown_err
                 \<and> status_of (gw_w (snd (Audio rt ev visit hc r g))) = Some (ae_status shown_err)
                 \<and> wr_body (gw_w (snd (Audio rt ev visit hc r g))) = encode_line (error_envelope shown_err))"
  proof (cases "tb_Synthesize tb ev sent")
    case (Inl e)
    obtain x where "FromBackendError (bi_Name info) (Some e) = Some x"
      by (cases "FromBackendError (bi_Name info) (Some e)") auto
    with Inl tb w show ?thesis
      unfolding gw speak_def req
      by (simp add: Let_def backend_failed_def api_write_response api_write_sent status_of_def set_router_def)
  next
    case (Inr resp)
    with tb w add show ?thesis
      unfolding gw speak_def req
      by (simp add: Let_def counter_add_def len write_bytes_def send_status_def accept_bytes_def status_of_def
          set_router_def)
  qed
  have "trim_space (tr_Voice sent) \<noteq> []"
    using default_voice_not_blank [of "bi_Name info"] by (simp add: sent default_voice_def split: if_splits)
  moreover have "0 < (if x \<le> 0 then 1 else max (1 / 4) (min 4 x))" by auto
  ultimately show "with_tts_defaults sent =
      (if tr_ResponseFormat req = [] then sent\<lparr>tr_ResponseFormat := ''wav''\<rparr> else sent)"
    using with_tts_defaults_normal [of sent] by (simp add: sent)
qed

definition slow_request :: tts_request where
  "slow_request =
     \<lparr>tr_Model = [], tr_Input = ''hello'', tr_Voice = '' '', tr_ResponseFormat = [], tr_Speed = Fin (1 / 10)\<rparr>"

text \<open>The witness: a backend that answers with the voice it was asked for.\<close>

definition echoing :: tts_backend where
  "echoing =
     \<lparr>tb_Name = ''kokoro'', tb_Health = (\<lambda>_. None),
      tb_Synthesize = (\<lambda>_ q. Inr \<lparr>tp_Audio = tr_Model q @ '' '' @ tr_Voice q, tp_Format = ''audio/wav'', tp_DurationMs = 0\<rparr>),
      tb_Voices = (\<lambda>_. Inr [])\<rparr>"

definition echoing_router :: router where
  "echoing_router = RegisterInfo ((tts_info ''kokoro'' [''kokoro''])\<lparr>bi_TTSBackend := Some echoing\<rparr>) NewRouter"

lemma echoing_select:
  "SelectHealthyBackend [''kokoro''] CapTTS ''kokoro'' None echoing_router =
     (Inr ((tts_info ''kokoro'' [''kokoro''])\<lparr>bi_TTSBackend := Some echoing\<rparr>),
      echoing_router\<lparr>rr_lb := Acquire ''kokoro'' (rr_lb echoing_router)\<rparr>)"
  by (simp add: SelectHealthyBackend_def select_eval echoing_router_def RegisterInfo_def NewRouter_def)

theorem speech_request_normal_witness:
  "wr_body (gw_w (snd (Audio (plain_runtime\<lparr>rt_dec_tts := \<lambda>_. Inr slow_request\<rparr>) idle_env [''kokoro''] None (bearing ''x'')
     (resting\<lparr>gw_router := echoing_router\<rparr>)))) = ''kokoro af_bella''"
proof -
  have "trim_space ''hello'' \<noteq> []" "trim_space [] = []" "trim_space '' '' = []" by code_simp+
  then show ?thesis
    using speech_request_normal [of "plain_runtime\<lparr>rt_dec_tts := \<lambda>_. Inr slow_request\<rparr>" "bearing ''x''" slow_request
        "1 / 10" "[''kokoro'']" None "resting\<lparr>gw_router := echoing_router\<rparr>" _ _ echoing _ idle_env, OF _ _ _ _ _ _ _ _ _ _ refl]
      echoing_select
    by (simp add: plain_runtime_def slow_request_def echoing_def new_writer_def tts_info_def)
qed

section \<open>The reply with speech\<close>

text \<open>
  When the backend delivers audio the client gets status 200, exactly those bytes, their
  number as the content length and the format the backend named.
\<close>

theorem speech_served:
  assumes dec: "rt_dec_tts rt (rq_body r) = Inr req"
    and input: "trim_space (tr_Input req) \<noteq> []" "length (tr_Input req) \<le> maxTTSInputLength"
    and model: "trim_space (tr_Model req) \<noteq> []"
    and sel: "SelectHealthyBackend visit CapTTS (tr_Model req) hc (gw_router g) = (Inr info, rtr)"
    and tb: "bi_TTSBackend info = Some tb" "tb_Synthesize tb ev (speech_request (bi_Name info) req) = Inr resp"
    and fmt: "tp_Format resp \<noteq> []" and add: "rt_add rt (int (length (tr_Input req))) = None"
    and w: "wr_sent (gw_w g) = None" "wr_body (gw_w g) = []" "wr_outcomes (gw_w g) = []"
  shows "fst (Audio rt ev visit hc r g) = Returned
       \<and> status_of (gw_w (snd (Audio rt ev visit hc r g))) = Some 200
       \<and> wr_body (gw_w (snd (Audio rt ev visit hc r g))) = tp_Audio resp
       \<and> sent_header (gw_w (snd (Audio rt ev visit hc r g))) ''Content-Type'' = Some (tp_Format resp)
       \<and> sent_header (gw_w (snd (Audio rt ev visit hc r g))) ''Content-Length'' = Some (itoa (int (length (tp_Audio resp))))"
  using assms
  by (auto simp: Audio_def speak_def counter_add_def Let_def set_router_def speech_request_simps not_less
      write_bytes_def send_status_def accept_bytes_def status_of_def sent_header_def read_clock_def count_def
      on_w_def set_header_def split: prod.split)

definition beep :: tts_backend where
  "beep =
     \<lparr>tb_Name = ''kokoro'', tb_Health = (\<lambda>_. None),
      tb_Synthesize = (\<lambda>_ _. Inr \<lparr>tp_Audio = ''RIFF'', tp_Format = ''audio/wav'', tp_DurationMs = 0\<rparr>),
      tb_Voices = (\<lambda>_. Inr [])\<rparr>"

definition beeping :: router where
  "beeping = RegisterInfo ((tts_info ''kokoro'' [''kokoro''])\<lparr>bi_TTSBackend := Some beep\<rparr>) NewRouter"

lemma beeping_select:
  "SelectHealthyBackend [''kokoro''] CapTTS ''kokoro'' None beeping =
     (Inr ((tts_info ''kokoro'' [''kokoro''])\<lparr>bi_TTSBackend := Some beep\<rparr>),
      beeping\<lparr>rr_lb := Acquire ''kokoro'' (rr_lb beeping)\<rparr>)"
  by (simp add: SelectHealthyBackend_def select_eval beeping_def RegisterInfo_def NewRouter_def)

definition hello_runtime :: runtime where
  "hello_runtime = plain_runtime\<lparr>rt_dec_tts := \<lambda>_. Inr (slow_request\<lparr>tr_Model := ''kokoro''\<rparr>)\<rparr>"

theorem speech_served_witness:
  "wr_body (gw_w (snd (Audio hello_runtime idle_env [''kokoro''] None (bearing ''x'') (resting\<lparr>gw_router := beeping\<rparr>)))) = ''RIFF''"
proof -
  have "trim_space ''hello'' \<noteq> []" "trim_space ''kokoro'' \<noteq> []" by code_simp+
  then show ?thesis
    using speech_served [of hello_runtime "bearing ''x''" "slow_request\<lparr>tr_Model := ''kokoro''\<rparr>" "[''kokoro'']" None
        "resting\<lparr>gw_router := beeping\<rparr>" _ _ beep idle_env
        "\<lparr>tp_Audio = ''RIFF'', tp_Format = ''audio/wav'', tp_DurationMs = 0\<rparr>"] beeping_select
    by (simp add: hello_runtime_def plain_runtime_def slow_request_def beep_def new_writer_def maxTTSInputLength_def tts_info_def)
qed

text \<open>
  The handler's table of formats is the adapter's, so a reply that names no format gets the same type.\<close>

theorem mime_tables_agree: "mimeTypeFromFormat format = mimeTypeForFormat format"
  by (simp add: mimeTypeFromFormat_def mimeTypeForFormat_def)

section \<open>Chat replies\<close>

definition chat_sent :: "chat_request \<Rightarrow> chat_request" where
  "chat_sent req = (if trim_space (cr_Model req) = [] then req\<lparr>cr_Model := defaultChatModel\<rparr> else req)"

lemma chat_json:
  assumes "rt_dec_chat rt (rq_body r) = Inr req" "cr_Messages req \<noteq> []" "\<not> cr_Stream req"
    and "PrimaryHealthy visit hc (gw_reg g) = (Inr (Some b), reg)"
  shows "ChatCompletions rt ev visit hc r g =
           (case handleJSON rt ev b (chat_sent req) (set_reg reg g) of
              (f, g1) \<Rightarrow> (f, set_reg (ReleaseBackend (be_Name b) (gw_reg g1)) g1))"
  using assms by (simp add: ChatCompletions_def with_backend_def chat_sent_def Let_def)

text \<open>
  C27: a chat request that is not streamed ends in one of two ways once a backend is selected: the
  backend's document with status 200, or the classified error with its own status; the request
  that reached the backend has a model.
\<close>

theorem chat_answered:
  assumes "rt_dec_chat rt (rq_body r) = Inr req" and "cr_Messages req \<noteq> []" and "\<not> cr_Stream req"
    and "PrimaryHealthy visit hc (gw_reg g) = (Inr (Some b), reg)"
    and "\<And>v. 0 \<le> v \<Longrightarrow> rt_add rt v = None"
    and "\<And>resp u. be_ChatCompletion b ev (chat_sent req) = Inr resp \<Longrightarrow> cp_Usage resp = Some u \<Longrightarrow>
           0 \<le> us_PromptTokens u \<and> 0 \<le> us_CompletionTokens u"
    and "wr_sent (gw_w g) = None" and "wr_body (gw_w g) = []" and "wr_outcomes (gw_w g) = []"
  shows "trim_space (cr_Model (chat_sent req)) \<noteq> []
       \<and> (case be_ChatCompletion b ev (chat_sent req) of
            Inl e \<Rightarrow>
              (case FromBackendError (be_Name b) (Some e) of
                 None \<Rightarrow> False
               | Some shown_err \<Rightarrow>
                   status_of (gw_w (snd (ChatCompletions rt ev visit hc r g))) = Some (ae_status shown_err)
                   \<and> wr_body (gw_w (snd (ChatCompletions rt ev visit hc r g))) = encode_line (error_envelope shown_err))
          | Inr resp \<Rightarrow>
              (case rt_enc_chat_resp rt resp of
                 Inl e \<Rightarrow> status_of (gw_w (snd (ChatCompletions rt ev visit hc r g))) = None
               | Inr doc \<Rightarrow>
                   status_of (gw_w (snd (ChatCompletions rt ev visit hc r g))) = Some 200
                   \<and> wr_body (gw_w (snd (ChatCompletions rt ev visit hc r g))) = doc @ [CHR 0x0A]))"
proof -
  have "trim_space defaultChatModel \<noteq> []" unfolding defaultChatModel_def by code_simp
  then have model: "trim_space (cr_Model (chat_sent req)) \<noteq> []" by (simp add: chat_sent_def)
  have w: "gw_w (snd (ChatCompletions rt ev visit hc r g)) =
      gw_w (snd (handleJSON rt ev b (chat_sent req) (set_reg reg g)))"
    unfolding chat_json [OF assms(1-4)] by (simp add: split_beta set_reg_def)
  have g1: "gw_w (set_reg reg g) = gw_w g" by (simp add: set_reg_def)
  show ?thesis
  proof (cases "be_ChatCompletion b ev (chat_sent req)")
    case (Inl e)
    obtain x where x: "FromBackendError (be_Name b) (Some e) = Some x"
      by (cases "FromBackendError (be_Name b) (Some e)") auto
    with Inl model assms(7-9) g1 show ?thesis
      unfolding w by (simp add: handleJSON_def backend_failed_def api_write_response api_write_sent status_of_def)
  next
    case (Inr resp)
    have doc: "gw_w (snd (handleJSON rt ev b (chat_sent req) (set_reg reg g))) =
        gw_w (write_document (rt_enc_chat_resp rt) resp ''failed to encode chat response''
          (case cp_Usage resp of None \<Rightarrow> set_reg reg g
           | Some u \<Rightarrow> count (MAdd TokensTotal [cp_Model resp, ''completion''] (us_CompletionTokens u))
               (count (MAdd TokensTotal [cp_Model resp, ''prompt''] (us_PromptTokens u)) (set_reg reg g))))"
      using assms(5,6) Inr by (cases "cp_Usage resp") (auto simp: handleJSON_def counter_add_def Let_def)
    have "gw_w (case cp_Usage resp of None \<Rightarrow> set_reg reg g
           | Some u \<Rightarrow> count (MAdd TokensTotal [cp_Model resp, ''completion''] (us_CompletionTokens u))
               (count (MAdd TokensTotal [cp_Model resp, ''prompt''] (us_PromptTokens u)) (set_reg reg g))) = gw_w g"
      using g1 by (simp split: option.split)
    with Inr model assms(7-9) show ?thesis
      unfolding w doc
      by (simp add: write_document_def Let_def write_bytes_def send_status_def accept_bytes_def status_of_def
          split: sum.split)
  qed
qed

definition hi_request :: chat_request where
  "hi_request =
     \<lparr>cr_Model = [], cr_Messages = [\<lparr>msg_Role = ''user'', msg_Content = ''hi'', msg_Name = [], msg_ToolCalls = [], msg_ToolCallID = []\<rparr>],
      cr_Temperature = None, cr_TopP = None, cr_N = None, cr_MaxTokens = None, cr_MaxCompletionTokens = None,
      cr_Stop = [], cr_Stream = False, cr_PresencePenalty = None, cr_FrequencyPenalty = None, cr_Logprobs = None,
      cr_TopLogprobs = None, cr_Seed = None, cr_User = [], cr_Tools = [], cr_ToolChoice = [], cr_ResponseFormat = []\<rparr>"

definition chat_runtime :: runtime where
  "chat_runtime = plain_runtime\<lparr>rt_dec_chat := \<lambda>_. Inr hi_request\<rparr>"

definition used :: "int \<Rightarrow> chat_response" where
  "used n =
     \<lparr>cp_ID = ''c'', cp_Object = ''chat.completion'', cp_Created = 0, cp_Model = ''m'', cp_Choices = [],
      cp_Usage = Some \<lparr>us_PromptTokens = n, us_CompletionTokens = 1, us_TotalTokens = 1\<rparr>\<rparr>"

definition counting :: "int \<Rightarrow> backend" where
  "counting n = (dummy_backend ''a'')\<lparr>be_ChatCompletion := \<lambda>_ _. Inr (used n)\<rparr>"

definition counting_gateway :: "int \<Rightarrow> gateway" where
  "counting_gateway n = resting\<lparr>gw_reg := Register (counting n) NewRegistry\<rparr>"

lemma counting_select:
  "PrimaryHealthy [''a''] None (gw_reg (counting_gateway n)) =
     (Inr (Some (counting n)),
      (gw_reg (counting_gateway n))\<lparr>rg_lb := Acquire ''a'' (rg_lb (gw_reg (counting_gateway n)))\<rparr>)"
  by (simp add: PrimaryHealthy_def healthyOrderLocked_def Select_def Register_def NewRegistry_def counting_gateway_def
      counting_def dummy_backend_def)

theorem chat_answered_witness:
  "wr_body (gw_w (snd (ChatCompletions chat_runtime idle_env [''a''] None (bearing ''x'') (counting_gateway 3)))) = ''{}'' @ [CHR 0x0A]"
proof -
  have reply: "be_ChatCompletion (counting 3) ev' q = Inr (used 3)" for ev' q by (simp add: counting_def)
  then have usage: "be_ChatCompletion (counting 3) idle_env (chat_sent hi_request) = Inr resp \<Longrightarrow> cp_Usage resp = Some u \<Longrightarrow>
      0 \<le> us_PromptTokens u \<and> 0 \<le> us_CompletionTokens u" for resp u
    by (auto simp: used_def)
  show ?thesis
    using chat_answered [OF _ _ _ counting_select [of 3] _ usage, of chat_runtime "bearing ''x''"] reply
    by (simp add: chat_runtime_def plain_runtime_def hi_request_def counting_gateway_def new_writer_def)
qed

text \<open>
  C34: a reply whose usage counts are negative is lost: \<open>Counter.Add\<close> panics on a negative value,
  and it is called before the document is written, so nothing of the completion reaches the
  client.
\<close>

theorem negative_usage_loses_reply:
  assumes "rt_dec_chat rt (rq_body r) = Inr req" and "cr_Messages req \<noteq> []" and "\<not> cr_Stream req"
    and "PrimaryHealthy visit hc (gw_reg g) = (Inr (Some b), reg)"
    and "be_ChatCompletion b ev (chat_sent req) = Inr resp" and "cp_Usage resp = Some u"
    and "us_PromptTokens u < 0" and "\<And>v. v < 0 \<Longrightarrow> rt_add rt v \<noteq> None"
  shows "\<exists>p. fst (ChatCompletions rt ev visit hc r g) = Panicked p
       \<and> gw_w (snd (ChatCompletions rt ev visit hc r g)) = gw_w g"
proof -
  obtain p where "rt_add rt (us_PromptTokens u) = Some p" using assms(7,8) by blast
  then show ?thesis
    unfolding chat_json [OF assms(1-4)] using assms(5,6)
    by (simp add: handleJSON_def counter_add_def Let_def set_reg_def)
qed

theorem negative_usage_loses_reply_witness:
  "gw_w (snd (ChatCompletions chat_runtime idle_env [''a''] None (bearing ''x'') (counting_gateway (- 1)))) = new_writer"
proof -
  have "be_ChatCompletion (counting (- 1)) ev' q = Inr (used (- 1))" for ev' q by (simp add: counting_def)
  then show ?thesis
    using negative_usage_loses_reply [OF _ _ _ counting_select [of "- 1"], of chat_runtime "bearing ''x''" hi_request idle_env "used (- 1)"]
    by (simp add: chat_runtime_def plain_runtime_def hi_request_def used_def counting_gateway_def)
qed

end
