(* ===== verification/Config.thy ===== *)
theory Config
  imports Go_Error Float64
begin

text \<open>
  The package \<open>config\<close>: the configuration record, its defaults, the environment variables that
  override it, and its validation. Parsing of YAML, durations and floats, the process
  environment, the file system and the \<open>%q\<close> verb are arguments. The warnings for variables that
  do not parse are collected as pairs of message and value.
\<close>

section \<open>The configuration\<close>

record watchdog_conf =
  wf_Interval :: int
  wf_FailThreshold :: int
  wf_RequestTimeout :: int

record server_conf =
  sc_Host :: string
  sc_Port :: int
  sc_ReadTimeout :: int
  sc_WriteTimeout :: int

record auth_conf =
  ac_KeysFile :: string

record backend_conf =
  bc_Name :: string
  bc_Type :: string
  bc_URL :: string
  bc_Timeout :: int
  bc_HealthTimeout :: int

record tts_conf =
  tc_Name :: string
  tc_URL :: string
  tc_Timeout :: int

record ratelimit_conf =
  rc_RequestsPerSecond :: float64
  rc_Burst :: int

record log_conf =
  lc_Level :: string
  lc_Format :: string
  lc_CloudFormat :: string

record otel_conf =
  oc_OTelEnabled :: bool
  oc_OTelEndpoint :: string
  oc_OTelServiceName :: string

record config =
  cf_Server :: server_conf
  cf_Auth :: auth_conf
  cf_Backends :: "backend_conf list"
  cf_TTSBackends :: "tts_conf list"
  cf_RateLimit :: ratelimit_conf
  cf_Log :: log_conf
  cf_Observability :: otel_conf
  cf_Watchdog :: watchdog_conf

abbreviation seconds :: "int \<Rightarrow> int" where
  "seconds n \<equiv> n * 1000000000"

definition Defaults :: config where
  "Defaults =
     \<lparr>cf_Server = \<lparr>sc_Host = ''127.0.0.1'', sc_Port = 8080, sc_ReadTimeout = seconds 30, sc_WriteTimeout = seconds 120\<rparr>,
      cf_Auth = \<lparr>ac_KeysFile = ''./keys.txt''\<rparr>,
      cf_Backends =
        [\<lparr>bc_Name = ''ollama'', bc_Type = ''ollama'', bc_URL = ''http://localhost:11434'',
          bc_Timeout = seconds 300, bc_HealthTimeout = seconds 5\<rparr>],
      cf_TTSBackends = [],
      cf_RateLimit = \<lparr>rc_RequestsPerSecond = Fin 10, rc_Burst = 20\<rparr>,
      cf_Log = \<lparr>lc_Level = ''info'', lc_Format = ''json'', lc_CloudFormat = []\<rparr>,
      cf_Observability = \<lparr>oc_OTelEnabled = False, oc_OTelEndpoint = [], oc_OTelServiceName = ''inferencia''\<rparr>,
      cf_Watchdog = \<lparr>wf_Interval = seconds 30, wf_FailThreshold = 3, wf_RequestTimeout = seconds 5\<rparr>\<rparr>"

section \<open>Environment overrides\<close>

type_synonym warnings = "(string \<times> string) list"
type_synonym loading = "config \<times> warnings"

definition warn :: "string \<Rightarrow> string \<Rightarrow> loading \<Rightarrow> loading" where
  "warn m v = (\<lambda>(c, ws). (c, ws @ [(m, v)]))"

definition ttsBackendExists :: "tts_conf list \<Rightarrow> string \<Rightarrow> bool" where
  "ttsBackendExists backends name \<longleftrightarrow> (\<exists>b \<in> set backends. tc_Name b = name)"

definition add_tts :: "string \<Rightarrow> string \<Rightarrow> loading \<Rightarrow> loading" where
  "add_tts name v = (\<lambda>(c, ws).
     (if \<not> ttsBackendExists (cf_TTSBackends c) name
      then c\<lparr>cf_TTSBackends := cf_TTSBackends c @ [\<lparr>tc_Name = name, tc_URL = trim_space v, tc_Timeout = seconds 30\<rparr>]\<rparr>
      else c, ws))"

definition on_conf :: "(config \<Rightarrow> config) \<Rightarrow> loading \<Rightarrow> loading" where
  "on_conf f = (\<lambda>(c, ws). (f c, ws))"

definition set_first_url :: "string \<Rightarrow> config \<Rightarrow> config" where
  "set_first_url url c =
     (case cf_Backends c of [] \<Rightarrow> c | b # bs \<Rightarrow> c\<lparr>cf_Backends := b\<lparr>bc_URL := url\<rparr> # bs\<rparr>)"

text \<open>What each variable does with its value, in the order of the code.\<close>

definition env_overrides ::
  "(string \<Rightarrow> gerr + float64) \<Rightarrow> (string \<Rightarrow> gerr + int) \<Rightarrow> (string \<times> (string \<Rightarrow> loading \<Rightarrow> loading)) list" where
  "env_overrides parse_float parse_duration =
     [(''INFERENCIA_HOST'', \<lambda>v. on_conf (\<lambda>c. c\<lparr>cf_Server := (cf_Server c)\<lparr>sc_Host := v\<rparr>\<rparr>)),
      (''INFERENCIA_PORT'', \<lambda>v. case atoi v of
          Some port \<Rightarrow> on_conf (\<lambda>c. c\<lparr>cf_Server := (cf_Server c)\<lparr>sc_Port := port\<rparr>\<rparr>)
        | None \<Rightarrow> warn ''invalid INFERENCIA_PORT, using default'' v),
      (''INFERENCIA_AUTH_KEYS_FILE'', \<lambda>v. on_conf (\<lambda>c. c\<lparr>cf_Auth := (cf_Auth c)\<lparr>ac_KeysFile := v\<rparr>\<rparr>)),
      (''INFERENCIA_LOG_LEVEL'', \<lambda>v. on_conf (\<lambda>c. c\<lparr>cf_Log := (cf_Log c)\<lparr>lc_Level := to_lower v\<rparr>\<rparr>)),
      (''INFERENCIA_LOG_FORMAT'', \<lambda>v. on_conf (\<lambda>c. c\<lparr>cf_Log := (cf_Log c)\<lparr>lc_Format := to_lower v\<rparr>\<rparr>)),
      (''INFERENCIA_LOG_CLOUD_FORMAT'', \<lambda>v. on_conf (\<lambda>c. c\<lparr>cf_Log := (cf_Log c)\<lparr>lc_CloudFormat := to_lower (trim_space v)\<rparr>\<rparr>)),
      (''INFERENCIA_OTEL_ENABLED'', \<lambda>v. on_conf (\<lambda>c. c\<lparr>cf_Observability :=
          (cf_Observability c)\<lparr>oc_OTelEnabled := (to_lower v = ''true'' \<or> v = ''1'')\<rparr>\<rparr>)),
      (''INFERENCIA_OTEL_ENDPOINT'', \<lambda>v. on_conf (\<lambda>c. c\<lparr>cf_Observability :=
          (cf_Observability c)\<lparr>oc_OTelEndpoint := trim_space v\<rparr>\<rparr>)),
      (''INFERENCIA_OTEL_SERVICE_NAME'', \<lambda>v. on_conf (\<lambda>c. c\<lparr>cf_Observability :=
          (cf_Observability c)\<lparr>oc_OTelServiceName := trim_space v\<rparr>\<rparr>)),
      (''INFERENCIA_RATELIMIT_RPS'', \<lambda>v. case parse_float v of
          Inr rps \<Rightarrow> on_conf (\<lambda>c. c\<lparr>cf_RateLimit := (cf_RateLimit c)\<lparr>rc_RequestsPerSecond := rps\<rparr>\<rparr>)
        | Inl e \<Rightarrow> warn ''invalid INFERENCIA_RATELIMIT_RPS, using default'' v),
      (''INFERENCIA_RATELIMIT_BURST'', \<lambda>v. case atoi v of
          Some burst \<Rightarrow> on_conf (\<lambda>c. c\<lparr>cf_RateLimit := (cf_RateLimit c)\<lparr>rc_Burst := burst\<rparr>\<rparr>)
        | None \<Rightarrow> warn ''invalid INFERENCIA_RATELIMIT_BURST, using default'' v),
      (''INFERENCIA_BACKEND_URL'', \<lambda>v. on_conf (set_first_url (trim_space v))),
      (''INFERENCIA_KOKORO_URL'', add_tts ''kokoro''),
      (''INFERENCIA_CHATTERBOX_URL'', add_tts ''chatterbox''),
      (''INFERENCIA_MISOTTS_URL'', add_tts ''misotts''),
      (''INFERENCIA_ELEVENLABS_URL'', add_tts ''elevenlabs''),
      (''INFERENCIA_WATCHDOG_INTERVAL'', \<lambda>v. case parse_duration v of
          Inr d \<Rightarrow> on_conf (\<lambda>c. c\<lparr>cf_Watchdog := (cf_Watchdog c)\<lparr>wf_Interval := d\<rparr>\<rparr>)
        | Inl e \<Rightarrow> warn ''invalid INFERENCIA_WATCHDOG_INTERVAL, using default'' v),
      (''INFERENCIA_WATCHDOG_FAIL_THRESHOLD'', \<lambda>v. case atoi v of
          Some n \<Rightarrow>
            if 0 < n then on_conf (\<lambda>c. c\<lparr>cf_Watchdog := (cf_Watchdog c)\<lparr>wf_FailThreshold := n\<rparr>\<rparr>)
            else warn ''invalid INFERENCIA_WATCHDOG_FAIL_THRESHOLD, must be positive, using default'' v
        | None \<Rightarrow> warn ''invalid INFERENCIA_WATCHDOG_FAIL_THRESHOLD, using default'' v),
      (''INFERENCIA_WATCHDOG_TIMEOUT'', \<lambda>v. case parse_duration v of
          Inr d \<Rightarrow> on_conf (\<lambda>c. c\<lparr>cf_Watchdog := (cf_Watchdog c)\<lparr>wf_RequestTimeout := d\<rparr>\<rparr>)
        | Inl e \<Rightarrow> warn ''invalid INFERENCIA_WATCHDOG_TIMEOUT, using default'' v)]"

definition override :: "(string \<Rightarrow> string) \<Rightarrow> string \<times> (string \<Rightarrow> loading \<Rightarrow> loading) \<Rightarrow> loading \<Rightarrow> loading" where
  "override getenv = (\<lambda>(name, f) s. let v = getenv name in if v \<noteq> [] then f v s else s)"

definition applyEnvOverrides ::
  "(string \<Rightarrow> gerr + float64) \<Rightarrow> (string \<Rightarrow> gerr + int) \<Rightarrow> (string \<Rightarrow> string) \<Rightarrow> config \<Rightarrow> loading" where
  "applyEnvOverrides parse_float parse_duration getenv c =
     fold (override getenv) (env_overrides parse_float parse_duration) (c, [])"

section \<open>Validation\<close>

definition backend_errors :: "nat \<Rightarrow> backend_conf \<Rightarrow> string list" where
  "backend_errors i b =
     (let place = ''backends['' @ itoa (int i) @ '']''
      in (if bc_Name b = [] then [place @ ''.name is required''] else [])
         @ (if bc_Type b = [] then [place @ ''.type is required''] else [])
         @ (if bc_URL b = [] then [place @ ''.url is required''] else []))"

definition validation_errors :: "(string \<Rightarrow> string) \<Rightarrow> config \<Rightarrow> string list" where
  "validation_errors quote cfg =
     (let port = sc_Port (cf_Server cfg); lg = cf_Log cfg
      in (if port < 1 \<or> 65535 < port
          then [''server.port must be between 1 and 65535, got '' @ itoa port] else [])
         @ (if cf_Backends cfg = [] then [''at least one backend must be configured''] else [])
         @ concat (map (\<lambda>(i, b). backend_errors i b) (enumerate 0 (cf_Backends cfg)))
         @ (if fle (rc_RequestsPerSecond (cf_RateLimit cfg)) (Fin 0)
            then [''ratelimit.requests_per_second must be positive''] else [])
         @ (if rc_Burst (cf_RateLimit cfg) < 1 then [''ratelimit.burst must be at least 1''] else [])
         @ (if lc_Level lg \<notin> {''debug'', ''info'', ''warn'', ''error''}
            then [''log.level must be one of debug, info, warn, error; got '' @ quote (lc_Level lg)] else [])
         @ (if lc_Format lg \<notin> {''json'', ''text''}
            then [''log.format must be json or text; got '' @ quote (lc_Format lg)] else [])
         @ (if lc_CloudFormat lg \<notin> {[], ''gcp'', ''gcp_with_resource''}
            then [''log.cloud_format must be empty, gcp, or gcp_with_resource; got '' @ quote (lc_CloudFormat lg)] else [])
         @ (if oc_OTelEnabled (cf_Observability cfg) \<and> oc_OTelEndpoint (cf_Observability cfg) = []
            then [''observability.otel_endpoint is required when otel_enabled is true''] else []))"

text \<open>\<open>errors.Join\<close>: nil for no errors, otherwise their messages, one a line.\<close>

fun join_lines :: "string list \<Rightarrow> string" where
  "join_lines [] = []"
| "join_lines [m] = m"
| "join_lines (m # ms) = m @ [CHR 0x0A] @ join_lines ms"

definition validate :: "(string \<Rightarrow> string) \<Rightarrow> config \<Rightarrow> gerr option" where
  "validate quote cfg =
     (let errs = validation_errors quote cfg in if errs = [] then None else Some (new_error (join_lines errs)))"

section \<open>Loading\<close>

definition Load ::
  "(string \<Rightarrow> gerr + string) \<Rightarrow> (string \<Rightarrow> config \<Rightarrow> gerr + config) \<Rightarrow> (string \<Rightarrow> gerr + float64) \<Rightarrow>
   (string \<Rightarrow> gerr + int) \<Rightarrow> (string \<Rightarrow> string) \<Rightarrow> (string \<Rightarrow> string) \<Rightarrow> string \<Rightarrow> gerr + config" where
  "Load read_file yaml parse_float parse_duration quote getenv path =
     (let parsed =
        (if path \<noteq> [] then
           (case read_file path of
              Inl e \<Rightarrow> Inl (context_error ''read config file'' e)
            | Inr data \<Rightarrow>
                (case yaml data Defaults of
                   Inl e \<Rightarrow> Inl (context_error ''parse config file'' e)
                 | Inr cfg \<Rightarrow> Inr cfg))
         else Inr Defaults)
      in case parsed of
           Inl e \<Rightarrow> Inl e
         | Inr cfg0 \<Rightarrow>
             let cfg = fst (applyEnvOverrides parse_float parse_duration getenv cfg0)
             in case validate quote cfg of
                  Some e \<Rightarrow> Inl (context_error ''invalid config'' e)
                | None \<Rightarrow> Inr cfg)"

definition Addr :: "server_conf \<Rightarrow> string" where
  "Addr s = sc_Host s @ '':'' @ itoa (sc_Port s)"

section \<open>What a loaded configuration satisfies\<close>

definition config_ok :: "config \<Rightarrow> bool" where
  "config_ok c \<longleftrightarrow>
     1 \<le> sc_Port (cf_Server c) \<and> sc_Port (cf_Server c) \<le> 65535
     \<and> cf_Backends c \<noteq> []
     \<and> (\<forall>b \<in> set (cf_Backends c). bc_Name b \<noteq> [] \<and> bc_Type b \<noteq> [] \<and> bc_URL b \<noteq> [])
     \<and> \<not> fle (rc_RequestsPerSecond (cf_RateLimit c)) (Fin 0) \<and> 1 \<le> rc_Burst (cf_RateLimit c)
     \<and> lc_Level (cf_Log c) \<in> {''debug'', ''info'', ''warn'', ''error''}
     \<and> lc_Format (cf_Log c) \<in> {''json'', ''text''}
     \<and> lc_CloudFormat (cf_Log c) \<in> {[], ''gcp'', ''gcp_with_resource''}
     \<and> (oc_OTelEnabled (cf_Observability c) \<longrightarrow> oc_OTelEndpoint (cf_Observability c) \<noteq> [])"

lemma backend_errors_Nil: "backend_errors i b = [] \<longleftrightarrow> bc_Name b \<noteq> [] \<and> bc_Type b \<noteq> [] \<and> bc_URL b \<noteq> []"
  by (simp add: backend_errors_def Let_def)

lemma all_backends: "(\<forall>(i, b) \<in> set (enumerate n bs). P b) \<longleftrightarrow> (\<forall>b \<in> set bs. P b)"
  by (induction bs arbitrary: n) auto

lemma validate_iff: "validate quote c = None \<longleftrightarrow> config_ok c"
proof -
  have "concat (map (\<lambda>(i, b). backend_errors i b) (enumerate 0 (cf_Backends c))) = [] \<longleftrightarrow>
      (\<forall>(i, b) \<in> set (enumerate 0 (cf_Backends c)). bc_Name b \<noteq> [] \<and> bc_Type b \<noteq> [] \<and> bc_URL b \<noteq> [])"
    by (auto simp: backend_errors_Nil)
  also have "\<dots> \<longleftrightarrow> (\<forall>b \<in> set (cf_Backends c). bc_Name b \<noteq> [] \<and> bc_Type b \<noteq> [] \<and> bc_URL b \<noteq> [])"
    by (rule all_backends)
  finally show ?thesis
    unfolding validate_def validation_errors_def config_ok_def Let_def by (auto simp: not_less)
qed

section \<open>Properties\<close>

lemma Load_yields:
  "Load read_file yaml pf pd quote getenv path = Inr cfg \<longleftrightarrow>
     (\<exists>cfg0. (if path = [] then cfg0 = Defaults
             else \<exists>data. read_file path = Inr data \<and> yaml data Defaults = Inr cfg0)
        \<and> cfg = fst (applyEnvOverrides pf pd getenv cfg0) \<and> config_ok cfg)"
proof (cases "path = []")
  case True
  then show ?thesis
    using validate_iff [of quote "fst (applyEnvOverrides pf pd getenv Defaults)"]
    by (auto simp: Load_def Let_def split: option.split)
next
  case False
  show ?thesis
  proof (cases "read_file path")
    case (Inl e)
    with False show ?thesis by (simp add: Load_def)
  next
    case (Inr data)
    show ?thesis
    proof (cases "yaml data Defaults")
      case (Inl e)
      with False \<open>read_file path = Inr data\<close> show ?thesis by (simp add: Load_def)
    next
      case (Inr cfg0)
      with False \<open>read_file path = Inr data\<close> validate_iff [of quote "fst (applyEnvOverrides pf pd getenv cfg0)"]
      show ?thesis by (auto simp: Load_def Let_def split: option.split)
    qed
  qed
qed

text \<open>
  C40: loading succeeds exactly when the file can be read and parsed and the overridden
  configuration is well-formed, and then it yields that configuration; validation reports nothing
  else and misses nothing.
\<close>

theorem Load_iff:
  "Load read_file yaml pf pd quote getenv path = Inr cfg \<longleftrightarrow>
     (\<exists>cfg0. (if path = [] then cfg0 = Defaults
             else \<exists>data. read_file path = Inr data \<and> yaml data Defaults = Inr cfg0)
        \<and> cfg = fst (applyEnvOverrides pf pd getenv cfg0) \<and> config_ok cfg)"
  by (rule Load_yields)

lemma Load_config_ok: "Load read_file yaml pf pd quote getenv path = Inr cfg \<Longrightarrow> config_ok cfg"
  unfolding Load_yields by blast

lemma no_overrides: "fold (override (\<lambda>_. [])) fs s = s"
  by (induction fs arbitrary: s) (auto simp: override_def)

text \<open>
  Without a file and without variables the program runs with its defaults, which are valid.\<close>

theorem Load_defaults: "Load read_file yaml pf pd quote (\<lambda>_. []) [] = Inr Defaults"
proof -
  have "config_ok Defaults" by (simp add: config_ok_def Defaults_def)
  then have "validate quote Defaults = None" by (simp add: validate_iff)
  then show ?thesis by (simp add: Load_def applyEnvOverrides_def no_overrides Let_def)
qed

lemma override_fst:
  "fst (override getenv (n, f) s) = (if getenv n \<noteq> [] then fst (f (getenv n) s) else fst s)"
  by (simp add: override_def Let_def)

lemma loading_fst:
  "fst (on_conf f s) = f (fst s)" "fst (warn m v s) = fst s"
  "cf_RateLimit (fst (add_tts n v s)) = cf_RateLimit (fst s)"
  "cf_Watchdog (fst (add_tts n v s)) = cf_Watchdog (fst s)"
  "cf_Server (fst (add_tts n v s)) = cf_Server (fst s)"
  by (simp_all add: on_conf_def warn_def add_tts_def split_beta)

lemma set_first_url_keeps:
  "cf_RateLimit (set_first_url u c) = cf_RateLimit c" "cf_Watchdog (set_first_url u c) = cf_Watchdog c"
  "cf_Server (set_first_url u c) = cf_Server c"
  by (simp_all add: set_first_url_def split: list.split)

lemma atoi_Nil: "atoi [] = None"
  by code_simp

lemma fold_keeps:
  "\<forall>x \<in> set fs. \<forall>v s. obs (fst (snd x v s)) = obs (fst s) \<Longrightarrow>
   obs (fst (fold (override getenv) fs s)) = obs (fst s)"
  by (induction fs arbitrary: s) (auto simp: override_fst)

lemma fold_field:
  assumes "k < length fs" and "fst (fs ! k) = n"
    and "\<forall>v s. obs (fst (snd (fs ! k) v s)) = h v (obs (fst s))"
    and "\<forall>x \<in> set (take k fs). \<forall>v s. obs (fst (snd x v s)) = obs (fst s)"
    and "\<forall>x \<in> set (drop (Suc k) fs). \<forall>v s. obs (fst (snd x v s)) = obs (fst s)"
  shows "obs (fst (fold (override getenv) fs s)) =
           (if getenv n \<noteq> [] then h (getenv n) (obs (fst s)) else obs (fst s))"
proof -
  have "fold (override getenv) fs s =
      fold (override getenv) (drop (Suc k) fs) (override getenv (fs ! k) (fold (override getenv) (take k fs) s))"
    by (subst id_take_nth_drop [OF assms(1)]) simp
  then show ?thesis
    using fold_keeps [OF assms(5)] fold_keeps [OF assms(4)] assms(2)
      assms(3) [rule_format, of "getenv n" "fold (override getenv) (take k fs) s"]
    by (cases "fs ! k") (simp add: override_fst)
qed

text \<open>
  A numeric setting takes the value of its variable when that parses (and, for the failure
  threshold, is positive) and otherwise keeps the value of the file, whatever else is set.
\<close>

theorem env_numbers:
  "sc_Port (cf_Server (fst (applyEnvOverrides pf pd getenv c))) =
     (case atoi (getenv ''INFERENCIA_PORT'') of Some p \<Rightarrow> p | None \<Rightarrow> sc_Port (cf_Server c))
 \<and> rc_Burst (cf_RateLimit (fst (applyEnvOverrides pf pd getenv c))) =
     (case atoi (getenv ''INFERENCIA_RATELIMIT_BURST'') of Some n \<Rightarrow> n | None \<Rightarrow> rc_Burst (cf_RateLimit c))
 \<and> wf_FailThreshold (cf_Watchdog (fst (applyEnvOverrides pf pd getenv c))) =
     (case atoi (getenv ''INFERENCIA_WATCHDOG_FAIL_THRESHOLD'') of
        Some n \<Rightarrow> if 0 < n then n else wf_FailThreshold (cf_Watchdog c) | None \<Rightarrow> wf_FailThreshold (cf_Watchdog c))"
proof -
  let ?fs = "env_overrides pf pd"
  note frame = env_overrides_def loading_fst set_first_url_keeps
  have port: "sc_Port (cf_Server (fst (fold (override getenv) ?fs (c, [])))) =
      (if getenv ''INFERENCIA_PORT'' \<noteq> []
       then case atoi (getenv ''INFERENCIA_PORT'') of None \<Rightarrow> sc_Port (cf_Server (fst (c, []))) | Some p \<Rightarrow> p
       else sc_Port (cf_Server (fst (c, []))))"
    by (subst fold_field [where k = 1 and fs = ?fs and n = "''INFERENCIA_PORT''"
          and obs = "\<lambda>c. sc_Port (cf_Server c)"
          and h = "\<lambda>v old. case atoi v of None \<Rightarrow> old | Some p \<Rightarrow> p"])
      (simp_all add: frame split: option.split sum.split)
  have burst: "rc_Burst (cf_RateLimit (fst (fold (override getenv) ?fs (c, [])))) =
      (if getenv ''INFERENCIA_RATELIMIT_BURST'' \<noteq> []
       then case atoi (getenv ''INFERENCIA_RATELIMIT_BURST'') of None \<Rightarrow> rc_Burst (cf_RateLimit (fst (c, []))) | Some p \<Rightarrow> p
       else rc_Burst (cf_RateLimit (fst (c, []))))"
    by (subst fold_field [where k = 10 and fs = ?fs and n = "''INFERENCIA_RATELIMIT_BURST''"
          and obs = "\<lambda>c. rc_Burst (cf_RateLimit c)"
          and h = "\<lambda>v old. case atoi v of None \<Rightarrow> old | Some p \<Rightarrow> p"])
      (simp_all add: frame split: option.split sum.split)
  have streak: "wf_FailThreshold (cf_Watchdog (fst (fold (override getenv) ?fs (c, [])))) =
      (if getenv ''INFERENCIA_WATCHDOG_FAIL_THRESHOLD'' \<noteq> []
       then case atoi (getenv ''INFERENCIA_WATCHDOG_FAIL_THRESHOLD'') of
              None \<Rightarrow> wf_FailThreshold (cf_Watchdog (fst (c, [])))
            | Some p \<Rightarrow> if 0 < p then p else wf_FailThreshold (cf_Watchdog (fst (c, [])))
       else wf_FailThreshold (cf_Watchdog (fst (c, []))))"
    by (subst fold_field [where k = 17 and fs = ?fs and n = "''INFERENCIA_WATCHDOG_FAIL_THRESHOLD''"
          and obs = "\<lambda>c. wf_FailThreshold (cf_Watchdog c)"
          and h = "\<lambda>v old. case atoi v of None \<Rightarrow> old | Some p \<Rightarrow> if 0 < p then p else old"])
      (simp_all add: frame split: option.split sum.split)
  show ?thesis
    unfolding applyEnvOverrides_def
    by (subst port, subst burst, subst streak) (auto simp: atoi_Nil split: option.split)
qed

definition only_set :: "(string \<times> string) list \<Rightarrow> string \<Rightarrow> string" where
  "only_set vars name = (case map_of vars name of None \<Rightarrow> [] | Some v \<Rightarrow> v)"

text \<open>
  C10: an environment can make the loaded configuration unsafe without any error: a rate that is
  not a number and a watchdog interval of zero both pass validation.
\<close>

theorem unsafe_config_loads:
  assumes "pf ''NaN'' = Inr NaN" and "pd ''0s'' = Inr 0"
  shows "\<exists>cfg. Load read_file yaml pf pd quote
            (only_set [(''INFERENCIA_RATELIMIT_RPS'', ''NaN''), (''INFERENCIA_WATCHDOG_INTERVAL'', ''0s'')]) [] = Inr cfg
          \<and> rc_RequestsPerSecond (cf_RateLimit cfg) = NaN \<and> wf_Interval (cf_Watchdog cfg) = 0"
proof -
  let ?env = "only_set [(''INFERENCIA_RATELIMIT_RPS'', ''NaN''), (''INFERENCIA_WATCHDOG_INTERVAL'', ''0s'')]"
  let ?cfg = "Defaults\<lparr>cf_RateLimit := (cf_RateLimit Defaults)\<lparr>rc_RequestsPerSecond := NaN\<rparr>,
    cf_Watchdog := (cf_Watchdog Defaults)\<lparr>wf_Interval := 0\<rparr>\<rparr>"
  have "fst (applyEnvOverrides pf pd ?env Defaults) = ?cfg"
    using assms by (simp add: applyEnvOverrides_def env_overrides_def override_def only_set_def Let_def on_conf_def)
  moreover have "validate quote ?cfg = None" by (simp add: validate_iff config_ok_def Defaults_def)
  ultimately have "Load read_file yaml pf pd quote ?env [] = Inr ?cfg" by (simp add: Load_def Let_def)
  then show ?thesis by (intro exI [of _ ?cfg]) simp
qed

theorem unsafe_config_loads_witness:
  "\<exists>cfg. Load (\<lambda>_. Inr []) (\<lambda>_ c. Inr c) (\<lambda>_. Inr NaN) (\<lambda>_. Inr 0) id
       (only_set [(''INFERENCIA_RATELIMIT_RPS'', ''NaN''), (''INFERENCIA_WATCHDOG_INTERVAL'', ''0s'')]) [] = Inr cfg
     \<and> wf_Interval (cf_Watchdog cfg) = 0"
  using unsafe_config_loads [of "\<lambda>_. Inr NaN" "\<lambda>_. Inr 0" "\<lambda>_. Inr []" "\<lambda>_ c. Inr c" id] by auto

end
