(* ===== verification/Dispatch.thy ===== *)
theory Dispatch
  imports Load_Balancer
begin

text \<open>
  Concurrent requests at one load balancer. \<open>PrimaryHealthy\<close> and \<open>pickBalanced\<close> hold a read lock
  only, and \<open>Select\<close>, \<open>Acquire\<close> and \<open>Release\<close> each take the balancer's mutex by themselves, so
  any number of requests may choose before one of them is charged. The step relation interleaves
  these three sections of any number of requests. It is an abstraction: the candidates of a choice are
  arbitrary and nothing is ever refused; \<open>Locking\<close> has every lock operation of the code and refines it.
\<close>

datatype phase = Waiting | Chosen string | Serving string | Finished

record dispatch =
  dp_lb :: load_balancer
  dp_phase :: "nat \<Rightarrow> phase"

definition dispatch_start :: dispatch where
  "dispatch_start = \<lparr>dp_lb = NewLoadBalancer, dp_phase = (\<lambda>_. Waiting)\<rparr>"

definition serving :: "dispatch \<Rightarrow> string \<Rightarrow> nat set" where
  "serving s n = {i. dp_phase s i = Serving n}"

inductive dispatch_step :: "dispatch \<Rightarrow> dispatch \<Rightarrow> bool" where
  choose:
    "dp_phase s i = Waiting \<Longrightarrow> names \<noteq> [] \<Longrightarrow> Select (dp_lb s) names = (n, lb) \<Longrightarrow>
     dispatch_step s (s\<lparr>dp_lb := lb, dp_phase := (dp_phase s)(i := Chosen n)\<rparr>)"
| charge_one:
    "dp_phase s i = Chosen n \<Longrightarrow>
     dispatch_step s (s\<lparr>dp_lb := Acquire n (dp_lb s), dp_phase := (dp_phase s)(i := Serving n)\<rparr>)"
| finish:
    "dp_phase s i = Serving n \<Longrightarrow>
     dispatch_step s (s\<lparr>dp_lb := Release n (dp_lb s), dp_phase := (dp_phase s)(i := Finished)\<rparr>)"

inductive_cases dispatch_stepE: "dispatch_step s s'"

inductive reachable_dispatch :: "dispatch \<Rightarrow> bool" where
  start: "reachable_dispatch dispatch_start"
| step: "reachable_dispatch s \<Longrightarrow> dispatch_step s s' \<Longrightarrow> reachable_dispatch s'"

definition counts_serving :: "dispatch \<Rightarrow> bool" where
  "counts_serving s \<longleftrightarrow>
     finite {i. dp_phase s i \<noteq> Waiting} \<and> (\<forall>n. InFlight (dp_lb s) n = int (card (serving s n)))"

lemma finite_serving: "finite {i. dp_phase s i \<noteq> Waiting} \<Longrightarrow> finite (serving s n)"
  by (rule finite_subset [of _ "{i. dp_phase s i \<noteq> Waiting}"]) (auto simp: serving_def)

lemma finite_upd: "finite {i. f i \<noteq> Waiting} \<Longrightarrow> finite {i. (f(j := p)) i \<noteq> Waiting}"
  by (rule finite_subset [of _ "insert j {i. f i \<noteq> Waiting}"]) auto

lemma finite_phase:
  "finite {i. dp_phase s i \<noteq> Waiting} \<Longrightarrow> dp_phase s' = (dp_phase s)(j := p) \<Longrightarrow>
   finite {i. dp_phase s' i \<noteq> Waiting}"
  by (simp only: finite_upd)

lemma counts_serving_step:
  assumes "counts_serving s" and "dispatch_step s s'"
  shows "counts_serving s'"
  using assms(2)
proof (cases rule: dispatch_stepE [consumes 1, case_names choose charge_one finish])
  case (choose i names n lb)
  have "InFlight lb k = InFlight (dp_lb s) k" for k
    using Select_load [of "dp_lb s" names k] choose(4) by simp
  moreover have "serving s' k = serving s k" for k using choose(1,2) by (auto simp: serving_def)
  moreover have "finite {j. dp_phase s' j \<noteq> Waiting}"
    using assms(1) choose(1) by (intro finite_phase [of s s' i "Chosen n"]) (auto simp: counts_serving_def)
  ultimately show ?thesis using assms(1) choose(1) by (simp add: counts_serving_def)
next
  case (charge_one i n)
  have fin: "finite {j. dp_phase s j \<noteq> Waiting}" using assms(1) by (simp add: counts_serving_def)
  have "serving s' k = (if k = n then insert i (serving s k) else serving s k)" for k
    using charge_one by (auto simp: serving_def)
  moreover have "i \<notin> serving s n" using charge_one(2) by (simp add: serving_def)
  ultimately have "int (card (serving s' k)) = int (card (serving s k)) + (if k = n then 1 else 0)" for k
    using finite_serving [OF fin] by simp
  moreover have "finite {j. dp_phase s' j \<noteq> Waiting}"
    using charge_one(1) by (intro finite_phase [OF fin, of s' i "Serving n"]) simp
  ultimately show ?thesis using assms(1) charge_one(1) by (simp add: counts_serving_def Acquire_load)
next
  case (finish i n)
  have fin: "finite {j. dp_phase s j \<noteq> Waiting}" using assms(1) by (simp add: counts_serving_def)
  have i: "i \<in> serving s n" using finish(2) by (simp add: serving_def)
  have "serving s' k = (if k = n then serving s k - {i} else serving s k)" for k
    using finish by (auto simp: serving_def)
  moreover have "0 < card (serving s n)" using i finite_serving [OF fin] by (auto simp: card_gt_0_iff)
  ultimately have "int (card (serving s' k)) = int (card (serving s k)) - (if k = n then 1 else 0)" for k
    using i finite_serving [OF fin, of n] by (simp add: card_Diff_singleton of_nat_diff)
  moreover have "0 < InFlight (dp_lb s) n"
    using assms(1) \<open>0 < card (serving s n)\<close> by (simp add: counts_serving_def)
  moreover have "finite {j. dp_phase s' j \<noteq> Waiting}"
    using finish(1) by (intro finite_phase [OF fin, of s' i Finished]) simp
  ultimately show ?thesis
    using assms(1) finish(1) by (simp add: counts_serving_def Release_load)
qed

lemma reachable_counts: "reachable_dispatch s \<Longrightarrow> counts_serving s"
proof (induction rule: reachable_dispatch.induct)
  case start
  show ?case by (simp add: counts_serving_def dispatch_start_def serving_def InFlight_def NewLoadBalancer_def)
next
  case (step s s')
  from step.IH step.hyps(2) show ?case by (rule counts_serving_step)
qed

text \<open>
  C38: in every interleaving of concurrent requests the load of a backend is the number of requests
  it is serving, so it is never negative, and it is zero when none is left.
\<close>

theorem load_counts_serving:
  assumes "reachable_dispatch s"
  shows "InFlight (dp_lb s) n = int (card (serving s n)) \<and> finite (serving s n)"
  using reachable_counts [OF assms] finite_serving by (simp add: counts_serving_def)

definition after_two :: dispatch where
  "after_two =
     (let lb1 = snd (Select NewLoadBalancer [''a'']); lb2 = snd (Select lb1 [''a''])
      in \<lparr>dp_lb = Acquire ''a'' (Acquire ''a'' lb2),
          dp_phase = (\<lambda>_. Waiting)(0 := Chosen ''a'', 1 := Chosen ''a'', 0 := Serving ''a'', 1 := Serving ''a'')\<rparr>)"

lemma choose_a: "dp_phase s i = Waiting \<Longrightarrow> dp_lb s = lb \<Longrightarrow>
    dispatch_step s (s\<lparr>dp_lb := snd (Select lb [''a'']), dp_phase := (dp_phase s)(i := Chosen ''a'')\<rparr>)"
  by (rule dispatch_step.choose [of s i "[''a'']"]) (auto simp: Select_def Let_def split: prod.split)

theorem load_counts_serving_witness: "InFlight (dp_lb after_two) ''a'' = 2"
proof -
  have "reachable_dispatch after_two"
  proof -
    let ?s1 = "dispatch_start\<lparr>dp_lb := snd (Select NewLoadBalancer [''a'']), dp_phase := (dp_phase dispatch_start)(0 := Chosen ''a'')\<rparr>"
    let ?s2 = "?s1\<lparr>dp_lb := snd (Select (dp_lb ?s1) [''a'']), dp_phase := (dp_phase ?s1)(1 := Chosen ''a'')\<rparr>"
    let ?s3 = "?s2\<lparr>dp_lb := Acquire ''a'' (dp_lb ?s2), dp_phase := (dp_phase ?s2)(0 := Serving ''a'')\<rparr>"
    let ?s4 = "?s3\<lparr>dp_lb := Acquire ''a'' (dp_lb ?s3), dp_phase := (dp_phase ?s3)(1 := Serving ''a'')\<rparr>"
    have "reachable_dispatch ?s1"
      by (rule reachable_dispatch.step [OF reachable_dispatch.start], rule choose_a) (simp_all add: dispatch_start_def)
    then have "reachable_dispatch ?s2"
      by (rule reachable_dispatch.step, intro choose_a) (simp_all add: dispatch_start_def)
    then have "reachable_dispatch ?s3"
      by (rule reachable_dispatch.step, intro dispatch_step.charge_one) simp
    then have "reachable_dispatch ?s4"
      by (rule reachable_dispatch.step, intro dispatch_step.charge_one) simp
    moreover have "?s4 = after_two" by (simp add: after_two_def Let_def dispatch_start_def)
    ultimately show ?thesis by simp
  qed
  from load_counts_serving [OF this, of "''a''"]
  have "InFlight (dp_lb after_two) ''a'' = int (card (serving after_two ''a''))" by blast
  also have "serving after_two ''a'' = {0, 1}" by (auto simp: serving_def after_two_def Let_def)
  finally show ?thesis by simp
qed

end
