(* ===== verification/Locking.thy ===== *)
theory Locking
  imports Dispatch Watchdog
begin

text \<open>
  The locks of the program, one operation at a time: chat requests going through
  \<open>PrimaryHealthy\<close>, their backend call and \<open>ReleaseBackend\<close>, and probes of the watchdog, in any
  number and any interleaving. A thread is a program counter with its local variables. Every
  \<open>Lock\<close>, \<open>RLock\<close>, \<open>Unlock\<close> and \<open>RUnlock\<close> of the source is a step of its own, and so is every
  statement between them that reads or writes shared state. The call of a backend is the only step
  that the program cannot take by itself. The coarser \<open>Dispatch\<close> is an abstraction of this.
\<close>

section \<open>Locks and threads\<close>

datatype mutex = ChatMu | TtsMu | WdMu

text \<open>
  A \<open>sync.RWMutex\<close>: a writer first announces itself, which keeps new readers out, and then waits
  for the readers that are in. The announced writer is recorded here.
\<close>

record rwmutex =
  rw_writer :: "nat option"
  rw_readers :: "nat set"

datatype origin = ChatReg | TtsReg

fun mutex_of :: "origin \<Rightarrow> mutex" where
  "mutex_of ChatReg = ChatMu"
| "mutex_of TtsReg = TtsMu"

text \<open>
  Where a thread is. For a request: \<open>ns\<close> are the names whose health is still to be asked and \<open>hs\<close>
  those found healthy. For a probe: \<open>ns\<close> are the backends still to be checked.
\<close>

datatype pc =
    Entry | Looking
  | Asking "string list" "string list" | Querying string "string list" "string list"
  | Queried "string list" "string list"
  | WantSelect "string list" | Selecting "string list" | Selected string
  | WantAcquire string | Acquiring string | Acquired string
  | Leaving string | Calling string
  | WantRelease string | Releasing string | Released | Done
  | Failing | Failed
  | ProbeEntry origin | Listing origin | Listed origin "string list" | Probing origin "string list"
  | WantCheck origin string "gerr option" "string list" | Draining origin string "gerr option" "string list"
  | Checking origin string "gerr option" "string list" | Checked origin "string list"

record sys =
  sy_reg :: registry
  sy_rtr :: router
  sy_wd :: "watchdog \<times> observed"
  sy_rw :: "mutex \<Rightarrow> rwmutex"
  sy_lb :: "nat option"
  sy_pc :: "nat \<Rightarrow> pc"

definition can_read :: "mutex \<Rightarrow> sys \<Rightarrow> bool" where
  "can_read m s \<longleftrightarrow> rw_writer (sy_rw s m) = None"

definition rlock :: "mutex \<Rightarrow> nat \<Rightarrow> sys \<Rightarrow> sys" where
  "rlock m i s = s\<lparr>sy_rw := (sy_rw s)(m := (sy_rw s m)\<lparr>rw_readers := insert i (rw_readers (sy_rw s m))\<rparr>)\<rparr>"

definition runlock :: "mutex \<Rightarrow> nat \<Rightarrow> sys \<Rightarrow> sys" where
  "runlock m i s = s\<lparr>sy_rw := (sy_rw s)(m := (sy_rw s m)\<lparr>rw_readers := rw_readers (sy_rw s m) - {i}\<rparr>)\<rparr>"

definition announce :: "mutex \<Rightarrow> nat \<Rightarrow> sys \<Rightarrow> sys" where
  "announce m i s = s\<lparr>sy_rw := (sy_rw s)(m := (sy_rw s m)\<lparr>rw_writer := Some i\<rparr>)\<rparr>"

definition unlock :: "mutex \<Rightarrow> sys \<Rightarrow> sys" where
  "unlock m s = s\<lparr>sy_rw := (sy_rw s)(m := (sy_rw s m)\<lparr>rw_writer := None\<rparr>)\<rparr>"

definition goto :: "nat \<Rightarrow> pc \<Rightarrow> sys \<Rightarrow> sys" where
  "goto i p s = s\<lparr>sy_pc := (sy_pc s)(i := p)\<rparr>"

definition set_lb :: "load_balancer \<Rightarrow> sys \<Rightarrow> sys" where
  "set_lb lb s = s\<lparr>sy_reg := (sy_reg s)\<lparr>rg_lb := lb\<rparr>\<rparr>"

abbreviation the_lb :: "sys \<Rightarrow> load_balancer" where
  "the_lb s \<equiv> rg_lb (sy_reg s)"

section \<open>The steps\<close>

text \<open>
  A request: \<open>PrimaryHealthy\<close> with the watchdog as its health checker, up to \<open>Leaving\<close>, where the
  deferred \<open>RUnlock\<close> runs; then the call; then \<open>ReleaseBackend\<close>. \<open>Select\<close> takes the balancer's
  mutex only for two candidates or more. The order in which the map is visited is arbitrary.
\<close>

inductive request_step :: "nat \<Rightarrow> sys \<Rightarrow> sys \<Rightarrow> bool" for i where
  enter: "sy_pc s i = Entry \<Longrightarrow> can_read ChatMu s \<Longrightarrow> request_step i s (goto i Looking (rlock ChatMu i s))"
| look_empty: "sy_pc s i = Looking \<Longrightarrow> rg_backends (sy_reg s) = [] \<Longrightarrow> request_step i s (goto i Failing s)"
| look: "sy_pc s i = Looking \<Longrightarrow> rg_backends (sy_reg s) \<noteq> [] \<Longrightarrow> iterates visit (rg_backends (sy_reg s)) \<Longrightarrow>
    request_step i s (goto i (Asking (healthyOrderLocked visit None (sy_reg s)) []) s)"
| ask: "sy_pc s i = Asking (n # ns) hs \<Longrightarrow> can_read WdMu s \<Longrightarrow>
    request_step i s (goto i (Querying n ns hs) (rlock WdMu i s))"
| query: "sy_pc s i = Querying n ns hs \<Longrightarrow>
    request_step i s (goto i (Queried ns (if IsHealthy (fst (sy_wd s)) n then hs @ [n] else hs)) s)"
| asked: "sy_pc s i = Queried ns hs \<Longrightarrow> request_step i s (goto i (Asking ns hs) (runlock WdMu i s))"
| none_healthy: "sy_pc s i = Asking [] [] \<Longrightarrow> request_step i s (goto i Failing s)"
| one_healthy: "sy_pc s i = Asking [] [n] \<Longrightarrow> request_step i s (goto i (WantAcquire n) s)"
| some_healthy: "sy_pc s i = Asking [] (n # m # hs) \<Longrightarrow> request_step i s (goto i (WantSelect (n # m # hs)) s)"
| lock_select: "sy_pc s i = WantSelect hs \<Longrightarrow> sy_lb s = None \<Longrightarrow>
    request_step i s (goto i (Selecting hs) (s\<lparr>sy_lb := Some i\<rparr>))"
| select: "sy_pc s i = Selecting hs \<Longrightarrow> Select (the_lb s) hs = (n, lb) \<Longrightarrow>
    request_step i s (goto i (Selected n) (set_lb lb s))"
| unlock_select: "sy_pc s i = Selected n \<Longrightarrow> request_step i s (goto i (WantAcquire n) (s\<lparr>sy_lb := None\<rparr>))"
| lock_acquire: "sy_pc s i = WantAcquire n \<Longrightarrow> sy_lb s = None \<Longrightarrow>
    request_step i s (goto i (Acquiring n) (s\<lparr>sy_lb := Some i\<rparr>))"
| acquire: "sy_pc s i = Acquiring n \<Longrightarrow> request_step i s (goto i (Acquired n) (set_lb (Acquire n (the_lb s)) s))"
| unlock_acquire: "sy_pc s i = Acquired n \<Longrightarrow> request_step i s (goto i (Leaving n) (s\<lparr>sy_lb := None\<rparr>))"
| leave: "sy_pc s i = Leaving n \<Longrightarrow> request_step i s (goto i (Calling n) (runlock ChatMu i s))"
| lock_release: "sy_pc s i = WantRelease n \<Longrightarrow> sy_lb s = None \<Longrightarrow>
    request_step i s (goto i (Releasing n) (s\<lparr>sy_lb := Some i\<rparr>))"
| release: "sy_pc s i = Releasing n \<Longrightarrow> request_step i s (goto i Released (set_lb (Release n (the_lb s)) s))"
| unlock_release: "sy_pc s i = Released \<Longrightarrow> request_step i s (goto i Done (s\<lparr>sy_lb := None\<rparr>))"
| fail: "sy_pc s i = Failing \<Longrightarrow> request_step i s (goto i Failed (runlock ChatMu i s))"

text \<open>
  A probe of the watchdog: \<open>All\<close> of each registry in turn, and for every backend its health call
  (without a lock) and then \<open>checkBackend\<close> behind the watchdog's mutex.
\<close>

inductive probe_step :: "nat \<Rightarrow> sys \<Rightarrow> sys \<Rightarrow> bool" for i where
  p_enter: "sy_pc s i = ProbeEntry src \<Longrightarrow> can_read (mutex_of src) s \<Longrightarrow>
    probe_step i s (goto i (Listing src) (rlock (mutex_of src) i s))"
| p_list_chat: "sy_pc s i = Listing ChatReg \<Longrightarrow> iterates visit (rg_backends (sy_reg s)) \<Longrightarrow>
    probe_step i s (goto i (Listed ChatReg (map be_Name (All visit (sy_reg s)))) s)"
| p_list_tts: "sy_pc s i = Listing TtsReg \<Longrightarrow> iterates visit (rr_backends (sy_rtr s)) \<Longrightarrow>
    probe_step i s (goto i (Listed TtsReg (map bi_Name [x \<leftarrow> AllInfos visit (sy_rtr s). bi_TTSBackend x \<noteq> None])) s)"
| p_listed: "sy_pc s i = Listed src ns \<Longrightarrow> probe_step i s (goto i (Probing src ns) (runlock (mutex_of src) i s))"
| p_next: "sy_pc s i = Probing ChatReg [] \<Longrightarrow> probe_step i s (goto i (ProbeEntry TtsReg) s)"
| p_announce: "sy_pc s i = WantCheck src n err ns \<Longrightarrow> rw_writer (sy_rw s WdMu) = None \<Longrightarrow>
    probe_step i s (goto i (Draining src n err ns) (announce WdMu i s))"
| p_drained: "sy_pc s i = Draining src n err ns \<Longrightarrow> rw_readers (sy_rw s WdMu) = {} \<Longrightarrow>
    probe_step i s (goto i (Checking src n err ns) s)"
| p_check: "sy_pc s i = Checking src n err ns \<Longrightarrow>
    probe_step i s (goto i (Checked src ns) (s\<lparr>sy_wd := checkBackend n err (sy_wd s)\<rparr>))"
| p_unlock: "sy_pc s i = Checked src ns \<Longrightarrow> probe_step i s (goto i (Probing src ns) (unlock WdMu s))"

text \<open>What only a backend can do: answer the call of a request, or a health call in any way.\<close>

inductive call_returns :: "nat \<Rightarrow> sys \<Rightarrow> sys \<Rightarrow> bool" for i where
  answered: "sy_pc s i = Calling n \<Longrightarrow> call_returns i s (goto i (WantRelease n) s)"
| probed: "sy_pc s i = Probing src (n # ns) \<Longrightarrow> call_returns i s (goto i (WantCheck src n err ns) s)"

inductive_cases request_stepE: "request_step i s s'"
inductive_cases probe_stepE: "probe_step i s s'"
inductive_cases call_returnsE: "call_returns i s s'"

definition own_step :: "nat \<Rightarrow> sys \<Rightarrow> sys \<Rightarrow> bool" where
  "own_step n s s' \<longleftrightarrow> (\<exists>i<n. request_step i s s' \<or> probe_step i s s')"

definition any_step :: "nat \<Rightarrow> sys \<Rightarrow> sys \<Rightarrow> bool" where
  "any_step n s s' \<longleftrightarrow> own_step n s s' \<or> (\<exists>i<n. call_returns i s s')"

definition free_rw :: rwmutex where
  "free_rw = \<lparr>rw_writer = None, rw_readers = {}\<rparr>"

definition sys_start :: "registry \<Rightarrow> router \<Rightarrow> watchdog \<times> observed \<Rightarrow> nat set \<Rightarrow> sys" where
  "sys_start reg rtr wd probes =
     \<lparr>sy_reg = reg, sy_rtr = rtr, sy_wd = wd, sy_rw = (\<lambda>_. free_rw), sy_lb = None,
      sy_pc = (\<lambda>i. if i \<in> probes then ProbeEntry ChatReg else Entry)\<rparr>"

lemmas sys_defs = rlock_def runlock_def announce_def unlock_def goto_def set_lb_def can_read_def

section \<open>Who holds which lock\<close>

fun reads_from :: "pc \<Rightarrow> mutex set" where
  "reads_from Looking = {ChatMu}" | "reads_from (Asking ns hs) = {ChatMu}"
| "reads_from (Querying n ns hs) = {ChatMu, WdMu}" | "reads_from (Queried ns hs) = {ChatMu, WdMu}"
| "reads_from (WantSelect hs) = {ChatMu}" | "reads_from (Selecting hs) = {ChatMu}" | "reads_from (Selected n) = {ChatMu}"
| "reads_from (WantAcquire n) = {ChatMu}" | "reads_from (Acquiring n) = {ChatMu}" | "reads_from (Acquired n) = {ChatMu}"
| "reads_from (Leaving n) = {ChatMu}" | "reads_from Failing = {ChatMu}"
| "reads_from (Listing src) = {mutex_of src}" | "reads_from (Listed src ns) = {mutex_of src}"
| "reads_from p = {}"

fun writes_wd :: "pc \<Rightarrow> bool" where
  "writes_wd (Draining src n err ns) = True" | "writes_wd (Checking src n err ns) = True"
| "writes_wd (Checked src ns) = True" | "writes_wd p = False"

fun holds_lb :: "pc \<Rightarrow> bool" where
  "holds_lb (Selecting hs) = True" | "holds_lb (Selected n) = True" | "holds_lb (Acquiring n) = True"
| "holds_lb (Acquired n) = True" | "holds_lb (Releasing n) = True" | "holds_lb Released = True" | "holds_lb p = False"

fun candidates_ok :: "pc \<Rightarrow> bool" where
  "candidates_ok (WantSelect hs) = (hs \<noteq> [])" | "candidates_ok (Selecting hs) = (hs \<noteq> [])" | "candidates_ok p = True"

text \<open>
  The locks agree with the program counters: the readers of a mutex are the threads between their
  \<open>RLock\<close> and their \<open>RUnlock\<close>, the only writer is a probe at \<open>checkBackend\<close>, and the balancer's mutex is
  held by the thread in one of its critical sections.
\<close>

definition locks_ok :: "sys \<Rightarrow> bool" where
  "locks_ok s \<longleftrightarrow>
     (\<forall>m i. i \<in> rw_readers (sy_rw s m) \<longleftrightarrow> m \<in> reads_from (sy_pc s i))
     \<and> (\<forall>i. rw_writer (sy_rw s WdMu) = Some i \<longleftrightarrow> writes_wd (sy_pc s i))
     \<and> rw_writer (sy_rw s ChatMu) = None \<and> rw_writer (sy_rw s TtsMu) = None
     \<and> (\<forall>i. sy_lb s = Some i \<longleftrightarrow> holds_lb (sy_pc s i))
     \<and> (\<forall>i. candidates_ok (sy_pc s i))"

lemma locks_ok_start: "locks_ok (sys_start reg rtr wd probes)"
  by (simp add: locks_ok_def sys_start_def free_rw_def)

lemma mutex_of_not_Wd [simp]: "mutex_of src \<noteq> WdMu" "WdMu \<noteq> mutex_of src"
  by (cases src; simp)+

text \<open>One thread moves from \<open>p\<close> to \<open>p'\<close> and takes or gives back what the two differ in.\<close>

lemma locks_ok_move:
  assumes ok: "locks_ok s" and pc: "sy_pc s' = (sy_pc s)(i := p')"
    and others: "\<And>m j. j \<noteq> i \<Longrightarrow> j \<in> rw_readers (sy_rw s' m) \<longleftrightarrow> j \<in> rw_readers (sy_rw s m)"
    and mine: "\<And>m. i \<in> rw_readers (sy_rw s' m) \<longleftrightarrow> m \<in> reads_from p'"
    and writer: "if writes_wd p' = writes_wd (sy_pc s i) then rw_writer (sy_rw s' WdMu) = rw_writer (sy_rw s WdMu)
      else if writes_wd p' then rw_writer (sy_rw s WdMu) = None \<and> rw_writer (sy_rw s' WdMu) = Some i
      else rw_writer (sy_rw s' WdMu) = None"
    and lb: "if holds_lb p' = holds_lb (sy_pc s i) then sy_lb s' = sy_lb s
      else if holds_lb p' then sy_lb s = None \<and> sy_lb s' = Some i else sy_lb s' = None"
    and rest: "rw_writer (sy_rw s' ChatMu) = None" "rw_writer (sy_rw s' TtsMu) = None" "candidates_ok p'"
  shows "locks_ok s'"
proof -
  have one: "writes_wd (sy_pc s i) \<Longrightarrow> writes_wd (sy_pc s j) \<Longrightarrow> j = i" "holds_lb (sy_pc s i) \<Longrightarrow> holds_lb (sy_pc s j) \<Longrightarrow> j = i" for j
    using ok unfolding locks_ok_def by (metis option.inject)+
  have "rw_writer (sy_rw s' WdMu) = Some j \<longleftrightarrow> writes_wd (sy_pc s' j)" for j
    using ok writer one(1) [of j] by (cases "j = i") (auto simp: locks_ok_def pc split: if_splits)
  moreover have "sy_lb s' = Some j \<longleftrightarrow> holds_lb (sy_pc s' j)" for j
    using ok lb one(2) [of j] by (cases "j = i") (auto simp: locks_ok_def pc split: if_splits)
  moreover have "j \<in> rw_readers (sy_rw s' m) \<longleftrightarrow> m \<in> reads_from (sy_pc s' j)" for j m
    using ok others mine by (cases "j = i") (auto simp: locks_ok_def pc)
  moreover have "candidates_ok (sy_pc s' j)" for j using ok rest(3) by (simp add: locks_ok_def pc)
  ultimately show ?thesis using rest unfolding locks_ok_def by blast
qed

lemma locks_okD:
  assumes "locks_ok s"
  shows "i \<in> rw_readers (sy_rw s m) \<longleftrightarrow> m \<in> reads_from (sy_pc s i)" "rw_writer (sy_rw s ChatMu) = None"
    "rw_writer (sy_rw s TtsMu) = None" "candidates_ok (sy_pc s i)"
  using assms by (simp_all add: locks_ok_def)

lemma locks_ok_request:
  assumes "request_step i s s'" and ok: "locks_ok s"
  shows "locks_ok s'"
  using assms(1) locks_okD(4) [OF ok, of i]
  by (cases rule: request_step.cases)
    (rule locks_ok_move [OF ok, where i = i], (simp add: sys_defs; fail),
      (auto simp: sys_defs locks_okD [OF ok] split: if_splits; fail)+)+

lemma locks_ok_probe:
  assumes "probe_step i s s'" and ok: "locks_ok s"
  shows "locks_ok s'"
  using assms(1)
proof (cases rule: probe_step.cases)
  case (p_enter src)
  then show ?thesis
    by (intro locks_ok_move [OF ok, of _ i "Listing src"]) (cases src; auto simp: sys_defs locks_okD [OF ok])+
next
  case (p_listed src ns)
  then show ?thesis
    by (intro locks_ok_move [OF ok, of _ i "Probing src ns"]) (cases src; auto simp: sys_defs locks_okD [OF ok])+
qed (rule locks_ok_move [OF ok, where i = i], (simp add: sys_defs; fail),
      (auto simp: sys_defs locks_okD [OF ok] split: if_splits; fail)+)+

lemma locks_ok_call:
  assumes "call_returns i s s'" and ok: "locks_ok s"
  shows "locks_ok s'"
  using assms(1)
  by (cases rule: call_returns.cases)
    (rule locks_ok_move [OF ok, where i = i], (simp add: sys_defs; fail),
      (auto simp: sys_defs locks_okD [OF ok] split: if_splits; fail)+)+

section \<open>Nobody is blocked for good\<close>

fun finished :: "pc \<Rightarrow> bool" where
  "finished Done = True" | "finished Failed = True" | "finished (Probing TtsReg []) = True" | "finished p = False"

fun in_call :: "pc \<Rightarrow> bool" where
  "in_call (Calling n) = True" | "in_call (Probing src (n # ns)) = True" | "in_call p = False"

definition parked :: "pc \<Rightarrow> bool" where
  "parked p \<longleftrightarrow> finished p \<or> in_call p"

lemma lb_holder_moves:
  assumes "holds_lb (sy_pc s j)"
  shows "\<exists>s'. request_step j s s'"
proof (cases "sy_pc s j")
  case (Selecting hs)
  obtain n lb where "Select (the_lb s) hs = (n, lb)" by fastforce
  with Selecting show ?thesis by (blast intro: request_step.select)
qed (use assms in \<open>auto intro: request_step.intros\<close>)

lemma wd_reader_moves: "WdMu \<in> reads_from (sy_pc s j) \<Longrightarrow> \<exists>s'. request_step j s s'"
  by (cases "sy_pc s j") (auto intro: request_step.intros)

lemma wd_writer_moves:
  assumes ok: "locks_ok s" and w: "writes_wd (sy_pc s j)"
  shows "\<exists>k s'. (k = j \<or> WdMu \<in> reads_from (sy_pc s k)) \<and> (request_step k s s' \<or> probe_step k s s')"
proof (cases "rw_readers (sy_rw s WdMu) = {}")
  case True
  with w have "\<exists>s'. probe_step j s s'" by (cases "sy_pc s j") (auto intro: probe_step.intros)
  then show ?thesis by blast
next
  case False
  then obtain k where "WdMu \<in> reads_from (sy_pc s k)" using locks_okD(1) [OF ok] by blast
  with wd_reader_moves show ?thesis by blast
qed

text \<open>A thread that is neither finished nor in a call moves, or one that holds what it waits for does.\<close>

lemma somebody_moves:
  assumes ok: "locks_ok s" and busy: "\<not> parked (sy_pc s i)"
    and maps: "\<exists>visit. iterates visit (rg_backends (sy_reg s))" "\<exists>visit. iterates visit (rr_backends (sy_rtr s))"
  shows "\<exists>j s'. (j = i \<or> holds_lb (sy_pc s j) \<or> writes_wd (sy_pc s j) \<or> WdMu \<in> reads_from (sy_pc s j))
     \<and> (request_step j s s' \<or> probe_step j s s')"
proof -
  have reg: "can_read (mutex_of src) s" for src
    using locks_okD(2,3) [OF ok] by (cases src) (simp_all add: can_read_def)
  have lb: "sy_lb s = None \<or> (\<exists>j. holds_lb (sy_pc s j))" using ok by (auto simp: locks_ok_def)
  have wd: "rw_writer (sy_rw s WdMu) = None \<or> (\<exists>j. writes_wd (sy_pc s j))" using ok by (auto simp: locks_ok_def)
  have "(\<exists>s'. request_step i s s' \<or> probe_step i s s') \<or> (\<exists>j. holds_lb (sy_pc s j)) \<or> (\<exists>j. writes_wd (sy_pc s j))"
  proof (cases "sy_pc s i")
    case Entry
    with reg [of ChatReg] show ?thesis by (auto intro: request_step.enter)
  next
    case Looking
    with maps(1) show ?thesis by (cases "rg_backends (sy_reg s) = []") (blast intro: request_step.look_empty request_step.look)+
  next
    case (Asking ns hs)
    show ?thesis
    proof (cases ns)
      case Nil
      with Asking show ?thesis
        by (cases hs rule: remdups_adj.cases) (auto intro: request_step.none_healthy request_step.one_healthy request_step.some_healthy)
    next
      case (Cons n ns')
      with Asking wd request_step.ask [of s i n ns' hs] show ?thesis by (auto simp: can_read_def)
    qed
  next
    case (WantCheck src n err ns)
    with wd show ?thesis by (auto intro: probe_step.p_announce)
  next
    case (Listing src)
    with maps show ?thesis by (cases src) (blast intro: probe_step.p_list_chat probe_step.p_list_tts)+
  next
    case (Probing src ns)
    with busy show ?thesis by (cases src; cases ns) (auto simp: parked_def intro: probe_step.p_next)
  next
    case (Draining src n err ns)
    then have "writes_wd (sy_pc s i)" by simp
    then show ?thesis by blast
  next
    case (ProbeEntry src)
    with reg [of src] show ?thesis by (auto intro: probe_step.p_enter)
  qed (use busy lb lb_holder_moves [of s i] wd_reader_moves [of s i] in
        \<open>auto simp: parked_def intro: request_step.intros probe_step.intros\<close>)
  then show ?thesis
    using lb_holder_moves [of s] wd_writer_moves [OF ok] by blast
qed

section \<open>Every thread has a bounded number of steps\<close>

definition chat_size :: "sys \<Rightarrow> nat" where
  "chat_size s = length (rg_backends (sy_reg s))"

definition tts_size :: "sys \<Rightarrow> nat" where
  "tts_size s = length (rr_backends (sy_rtr s))"

text \<open>What is left of a probe after the backends of one registry.\<close>

fun tail_of :: "origin \<Rightarrow> nat \<Rightarrow> nat" where
  "tail_of ChatReg t = 5 * t + 4" | "tail_of TtsReg t = 0"

fun ahead :: "nat \<Rightarrow> nat \<Rightarrow> pc \<Rightarrow> nat" where
  "ahead m t Entry = 3 * m + 14" | "ahead m t Looking = 3 * m + 13"
| "ahead m t (Asking ns hs) = 3 * length ns + 12" | "ahead m t (Querying n ns hs) = 3 * length ns + 14"
| "ahead m t (Queried ns hs) = 3 * length ns + 13"
| "ahead m t (WantSelect hs) = 11" | "ahead m t (Selecting hs) = 10" | "ahead m t (Selected n) = 9"
| "ahead m t (WantAcquire n) = 8" | "ahead m t (Acquiring n) = 7" | "ahead m t (Acquired n) = 6"
| "ahead m t (Leaving n) = 5" | "ahead m t (Calling n) = 4" | "ahead m t (WantRelease n) = 3"
| "ahead m t (Releasing n) = 2" | "ahead m t Released = 1" | "ahead m t Done = 0"
| "ahead m t Failing = 1" | "ahead m t Failed = 0"
| "ahead m t (ProbeEntry src) = 5 * (if src = ChatReg then m else t) + tail_of src t + 3"
| "ahead m t (Listing src) = 5 * (if src = ChatReg then m else t) + tail_of src t + 2"
| "ahead m t (Listed src ns) = 5 * length ns + tail_of src t + 1"
| "ahead m t (Probing src ns) = 5 * length ns + tail_of src t"
| "ahead m t (WantCheck src n err ns) = 5 * length ns + tail_of src t + 4"
| "ahead m t (Draining src n err ns) = 5 * length ns + tail_of src t + 3"
| "ahead m t (Checking src n err ns) = 5 * length ns + tail_of src t + 2"
| "ahead m t (Checked src ns) = 5 * length ns + tail_of src t + 1"

abbreviation left :: "sys \<Rightarrow> pc \<Rightarrow> nat" where
  "left s p \<equiv> ahead (chat_size s) (tts_size s) p"

text \<open>The registered backends, which no step changes, and what is known of them.\<close>

definition maps_ok :: "sys \<Rightarrow> bool" where
  "maps_ok s \<longleftrightarrow> registry_ok (sy_reg s) \<and> router_ok (sy_rtr s)"

lemma length_order:
  assumes "registry_ok r" and "iterates visit (rg_backends r)"
  shows "length (healthyOrderLocked visit hc r) \<le> length (rg_backends r)"
proof -
  have "set (healthyOrderLocked visit hc r) \<subseteq> fst ` set (rg_backends r)"
    unfolding set_healthyOrder [OF assms] by (auto simp: keys_map_of)
  then have "card (set (healthyOrderLocked visit hc r)) \<le> card (fst ` set (rg_backends r))" by (intro card_mono) simp_all
  also have "\<dots> \<le> length (rg_backends r)" by (metis card_length length_map list.set_map)
  finally show ?thesis using distinct_healthyOrder [OF assms(2)] by (simp add: distinct_card)
qed

lemma iterates_exists: "go_map_ok m \<Longrightarrow> \<exists>visit. iterates visit m"
  by (rule exI [of _ "map fst m"]) (simp add: iterates_def go_map_ok_def)

lemma request_step_one:
  assumes "request_step i s s'" and "maps_ok s"
  shows "\<exists>p'. sy_pc s' = (sy_pc s)(i := p') \<and> left s p' < left s (sy_pc s i)"
  using assms(1)
proof (cases rule: request_step.cases)
  case (look visit)
  have "length (healthyOrderLocked visit None (sy_reg s)) \<le> chat_size s"
    unfolding chat_size_def using assms(2) look(4) by (intro length_order) (auto simp: maps_ok_def)
  with look show ?thesis by (auto simp: sys_defs)
qed (auto simp: sys_defs)

lemma probe_step_one:
  assumes "probe_step i s s'" and "maps_ok s"
  shows "\<exists>p'. sy_pc s' = (sy_pc s)(i := p') \<and> left s p' < left s (sy_pc s i)"
  using assms(1)
proof (cases rule: probe_step.cases)
  case (p_list_chat visit)
  have "length (All visit (sy_reg s)) = chat_size s"
    using assms(2) p_list_chat(3) by (simp add: All_def chat_size_def length_values_in maps_ok_def registry_ok_def)
  with p_list_chat show ?thesis by (auto simp: sys_defs)
next
  case (p_list_tts visit)
  have "length (AllInfos visit (sy_rtr s)) = tts_size s"
    using assms(2) p_list_tts(3) by (simp add: AllInfos_def tts_size_def length_values_in maps_ok_def router_ok_def)
  with p_list_tts length_filter_le [of "\<lambda>x. bi_TTSBackend x \<noteq> None" "AllInfos visit (sy_rtr s)"]
  show ?thesis by (auto simp: sys_defs)
qed (auto simp: sys_defs)

lemma call_returns_one:
  assumes "call_returns i s s'"
  shows "\<exists>p'. sy_pc s' = (sy_pc s)(i := p') \<and> left s p' < left s (sy_pc s i)"
  using assms by (cases rule: call_returns.cases) (auto simp: sys_defs)

lemma step_maps:
  assumes "request_step i s s' \<or> probe_step i s s' \<or> call_returns i s s'"
  shows "rg_backends (sy_reg s') = rg_backends (sy_reg s)" "rg_primary (sy_reg s') = rg_primary (sy_reg s)" "sy_rtr s' = sy_rtr s"
  using assms by (auto elim!: request_step.cases probe_step.cases call_returns.cases simp: sys_defs)

definition threads_left :: "nat \<Rightarrow> sys \<Rightarrow> nat" where
  "threads_left n s = (\<Sum>i<n. left s (sy_pc s i))"

lemma sum_upd_less:
  fixes f :: "nat \<Rightarrow> nat"
  assumes "i < n" and "p < f i"
  shows "(\<Sum>j<n. (f(i := p)) j) < (\<Sum>j<n. f j)"
  by (rule sum_strict_mono_ex1) (use assms in auto)

lemma any_stepE:
  assumes "any_step n s s'"
  obtains i where "i < n" "request_step i s s' \<or> probe_step i s s' \<or> call_returns i s s'"
  using assms unfolding any_step_def own_step_def by blast

lemma any_step_one:
  assumes "any_step n s s'" and "maps_ok s"
  obtains i p' where "i < n" "sy_pc s' = (sy_pc s)(i := p')" "left s p' < left s (sy_pc s i)"
  using assms request_step_one probe_step_one call_returns_one by (elim any_stepE) metis

lemma any_step_maps:
  assumes "any_step n s s'"
  shows "maps_ok s' = maps_ok s" "chat_size s' = chat_size s" "tts_size s' = tts_size s"
proof -
  from assms obtain i where "request_step i s s' \<or> probe_step i s s' \<or> call_returns i s s'" by (rule any_stepE)
  from step_maps [OF this] show "maps_ok s' = maps_ok s" "chat_size s' = chat_size s" "tts_size s' = tts_size s"
    by (simp_all add: maps_ok_def registry_ok_def chat_size_def tts_size_def)
qed

lemma any_step_left:
  assumes "any_step n s s'" and "maps_ok s"
  shows "threads_left n s' < threads_left n s"
proof -
  obtain i p' where i: "i < n" "sy_pc s' = (sy_pc s)(i := p')" "left s p' < left s (sy_pc s i)"
    using any_step_one [OF assms] .
  have "(\<lambda>j. left s' (sy_pc s' j)) = (\<lambda>j. left s (sy_pc s j))(i := left s p')"
    by (auto simp: i(2) any_step_maps [OF assms(1)])
  then show ?thesis
    unfolding threads_left_def using sum_upd_less [OF i(1), of "left s p'" "\<lambda>j. left s (sy_pc s j)"] i(3) by metis
qed

text \<open>What every run keeps.\<close>

definition run_ok :: "nat \<Rightarrow> sys \<Rightarrow> sys \<Rightarrow> bool" where
  "run_ok n s0 s \<longleftrightarrow>
     locks_ok s \<and> maps_ok s \<and> chat_size s = chat_size s0 \<and> tts_size s = tts_size s0
     \<and> (\<forall>i\<ge>n. sy_pc s i = sy_pc s0 i)"

lemma run_ok_step:
  assumes "run_ok n s0 s" and "any_step n s s'"
  shows "run_ok n s0 s'"
proof -
  from assms(2) obtain i where i: "i < n" "request_step i s s' \<or> probe_step i s s' \<or> call_returns i s s'" by (rule any_stepE)
  then have "locks_ok s'"
    using assms(1) locks_ok_request locks_ok_probe locks_ok_call unfolding run_ok_def by blast
  moreover have "sy_pc s' j = sy_pc s j" if "n \<le> j" for j
    using any_step_one [OF assms(2)] assms(1) that unfolding run_ok_def by (metis fun_upd_other not_less)
  ultimately show ?thesis using assms(1) any_step_maps [OF assms(2)] unfolding run_ok_def by auto
qed

lemma run_facts:
  assumes "(any_step n ^^ k) s0 s" and "run_ok n s0 s0"
  shows "run_ok n s0 s \<and> threads_left n s + k \<le> threads_left n s0"
  using assms(1)
proof (induction k arbitrary: s)
  case 0
  with assms(2) show ?case by simp
next
  case (Suc k)
  then obtain t where t: "(any_step n ^^ k) s0 t" "any_step n t s" by auto
  from Suc.IH [OF t(1)] have ok: "run_ok n s0 t" and le: "threads_left n t + k \<le> threads_left n s0" by auto
  from any_step_left [OF t(2)] ok le have "threads_left n s + Suc k \<le> threads_left n s0" by (simp add: run_ok_def)
  with run_ok_step [OF ok t(2)] show ?case by simp
qed

section \<open>The coarser model\<close>

text \<open>
  Forgetting the locks, the health queries and the probes turns a thread into a request of
  \<open>Dispatch\<close>; every step is a step there or invisible.
\<close>

fun phase_of :: "pc \<Rightarrow> phase" where
  "phase_of (Selected n) = Chosen n" | "phase_of (WantAcquire n) = Chosen n" | "phase_of (Acquiring n) = Chosen n"
| "phase_of (Acquired n) = Serving n" | "phase_of (Leaving n) = Serving n" | "phase_of (Calling n) = Serving n"
| "phase_of (WantRelease n) = Serving n" | "phase_of (Releasing n) = Serving n"
| "phase_of Released = Finished" | "phase_of Done = Finished" | "phase_of p = Waiting"

definition dispatch_of :: "sys \<Rightarrow> dispatch" where
  "dispatch_of s = \<lparr>dp_lb = the_lb s, dp_phase = (\<lambda>i. phase_of (sy_pc s i))\<rparr>"

lemma dispatch_of_simps:
  "dispatch_of (goto i p s) = (dispatch_of s)\<lparr>dp_phase := (dp_phase (dispatch_of s))(i := phase_of p)\<rparr>"
  "dispatch_of (rlock m i s) = dispatch_of s" "dispatch_of (runlock m i s) = dispatch_of s"
  "dispatch_of (announce m i s) = dispatch_of s" "dispatch_of (unlock m s) = dispatch_of s"
  "dispatch_of (s\<lparr>sy_lb := b\<rparr>) = dispatch_of s" "dispatch_of (s\<lparr>sy_wd := w\<rparr>) = dispatch_of s"
  "dispatch_of (set_lb lb s) = (dispatch_of s)\<lparr>dp_lb := lb\<rparr>"
  "dp_lb (dispatch_of s) = the_lb s" "dp_phase (dispatch_of s) i = phase_of (sy_pc s i)"
  by (auto simp: dispatch_of_def sys_defs)

lemma dispatch_same_phase: "dp_phase d i = p \<Longrightarrow> d\<lparr>dp_phase := (dp_phase d)(i := p)\<rparr> = d"
  by (cases d) auto

lemma request_refines:
  assumes "request_step i s s'" and ok: "locks_ok s"
  shows "dispatch_of s' = dispatch_of s \<or> dispatch_step (dispatch_of s) (dispatch_of s')"
  using assms(1)
proof (cases rule: request_step.cases)
  case (one_healthy n)
  have "Select (the_lb s) [n] = (n, the_lb s)" by (simp add: Select_def)
  with one_healthy dispatch_step.choose [of "dispatch_of s" i "[n]" n "the_lb s"] show ?thesis
    by (simp add: dispatch_of_simps) (simp add: dispatch_of_def)
next
  case (select hs n lb)
  have "hs \<noteq> []" using locks_okD(4) [OF ok, of i] select by simp
  with select dispatch_step.choose [of "dispatch_of s" i hs n lb] show ?thesis by (simp add: dispatch_of_simps)
next
  case (acquire n)
  with dispatch_step.charge_one [of "dispatch_of s" i n] show ?thesis by (simp add: dispatch_of_simps)
next
  case (release n)
  with dispatch_step.finish [of "dispatch_of s" i n] show ?thesis by (simp add: dispatch_of_simps)
qed (simp_all add: dispatch_of_simps dispatch_same_phase)

lemma probe_refines: "probe_step i s s' \<Longrightarrow> dispatch_of s' = dispatch_of s"
  by (erule probe_step.cases) (simp_all add: dispatch_of_simps dispatch_same_phase)

lemma call_refines: "call_returns i s s' \<Longrightarrow> dispatch_of s' = dispatch_of s"
  by (erule call_returns.cases) (simp_all add: dispatch_of_simps dispatch_same_phase)

lemma any_step_refines:
  assumes "any_step n s s'" and "locks_ok s" and "reachable_dispatch (dispatch_of s)"
  shows "reachable_dispatch (dispatch_of s')"
proof -
  from assms(1) obtain i where "request_step i s s' \<or> probe_step i s s' \<or> call_returns i s s'" by (rule any_stepE)
  then have "dispatch_of s' = dispatch_of s \<or> dispatch_step (dispatch_of s) (dispatch_of s')"
    using request_refines [OF _ assms(2)] probe_refines call_refines by blast
  with assms(3) show ?thesis by (auto intro: reachable_dispatch.step)
qed

lemma run_refines:
  assumes "(any_step n ^^ k) s0 s" and "run_ok n s0 s0" and "reachable_dispatch (dispatch_of s0)"
  shows "reachable_dispatch (dispatch_of s)"
  using assms(1)
proof (induction k arbitrary: s)
  case 0
  with assms(3) show ?case by simp
next
  case (Suc k)
  then obtain t where t: "(any_step n ^^ k) s0 t" "any_step n t s" by auto
  from run_facts [OF t(1) assms(2)] have "locks_ok t" by (simp add: run_ok_def)
  from any_step_refines [OF t(2) this Suc.IH [OF t(1)]] show ?case .
qed

lemma start_refines:
  assumes "rg_lb reg = NewLoadBalancer"
  shows "dispatch_of (sys_start reg rtr wd probes) = dispatch_start"
  using assms by (auto simp: dispatch_of_def sys_start_def dispatch_start_def)

section \<open>A request on its own\<close>

text \<open>Without other threads the steps of a request compute \<open>PrimaryHealthy\<close>.\<close>

lemma rlock_runlock:
  "i \<notin> rw_readers (sy_rw s m) \<Longrightarrow> goto i p (runlock m i (goto i q' (goto i q (rlock m i s)))) = goto i p s"
  by (cases s) (auto simp: sys_defs fun_eq_iff)

lemma asks_alone:
  assumes "can_read WdMu s" and "i \<notin> rw_readers (sy_rw s WdMu)"
  shows "(request_step i)\<^sup>*\<^sup>* (goto i (Asking ns hs) s) (goto i (Asking [] (hs @ filter (IsHealthy (fst (sy_wd s))) ns)) s)"
proof (induction ns arbitrary: hs)
  case (Cons n ns)
  let ?ok = "IsHealthy (fst (sy_wd s)) n" and ?s = "goto i (Asking (n # ns) hs) s"
  let ?hs = "if ?ok then hs @ [n] else hs"
  let ?s1 = "goto i (Querying n ns hs) (rlock WdMu i ?s)"
  let ?s2 = "goto i (Queried ns ?hs) ?s1"
  have "request_step i ?s ?s1" by (rule request_step.ask) (use assms(1) in \<open>simp_all add: sys_defs\<close>)
  moreover have "request_step i ?s1 ?s2"
    using request_step.query [of ?s1 i n ns hs] by (simp add: sys_defs)
  moreover have "request_step i ?s2 (goto i (Asking ns ?hs) (runlock WdMu i ?s2))"
    by (rule request_step.asked) (simp add: goto_def)
  moreover have "goto i (Asking ns ?hs) (runlock WdMu i ?s2) = goto i (Asking ns ?hs) s"
    using rlock_runlock [of i ?s WdMu "Asking ns ?hs" "Queried ns ?hs" "Querying n ns hs"] assms(2) by (simp add: goto_def)
  ultimately have "(request_step i)\<^sup>*\<^sup>* ?s (goto i (Asking ns ?hs) s)"
    by (metis (no_types, lifting) converse_rtranclp_into_rtranclp rtranclp.rtrancl_refl)
  with Cons.IH [of ?hs] show ?case by (auto split: if_splits)
qed simp

lemma order_filter: "healthyOrderLocked visit (Some f) r = filter f (healthyOrderLocked visit None r)"
  by (auto simp: healthyOrderLocked_def passes_def intro: filter_cong)

text \<open>The end states of a few steps of thread \<open>i\<close>, by where it is then and the registry.\<close>

definition gets_to :: "nat \<Rightarrow> sys \<Rightarrow> pc \<Rightarrow> registry \<Rightarrow> bool" where
  "gets_to i s p reg \<longleftrightarrow> (\<exists>s'. (request_step i)\<^sup>*\<^sup>* s s' \<and> sy_pc s' i = p \<and> sy_reg s' = reg)"

lemma gets_to_step: "request_step i s t \<Longrightarrow> gets_to i t p reg \<Longrightarrow> gets_to i s p reg"
  unfolding gets_to_def by (blast intro: converse_rtranclp_into_rtranclp)

lemma gets_to_steps: "(request_step i)\<^sup>*\<^sup>* s t \<Longrightarrow> gets_to i t p reg \<Longrightarrow> gets_to i s p reg"
  unfolding gets_to_def by (blast intro: rtranclp_trans)

lemma gets_to_here: "gets_to i s (sy_pc s i) (sy_reg s)"
  unfolding gets_to_def by blast

lemma failing_alone: "sy_pc s i = Failing \<Longrightarrow> gets_to i s Failed (sy_reg s)"
  using gets_to_step [OF request_step.fail gets_to_here] by (simp add: sys_defs)

lemma charging_alone:
  assumes "sy_pc s i = WantAcquire n" and "sy_lb s = None"
  shows "gets_to i s (Calling n) ((sy_reg s)\<lparr>rg_lb := Acquire n (the_lb s)\<rparr>)"
proof -
  let ?s1 = "goto i (Acquiring n) (s\<lparr>sy_lb := Some i\<rparr>)"
  let ?s2 = "goto i (Acquired n) (set_lb (Acquire n (the_lb ?s1)) ?s1)"
  let ?s3 = "goto i (Leaving n) (?s2\<lparr>sy_lb := None\<rparr>)"
  let ?s4 = "goto i (Calling n) (runlock ChatMu i ?s3)"
  have "request_step i s ?s1" by (rule request_step.lock_acquire [OF assms])
  moreover have "request_step i ?s1 ?s2" by (rule request_step.acquire) (simp add: goto_def)
  moreover have "request_step i ?s2 ?s3" by (rule request_step.unlock_acquire) (simp add: goto_def)
  moreover have "request_step i ?s3 ?s4" by (rule request_step.leave) (simp add: goto_def)
  moreover have "gets_to i ?s4 (Calling n) ((sy_reg s)\<lparr>rg_lb := Acquire n (the_lb s)\<rparr>)"
    using gets_to_here [of i ?s4] by (simp add: sys_defs)
  ultimately show ?thesis by (meson gets_to_step)
qed

lemma selecting_alone:
  assumes "sy_pc s i = Asking [] hs" and "hs \<noteq> []" and "sy_lb s = None" and "Select (the_lb s) hs = (n, lb)"
  shows "gets_to i s (Calling n) ((sy_reg s)\<lparr>rg_lb := Acquire n lb\<rparr>)"
proof (cases hs rule: remdups_adj.cases)
  case (2 h)
  with assms(4) have h: "h = n" and lb: "lb = the_lb s" by (simp_all add: Select_def)
  have "request_step i s (goto i (WantAcquire n) s)"
    using request_step.one_healthy [of s i h] assms(1) 2 h by simp
  moreover have "gets_to i (goto i (WantAcquire n) s) (Calling n) ((sy_reg s)\<lparr>rg_lb := Acquire n lb\<rparr>)"
    using charging_alone [of "goto i (WantAcquire n) s" i n] assms(3) lb by (simp add: goto_def)
  ultimately show ?thesis by (rule gets_to_step)
next
  case (3 h k hs')
  let ?s1 = "goto i (WantSelect hs) s"
  let ?s2 = "goto i (Selecting hs) (?s1\<lparr>sy_lb := Some i\<rparr>)"
  let ?s3 = "goto i (Selected n) (set_lb lb ?s2)"
  let ?s4 = "goto i (WantAcquire n) (?s3\<lparr>sy_lb := None\<rparr>)"
  have "request_step i s ?s1" using request_step.some_healthy [of s i h k hs'] assms(1) 3 by simp
  moreover have "request_step i ?s1 ?s2" by (rule request_step.lock_select) (simp_all add: goto_def assms(3))
  moreover have "request_step i ?s2 ?s3" using request_step.select [of ?s2 i hs n lb] assms(4) by (simp add: goto_def)
  moreover have "request_step i ?s3 ?s4" by (rule request_step.unlock_select) (simp add: goto_def)
  moreover have "gets_to i ?s4 (Calling n) ((sy_reg s)\<lparr>rg_lb := Acquire n lb\<rparr>)"
    using charging_alone [of ?s4 i n] by (simp add: sys_defs)
  ultimately show ?thesis by (meson gets_to_step)
qed (use assms(2) in simp)

lemma request_alone:
  assumes "sy_pc s i = Entry" and "can_read ChatMu s" and "can_read WdMu s" and "i \<notin> rw_readers (sy_rw s WdMu)"
    and "sy_lb s = None" and ok: "registry_ok (sy_reg s)" and visit: "iterates visit (rg_backends (sy_reg s))"
  shows "case PrimaryHealthy visit (Some (IsHealthy (fst (sy_wd s)))) (sy_reg s) of
           (Inl e, reg) \<Rightarrow> gets_to i s Failed reg
         | (Inr ob, reg) \<Rightarrow> (\<exists>b. ob = Some b \<and> gets_to i s (Calling (be_Name b)) reg)"
proof -
  let ?f = "IsHealthy (fst (sy_wd s))" and ?ns = "healthyOrderLocked visit None (sy_reg s)"
  let ?hs = "filter ?f ?ns"
  let ?s1 = "goto i Looking (rlock ChatMu i s)"
  let ?t = "goto i (Asking [] ?hs) ?s1"
  have enter: "request_step i s ?s1" by (rule request_step.enter [OF assms(1,2)])
  have same: "sy_reg ?s1 = sy_reg s" "sy_reg ?t = sy_reg s" "sy_pc ?s1 i = Looking" "sy_pc ?t i = Asking [] ?hs" "sy_lb ?t = None"
    by (simp_all add: sys_defs assms(5))
  show ?thesis
  proof (cases "rg_backends (sy_reg s) = []")
    case True
    then have "request_step i ?s1 (goto i Failing ?s1)" by (intro request_step.look_empty) (simp_all add: same)
    moreover have "gets_to i (goto i Failing ?s1) Failed (sy_reg s)"
      using failing_alone [of "goto i Failing ?s1" i] by (simp add: sys_defs)
    ultimately have "gets_to i s Failed (sy_reg s)" using enter by (meson gets_to_step)
    with True show ?thesis by (simp add: PrimaryHealthy_def)
  next
    case False
    have "request_step i ?s1 (goto i (Asking ?ns []) ?s1)"
      using request_step.look [of ?s1 i visit] False visit by (simp add: same)
    moreover have "(request_step i)\<^sup>*\<^sup>* (goto i (Asking ?ns []) ?s1) ?t"
      using asks_alone [of ?s1 i ?ns "[]"] assms(3,4) by (simp add: sys_defs)
    ultimately have asks: "(request_step i)\<^sup>*\<^sup>* s ?t" using enter by (meson converse_rtranclp_into_rtranclp)
    show ?thesis
    proof (cases "?hs = []")
      case True
      then have "request_step i ?t (goto i Failing ?t)" by (intro request_step.none_healthy) (simp add: goto_def)
      moreover have "gets_to i (goto i Failing ?t) Failed (sy_reg s)"
        using failing_alone [of "goto i Failing ?t" i] by (simp add: sys_defs)
      ultimately have "gets_to i s Failed (sy_reg s)" using asks by (meson gets_to_step gets_to_steps)
      with True False show ?thesis by (simp add: PrimaryHealthy_def order_filter)
    next
      case some: False
      obtain n lb where sel: "Select (rg_lb (sy_reg s)) ?hs = (n, lb)" by fastforce
      have "gets_to i s (Calling n) ((sy_reg s)\<lparr>rg_lb := Acquire n lb\<rparr>)"
        using gets_to_steps [OF asks selecting_alone [OF same(4) some same(5), of n lb]] sel by (simp add: same)
      moreover have "PrimaryHealthy visit (Some ?f) (sy_reg s) = (Inr (map_of (rg_backends (sy_reg s)) n), (sy_reg s)\<lparr>rg_lb := Acquire n lb\<rparr>)"
        using False some sel by (simp add: PrimaryHealthy_def order_filter)
      moreover note PrimaryHealthy_selects [OF ok visit, of "Some ?f"]
      ultimately show ?thesis
        using registry_ok_Name [OF ok, of n] by (auto split: option.splits)
    qed
  qed
qed

section \<open>Property\<close>

text \<open>
  C6: any number of chat requests and of probes of the watchdog run together, in any interleaving of
  their lock operations: there is no deadlock, and a backend that never answers blocks nobody but
  its own caller. Every run ends within a bound that is linear in the number of threads and
  backends; as long as some thread is neither finished nor waiting for a backend, some thread can
  take a step of its own; and when all are finished, no lock is held and nothing is in flight.
\<close>

theorem threads_never_stuck:
  assumes "registry_ok reg" and "router_ok rtr" and "rg_lb reg = NewLoadBalancer"
    and "(any_step n ^^ k) (sys_start reg rtr wd probes) s"
  shows "k \<le> n * (5 * length (rg_backends reg) + 5 * length (rr_backends rtr) + 14)
       \<and> ((\<exists>i<n. \<not> parked (sy_pc s i)) \<longrightarrow> (\<exists>s'. own_step n s s'))
       \<and> ((\<forall>i<n. finished (sy_pc s i)) \<longrightarrow>
            (\<forall>b. InFlight (the_lb s) b = 0) \<and> sy_lb s = None \<and> (\<forall>m. sy_rw s m = free_rw))"
proof -
  let ?s0 = "sys_start reg rtr wd probes"
  have init: "sy_reg ?s0 = reg" "sy_rtr ?s0 = rtr" "sy_pc ?s0 i = (if i \<in> probes then ProbeEntry ChatReg else Entry)" for i
    by (simp_all add: sys_start_def)
  have ok0: "run_ok n ?s0 ?s0"
    using assms(1,2) by (simp add: run_ok_def locks_ok_start maps_ok_def init)
  from run_facts [OF assms(4) ok0] have ok: "run_ok n ?s0 s" and steps: "threads_left n s + k \<le> threads_left n ?s0" by auto
  have outside: "reads_from (sy_pc s i) = {}" "\<not> writes_wd (sy_pc s i)" "\<not> holds_lb (sy_pc s i)"
    "phase_of (sy_pc s i) = Waiting" if "n \<le> i" for i
    using ok that by (auto simp: run_ok_def init)
  let ?B = "5 * length (rg_backends reg) + 5 * length (rr_backends rtr) + 14"
  have "threads_left n ?s0 \<le> (\<Sum>i<n. ?B)"
    unfolding threads_left_def by (rule sum_mono) (auto simp: init chat_size_def tts_size_def)
  with steps have bound: "k \<le> n * ?B" by simp
  have progress: "\<exists>s'. own_step n s s'" if i: "i < n" "\<not> parked (sy_pc s i)" for i
  proof -
    have maps: "\<exists>visit. iterates visit (rg_backends (sy_reg s))" "\<exists>visit. iterates visit (rr_backends (sy_rtr s))"
      using ok by (auto simp: run_ok_def maps_ok_def registry_ok_def router_ok_def intro: iterates_exists)
    obtain j s' where j: "j = i \<or> holds_lb (sy_pc s j) \<or> writes_wd (sy_pc s j) \<or> WdMu \<in> reads_from (sy_pc s j)"
      "request_step j s s' \<or> probe_step j s s'"
      using somebody_moves [OF _ i(2) maps] ok unfolding run_ok_def by blast
    have "j < n" using j(1) i(1) outside(1-3) [of j] by (metis empty_iff not_less)
    with j(2) show ?thesis unfolding own_step_def by blast
  qed
  have quiet: "(\<forall>b. InFlight (the_lb s) b = 0) \<and> sy_lb s = None \<and> (\<forall>m. sy_rw s m = free_rw)"
    if fin: "\<forall>i<n. finished (sy_pc s i)"
  proof -
    have idle: "reads_from (sy_pc s i) = {} \<and> \<not> writes_wd (sy_pc s i) \<and> \<not> holds_lb (sy_pc s i)
        \<and> (\<forall>b. phase_of (sy_pc s i) \<noteq> Serving b)" for i
    proof (cases "i < n")
      case True
      with fin have "finished (sy_pc s i)" by simp
      then show ?thesis by (cases "sy_pc s i" rule: finished.cases) simp_all
    qed (use outside in auto)
    have locks: "locks_ok s" using ok by (simp add: run_ok_def)
    have "rw_readers (sy_rw s m) = {}" for m using idle locks_okD(1) [OF locks] by blast
    moreover have "rw_writer (sy_rw s m) = None" for m
      using idle locks by (cases m; cases "rw_writer (sy_rw s WdMu)") (auto simp: locks_ok_def)
    ultimately have "sy_rw s m = free_rw" for m by (simp add: free_rw_def)
    moreover have "sy_lb s = None" using idle locks by (cases "sy_lb s") (auto simp: locks_ok_def)
    moreover have "InFlight (the_lb s) b = 0" for b
    proof -
      have "reachable_dispatch (dispatch_of s)"
        using run_refines [OF assms(4) ok0] start_refines [OF assms(3)] reachable_dispatch.start by simp
      then have "InFlight (the_lb s) b = int (card (serving (dispatch_of s) b))"
        using reachable_counts [of "dispatch_of s"] by (simp add: counts_serving_def dispatch_of_simps)
      moreover have "serving (dispatch_of s) b = {}" using idle by (simp add: serving_def dispatch_of_simps)
      ultimately show ?thesis by simp
    qed
    ultimately show ?thesis by blast
  qed
  from bound progress quiet show ?thesis by blast
qed

text \<open>A request and a probe that are both inside their registries.\<close>

theorem threads_never_stuck_witness:
  "\<exists>s. (any_step 2 ^^ 2) (sys_start probe_registry NewRouter (NewWatchdog DefaultConfig, no_observed) {1}) s
     \<and> sy_pc s 0 = Looking \<and> sy_pc s 1 = Listing ChatReg \<and> (\<exists>s'. own_step 2 s s')"
proof -
  let ?s0 = "sys_start probe_registry NewRouter (NewWatchdog DefaultConfig, no_observed) {1}"
  let ?s1 = "goto 0 Looking (rlock ChatMu 0 ?s0)"
  let ?s2 = "goto 1 (Listing ChatReg) (rlock (mutex_of ChatReg) 1 ?s1)"
  have "request_step 0 ?s0 ?s1" by (rule request_step.enter) (simp_all add: sys_start_def can_read_def free_rw_def)
  then have 1: "any_step 2 ?s0 ?s1" unfolding any_step_def own_step_def by (meson zero_less_numeral)
  have "probe_step 1 ?s1 ?s2"
    by (rule probe_step.p_enter) (simp_all add: sys_start_def can_read_def free_rw_def goto_def rlock_def)
  then have "any_step 2 ?s1 ?s2" unfolding any_step_def own_step_def by (meson one_less_numeral_iff semiring_norm(76))
  with 1 have run: "(any_step 2 ^^ 2) ?s0 ?s2" by (auto simp: numeral_2_eq_2)
  have pcs: "sy_pc ?s2 0 = Looking" "sy_pc ?s2 1 = Listing ChatReg" by (simp_all add: goto_def rlock_def)
  have "rg_lb probe_registry = NewLoadBalancer" by (simp add: probe_registry_def Register_def NewRegistry_def)
  moreover have "\<not> parked Looking" by (simp add: parked_def)
  then have "\<exists>i<2. \<not> parked (sy_pc ?s2 i)" using pcs(1) by (metis zero_less_numeral)
  ultimately have "\<exists>s'. own_step 2 ?s2 s'"
    using threads_never_stuck [OF probe_registry_ok(1) router_ok_New _ run] by blast
  with run pcs show ?thesis by blast
qed

end
