(* ===== verification/Health.thy ===== *)
theory Health
  imports Handlers "HOL-Library.List_Lexorder" "HOL-Library.Char_ord"
begin

text \<open>
  The unauthenticated handlers: liveness, readiness and version (\<open>internal/handler/health.go\<close>),
  the consolidated health report (\<open>health_status.go\<close>) and the documentation pages
  (\<open>docs.go\<close>). The build's version and commit, the time stamp and the embedded documents are
  arguments; the outcome of every probe comes from the backends.
\<close>

section \<open>Maps as JSON\<close>

text \<open>\<open>encoding/json\<close> prints a map by increasing key.\<close>

definition json_map :: "(string \<times> json) list \<Rightarrow> json" where
  "json_map m = JObj (map (\<lambda>k. (k, the (map_of m k))) (sort (remdups (map fst m))))"

definition json_strings :: "(string \<times> string) list \<Rightarrow> json" where
  "json_strings m = json_map (map (\<lambda>(k, v). (k, JStr v)) m)"

definition write_doc :: "json \<Rightarrow> gateway \<Rightarrow> gateway" where
  "write_doc j g = on_w (write_json j) g"

section \<open>Liveness, readiness, version\<close>

record build_info =
  bd_Version :: string
  bd_Commit :: string

definition Health_live :: "build_info \<Rightarrow> handler" where
  "Health_live bd r g =
     (Returned, write_doc (json_strings [(''status'', ''ok''), (''version'', bd_Version bd)])
        (on_w (set_header ''Content-Type'' ''application/json'') g))"

fun ready_loop :: "build_info \<Rightarrow> env \<Rightarrow> backend list \<Rightarrow> gateway \<Rightarrow> gateway" where
  "ready_loop bd ev [] g = write_doc (json_strings [(''status'', ''ready''), (''version'', bd_Version bd)]) g"
| "ready_loop bd ev (b # bs) g =
     (case be_Health b ev of
        Some err \<Rightarrow>
          write_doc (json_strings [(''status'', ''unavailable''), (''backend'', be_Name b), (''error'', err_msg err),
                                   (''version'', bd_Version bd)])
            (on_w (write_header 503) (count (MSet BackendHealth [be_Name b] 0) g))
      | None \<Rightarrow> ready_loop bd ev bs (count (MSet BackendHealth [be_Name b] 1) g))"

definition Ready :: "build_info \<Rightarrow> env \<Rightarrow> string list \<Rightarrow> handler" where
  "Ready bd ev visit r g =
     (Returned, ready_loop bd ev (All visit (gw_reg g)) (on_w (set_header ''Content-Type'' ''application/json'') g))"

definition VersionInfo :: "build_info \<Rightarrow> handler" where
  "VersionInfo bd r g =
     (Returned, write_doc
        (json_strings ([(''version'', bd_Version bd)] @ (if bd_Commit bd \<noteq> [] then [(''commit'', bd_Commit bd)] else [])))
        (on_w (set_header ''Cache-Control'' ''no-store'' \<circ> set_header ''Content-Type'' ''application/json'') g))"

section \<open>The consolidated report\<close>

record model_brief =
  mb_ID :: string
  mb_Object :: string
  mb_OwnedBy :: string

record service_status =
  ss_Status :: string
  ss_Error :: string
  ss_Models :: "model_brief list"

record health_summary =
  hs_Total :: int
  hs_Healthy :: int
  hs_Unhealthy :: int
  hs_ByType :: "int go_map"

record health_status_response =
  hr_Status :: string
  hr_Version :: string
  hr_Timestamp :: string
  hr_Services :: "service_status go_map"
  hr_Summary :: health_summary

text \<open>What the handler builds up: the services, whether all is well so far, the totals.\<close>

record health_acc =
  ha_services :: "service_status go_map"
  ha_overall :: string
  ha_summary :: health_summary

definition no_services :: health_acc where
  "no_services =
     \<lparr>ha_services = [], ha_overall = ''healthy'',
      ha_summary = \<lparr>hs_Total = 0, hs_Healthy = 0, hs_Unhealthy = 0, hs_ByType = []\<rparr>\<rparr>"

definition chat_service :: "env \<Rightarrow> backend \<Rightarrow> service_status" where
  "chat_service ev b =
     (case be_Health b ev of
        Some err \<Rightarrow> \<lparr>ss_Status = ''unhealthy'', ss_Error = err_msg err, ss_Models = []\<rparr>
      | None \<Rightarrow>
          \<lparr>ss_Status = ''healthy'', ss_Error = [],
           ss_Models =
             (case be_ListModels b ev of
                Inl e \<Rightarrow> []
              | Inr models \<Rightarrow>
                  map (\<lambda>m. \<lparr>mb_ID = md_ID m, mb_Object = md_Object m, mb_OwnedBy = md_OwnedBy m\<rparr>) (mr_Data models))\<rparr>)"

definition tts_service :: "env \<Rightarrow> tts_backend \<Rightarrow> service_status" where
  "tts_service ev t =
     (case tb_Health t ev of
        Some err \<Rightarrow> \<lparr>ss_Status = ''unhealthy'', ss_Error = err_msg err, ss_Models = []\<rparr>
      | None \<Rightarrow>
          \<lparr>ss_Status = ''healthy'', ss_Error = [],
           ss_Models =
             (case tb_Voices t ev of
                Inl e \<Rightarrow> []
              | Inr voices \<Rightarrow> map (\<lambda>v. \<lparr>mb_ID = vc_ID v, mb_Object = ''voice'', mb_OwnedBy = []\<rparr>) voices)\<rparr>)"

definition bump :: "string \<Rightarrow> int go_map \<Rightarrow> int go_map" where
  "bump k m = AList.update k ((case map_of m k of None \<Rightarrow> 0 | Some n \<Rightarrow> n) + 1) m"

definition add_service :: "string \<Rightarrow> string \<Rightarrow> service_status \<Rightarrow> health_acc \<Rightarrow> health_acc" where
  "add_service kind name s acc =
     (let sm = ha_summary acc; well = (ss_Status s = ''healthy'')
      in \<lparr>ha_services = AList.update name s (ha_services acc),
          ha_overall = (if ss_Status s = ''unhealthy'' then ''degraded'' else ha_overall acc),
          ha_summary =
            \<lparr>hs_Total = hs_Total sm + 1,
             hs_Healthy = (if well then hs_Healthy sm + 1 else hs_Healthy sm),
             hs_Unhealthy = (if well then hs_Unhealthy sm else hs_Unhealthy sm + 1),
             hs_ByType = bump kind (hs_ByType sm)\<rparr>\<rparr>)"

definition add_chat_backends :: "env \<Rightarrow> backend list \<Rightarrow> health_acc \<Rightarrow> health_acc" where
  "add_chat_backends ev bs acc = fold (\<lambda>b. add_service ''chat'' (be_Name b) (chat_service ev b)) bs acc"

definition add_tts_backends :: "env \<Rightarrow> backend_info list \<Rightarrow> health_acc \<Rightarrow> health_acc" where
  "add_tts_backends ev infos acc =
     fold (\<lambda>i acc. case bi_TTSBackend i of
                     None \<Rightarrow> acc
                   | Some t \<Rightarrow> add_service ''tts'' (bi_Name i) (tts_service ev t) acc) infos acc"

definition or_none :: "health_acc \<Rightarrow> health_acc" where
  "or_none acc =
     (if ha_services acc = []
      then acc\<lparr>ha_services := [(''_none'', \<lparr>ss_Status = ''unhealthy'', ss_Error = ''no backends registered'', ss_Models = []\<rparr>)],
               ha_overall := ''degraded'',
               ha_summary := (ha_summary acc)\<lparr>hs_Total := 1, hs_Unhealthy := 1\<rparr>\<rparr>
      else acc)"

definition collect_health :: "env \<Rightarrow> string list \<Rightarrow> string list \<Rightarrow> registry \<Rightarrow> router option \<Rightarrow> health_acc" where
  "collect_health ev visit tvisit reg tts =
     or_none
       (case tts of
          None \<Rightarrow> add_chat_backends ev (All visit reg) no_services
        | Some rtr \<Rightarrow> add_tts_backends ev (AllInfos tvisit rtr) (add_chat_backends ev (All visit reg) no_services))"

definition brief_json :: "model_brief \<Rightarrow> json" where
  "brief_json m = JObj ([(''id'', JStr (mb_ID m))] @ opt_str ''object'' (mb_Object m) @ opt_str ''owned_by'' (mb_OwnedBy m))"

definition service_json :: "service_status \<Rightarrow> json" where
  "service_json s =
     JObj ([(''status'', JStr (ss_Status s))] @ opt_str ''error'' (ss_Error s)
           @ (if ss_Models s = [] then [] else [(''models'', JArr (map brief_json (ss_Models s)))]))"

definition summary_json :: "health_summary \<Rightarrow> json" where
  "summary_json s =
     JObj [(''total'', JInt (hs_Total s)), (''healthy'', JInt (hs_Healthy s)), (''unhealthy'', JInt (hs_Unhealthy s)),
           (''by_type'', json_map (map (\<lambda>(k, n). (k, JInt n)) (hs_ByType s)))]"

definition response_json :: "health_status_response \<Rightarrow> json" where
  "response_json h =
     JObj [(''status'', JStr (hr_Status h)), (''version'', JStr (hr_Version h)), (''timestamp'', JStr (hr_Timestamp h)),
           (''services'', json_map (map (\<lambda>(k, s). (k, service_json s)) (hr_Services h))),
           (''summary'', summary_json (hr_Summary h))]"

definition HealthStatus ::
  "build_info \<Rightarrow> (int \<Rightarrow> string) \<Rightarrow> env \<Rightarrow> string list \<Rightarrow> string list \<Rightarrow> bool \<Rightarrow> handler" where
  "HealthStatus bd rfc3339 ev visit tvisit with_tts r g =
     (let g1 = on_w (set_header ''Content-Type'' ''application/json'') g;
          acc = collect_health ev visit tvisit (gw_reg g) (if with_tts then Some (gw_router g) else None);
          (now, g2) = read_clock g1;
          resp = \<lparr>hr_Status = ha_overall acc, hr_Version = bd_Version bd, hr_Timestamp = rfc3339 now,
                  hr_Services = ha_services acc, hr_Summary = ha_summary acc\<rparr>;
          g3 = (if ha_overall acc = ''degraded'' then on_w (write_header 503) g2 else g2)
      in (Returned, write_doc (response_json resp) g3))"

section \<open>Documentation pages\<close>

definition OpenAPI :: "string \<Rightarrow> handler" where
  "OpenAPI spec r g =
     (Returned, on_w (\<lambda>w. snd (write_bytes spec
        (set_header ''Cache-Control'' ''public, max-age=3600'' (set_header ''Content-Type'' ''application/x-yaml'' w)))) g)"

definition SwaggerUI :: "string \<Rightarrow> handler" where
  "SwaggerUI html r g =
     (Returned, on_w (\<lambda>w. snd (write_bytes html
        (set_header ''Cache-Control'' ''public, max-age=3600'' (set_header ''Content-Type'' ''text/html; charset=utf-8'' w)))) g)"

end
