(* ===== verification/Health_Facts.thy ===== *)
theory Health_Facts
  imports Health Protected
begin

text \<open>
  What the health endpoints say: the status of the readiness probe and of the consolidated report
  as a function of the backends' own answers, and the totals of the report.
\<close>

section \<open>Readiness\<close>

lemma ready_loop_status:
  assumes "status_of (gw_w g) = None"
  shows "status_of (gw_w (ready_loop bd ev bs g)) = Some (if \<forall>b \<in> set bs. be_Health b ev = None then 200 else 503)"
  using assms by (induction bs arbitrary: g) (auto simp: write_doc_def write_json_def split: option.splits)

lemma set_All:
  assumes "iterates visit (rg_backends reg)"
  shows "set (All visit reg) = {b. \<exists>k. map_of (rg_backends reg) k = Some b}"
  by (simp add: All_def set_values_in [OF assms])

text \<open>
  The readiness probe answers 200 when every chat backend is healthy and 503 otherwise.\<close>

theorem Ready_verdict:
  assumes "iterates visit (rg_backends (gw_reg g))" and "status_of (gw_w g) = None"
  shows "status_of (gw_w (snd (Ready bd ev visit r g))) =
           Some (if \<forall>k b. map_of (rg_backends (gw_reg g)) k = Some b \<longrightarrow> be_Health b ev = None then 200 else 503)"
proof -
  have "(\<forall>b \<in> set (All visit (gw_reg g)). be_Health b ev = None) \<longleftrightarrow>
      (\<forall>k b. map_of (rg_backends (gw_reg g)) k = Some b \<longrightarrow> be_Health b ev = None)"
    unfolding set_All [OF assms(1)] by blast
  with assms(2) show ?thesis by (simp add: Ready_def ready_loop_status)
qed

definition failing :: backend where
  "failing = (dummy_backend ''a'')\<lparr>be_Health := \<lambda>_. Some (new_error ''refused'')\<rparr>"

definition ailing :: gateway where
  "ailing = resting\<lparr>gw_reg := Register failing NewRegistry\<rparr>"

lemma ailing_simps:
  "rg_backends (gw_reg ailing) = [(''a'', failing)]" "status_of (gw_w ailing) = None"
  "gw_router ailing = NewRouter" "be_Health failing ev = Some (new_error ''refused'')"
  by (simp_all add: ailing_def failing_def Register_def NewRegistry_def dummy_backend_def resting_def new_writer_def
      status_of_def)

definition this_build :: build_info where
  "this_build = \<lparr>bd_Version = ''dev'', bd_Commit = []\<rparr>"

theorem Ready_verdict_witness:
  "status_of (gw_w (snd (Ready this_build idle_env [''a''] (bearing ''x'') ailing))) = Some 503"
  using Ready_verdict [of "[''a'']" ailing this_build idle_env "bearing ''x''"]
  by (auto simp: ailing_simps iterates_def split: if_splits)

section \<open>The report\<close>

definition probed_services :: "env \<Rightarrow> backend list \<Rightarrow> backend_info list \<Rightarrow> (string \<times> string \<times> service_status) list" where
  "probed_services ev bs infos =
     map (\<lambda>b. (''chat'', be_Name b, chat_service ev b)) bs
     @ List.map_filter (\<lambda>i. map_option (\<lambda>t. (''tts'', bi_Name i, tts_service ev t)) (bi_TTSBackend i)) infos"

lemma add_tts_fold:
  "add_tts_backends ev infos acc =
     fold (\<lambda>(kind, name, s). add_service kind name s)
       (List.map_filter (\<lambda>i. map_option (\<lambda>t. (''tts'', bi_Name i, tts_service ev t)) (bi_TTSBackend i)) infos) acc"
  unfolding add_tts_backends_def
  by (induction infos arbitrary: acc) (auto simp: map_filter_simps split: option.splits)

lemma collect_fold:
  "collect_health ev visit tvisit reg (Some rtr) =
     or_none (fold (\<lambda>(kind, name, s). add_service kind name s)
       (probed_services ev (All visit reg) (AllInfos tvisit rtr)) no_services)"
  by (simp add: collect_health_def add_tts_fold add_chat_backends_def probed_services_def fold_map comp_def)

lemma fold_services:
  fixes svcs :: "(string \<times> string \<times> service_status) list" and acc
  defines "acc' \<equiv> fold (\<lambda>(kind, name, s). add_service kind name s) svcs acc"
  shows "ha_overall acc' =
           (if \<exists>(k, n, s) \<in> set svcs. ss_Status s = ''unhealthy'' then ''degraded'' else ha_overall acc)"
    and "hs_Total (ha_summary acc') = hs_Total (ha_summary acc) + int (length svcs)"
    and "hs_Healthy (ha_summary acc') = hs_Healthy (ha_summary acc)
           + int (length [x \<leftarrow> svcs. ss_Status (snd (snd x)) = ''healthy''])"
    and "hs_Unhealthy (ha_summary acc') = hs_Unhealthy (ha_summary acc)
           + int (length [x \<leftarrow> svcs. ss_Status (snd (snd x)) \<noteq> ''healthy''])"
    and "ha_services acc' = [] \<longleftrightarrow> svcs = [] \<and> ha_services acc = []"
proof -
  have ne: "AList.update k v m \<noteq> []" for k and v :: service_status and m by (cases m) auto
  show "ha_overall acc' =
           (if \<exists>(k, n, s) \<in> set svcs. ss_Status s = ''unhealthy'' then ''degraded'' else ha_overall acc)"
    unfolding acc'_def by (induction svcs arbitrary: acc) (auto simp: add_service_def Let_def)
  show "hs_Total (ha_summary acc') = hs_Total (ha_summary acc) + int (length svcs)"
    unfolding acc'_def by (induction svcs arbitrary: acc) (auto simp: add_service_def Let_def)
  show "hs_Healthy (ha_summary acc') = hs_Healthy (ha_summary acc)
           + int (length [x \<leftarrow> svcs. ss_Status (snd (snd x)) = ''healthy''])"
    unfolding acc'_def by (induction svcs arbitrary: acc) (auto simp: add_service_def Let_def)
  show "hs_Unhealthy (ha_summary acc') = hs_Unhealthy (ha_summary acc)
           + int (length [x \<leftarrow> svcs. ss_Status (snd (snd x)) \<noteq> ''healthy''])"
    unfolding acc'_def by (induction svcs arbitrary: acc) (auto simp: add_service_def Let_def)
  show "ha_services acc' = [] \<longleftrightarrow> svcs = [] \<and> ha_services acc = []"
    unfolding acc'_def by (induction svcs arbitrary: acc) (auto simp: add_service_def Let_def ne)
qed

lemma service_status_cases:
  "ss_Status (chat_service ev b) = (if be_Health b ev = None then ''healthy'' else ''unhealthy'')"
  "ss_Status (tts_service ev t) = (if tb_Health t ev = None then ''healthy'' else ''unhealthy'')"
  by (auto simp: chat_service_def tts_service_def split: option.splits)

lemma probed_unhealthy:
  "(\<exists>(k, n, s) \<in> set (probed_services ev bs infos). ss_Status s = ''unhealthy'') \<longleftrightarrow>
     (\<exists>b \<in> set bs. be_Health b ev \<noteq> None) \<or> (\<exists>i \<in> set infos. \<exists>t. bi_TTSBackend i = Some t \<and> tb_Health t ev \<noteq> None)"
proof -
  have "(\<exists>x \<in> set (List.map_filter (\<lambda>i. map_option (\<lambda>t. (''tts'', bi_Name i, tts_service ev t)) (bi_TTSBackend i)) infos).
        ss_Status (snd (snd x)) = ''unhealthy'') \<longleftrightarrow>
      (\<exists>i \<in> set infos. \<exists>t. bi_TTSBackend i = Some t \<and> tb_Health t ev \<noteq> None)"
    by (induction infos) (auto simp: map_filter_simps service_status_cases split: option.splits)
  moreover have "(\<exists>x \<in> set (map (\<lambda>b. (''chat'', be_Name b, chat_service ev b)) bs).
        ss_Status (snd (snd x)) = ''unhealthy'') \<longleftrightarrow> (\<exists>b \<in> set bs. be_Health b ev \<noteq> None)"
    by (induction bs) (auto simp: service_status_cases)
  moreover have "(\<exists>(k, n, s) \<in> set xs. ss_Status s = ''unhealthy'') \<longleftrightarrow> (\<exists>x \<in> set xs. ss_Status (snd (snd x)) = ''unhealthy'')"
    for xs :: "(string \<times> string \<times> service_status) list" by (auto simp: split_beta)
  ultimately show ?thesis unfolding probed_services_def set_append bex_Un by blast
qed

text \<open>Every service that is probed, and whether all of them are well.\<close>

definition all_well :: "env \<Rightarrow> registry \<Rightarrow> router \<Rightarrow> bool" where
  "all_well ev reg rtr \<longleftrightarrow>
     (\<forall>b \<in> snd ` set (rg_backends reg). be_Health b ev = None)
     \<and> (\<forall>i \<in> snd ` set (rr_backends rtr). case bi_TTSBackend i of None \<Rightarrow> True | Some t \<Rightarrow> tb_Health t ev = None)"

definition some_service :: "registry \<Rightarrow> router \<Rightarrow> bool" where
  "some_service reg rtr \<longleftrightarrow>
     rg_backends reg \<noteq> [] \<or> (\<exists>i \<in> snd ` set (rr_backends rtr). bi_TTSBackend i \<noteq> None)"

lemma values_snd: "go_map_ok m \<Longrightarrow> iterates visit m \<Longrightarrow> set (values_in visit m) = snd ` set m"
  using go_map_mem [of m] by (force simp: set_values_in)

lemma collect_verdict:
  assumes "registry_ok reg" "iterates visit (rg_backends reg)" "router_ok rtr" "iterates tvisit (rr_backends rtr)"
  shows "ha_overall (collect_health ev visit tvisit reg (Some rtr)) =
           (if some_service reg rtr \<and> all_well ev reg rtr then ''healthy'' else ''degraded'')"
proof -
  let ?svcs = "probed_services ev (All visit reg) (AllInfos tvisit rtr)"
  have ok: "go_map_ok (rg_backends reg)" "go_map_ok (rr_backends rtr)"
    using assms(1,3) by (simp_all add: registry_ok_def router_ok_def)
  have sets: "set (All visit reg) = snd ` set (rg_backends reg)" "set (AllInfos tvisit rtr) = snd ` set (rr_backends rtr)"
    using values_snd [OF ok(1) assms(2)] values_snd [OF ok(2) assms(4)] by (simp_all add: All_def AllInfos_def)
  have none: "?svcs = [] \<longleftrightarrow> \<not> some_service reg rtr"
  proof -
    have "?svcs = [] \<longleftrightarrow> set (All visit reg) = {} \<and> (\<forall>i \<in> set (AllInfos tvisit rtr). bi_TTSBackend i = None)"
      by (auto simp: probed_services_def map_filter_def filter_empty_conv)
    then show ?thesis unfolding sets some_service_def by auto
  qed
  have bad: "(\<exists>(k, n, s) \<in> set ?svcs. ss_Status s = ''unhealthy'') \<longleftrightarrow> \<not> all_well ev reg rtr"
    unfolding probed_unhealthy sets all_well_def by (auto split: option.splits)
  show ?thesis
    unfolding collect_fold or_none_def
    using fold_services(1,5) [of ?svcs no_services] none bad by (auto simp: no_services_def)
qed

text \<open>
  C39: the consolidated report has status 200 when there is a backend and all chat and TTS backends
  are healthy, and 503 otherwise, also on the route \<open>/health\<close>.
\<close>

theorem HealthStatus_verdict:
  assumes "registry_ok (gw_reg g)" and "iterates visit (rg_backends (gw_reg g))"
    and "router_ok (gw_router g)" and "iterates tvisit (rr_backends (gw_router g))"
    and "status_of (gw_w g) = None"
  shows "status_of (gw_w (snd (HealthStatus bd fmt ev visit tvisit True r g))) =
           Some (if some_service (gw_reg g) (gw_router g) \<and> all_well ev (gw_reg g) (gw_router g) then 200 else 503)"
  using collect_verdict [OF assms(1-4), of ev] assms(5)
  by (simp add: HealthStatus_def write_doc_def write_json_def Let_def read_clock_def split: if_splits)

theorem HealthStatus_verdict_witness:
  "status_of (gw_w (snd (HealthStatus this_build (\<lambda>t. []) idle_env [''a''] [] True (bearing ''x'') ailing))) = Some 503"
proof -
  have "registry_ok (gw_reg ailing)"
    by (simp add: ailing_def registry_ok_Register registry_ok_New failing_def)
  moreover have "\<not> all_well idle_env (gw_reg ailing) (gw_router ailing)"
    by (simp add: all_well_def ailing_simps)
  ultimately show ?thesis
    using HealthStatus_verdict [of ailing "[''a'']" "[]" this_build "\<lambda>t. []" idle_env "bearing ''x''"] router_ok_New
    by (simp add: ailing_simps iterates_def NewRouter_def)
qed

text \<open>
  The totals of the report add up: when a service was probed, the total is the number of
  chat backends and TTS backends probed, and the healthy and unhealthy counts sum to it.
\<close>

theorem HealthStatus_totals:
  assumes "probed_services ev (All visit reg) (AllInfos tvisit rtr) \<noteq> []"
  shows "hs_Total (ha_summary (collect_health ev visit tvisit reg (Some rtr))) =
           int (length (All visit reg)) + int (length [i \<leftarrow> AllInfos tvisit rtr. bi_TTSBackend i \<noteq> None])
       \<and> hs_Healthy (ha_summary (collect_health ev visit tvisit reg (Some rtr)))
         + hs_Unhealthy (ha_summary (collect_health ev visit tvisit reg (Some rtr)))
         = hs_Total (ha_summary (collect_health ev visit tvisit reg (Some rtr)))"
proof -
  let ?svcs = "probed_services ev (All visit reg) (AllInfos tvisit rtr)"
  let ?acc = "fold (\<lambda>(kind, name, s). add_service kind name s) ?svcs no_services"
  have acc: "collect_health ev visit tvisit reg (Some rtr) = ?acc"
    unfolding collect_fold or_none_def using fold_services(5) [of ?svcs no_services] assms by simp
  have "length (List.map_filter (\<lambda>i. map_option (\<lambda>t. (''tts'', bi_Name i, tts_service ev t)) (bi_TTSBackend i)) is)
      = length [i \<leftarrow> is. bi_TTSBackend i \<noteq> None]" for "is"
    by (induction "is") (auto simp: map_filter_simps split: option.splits)
  then have "int (length ?svcs) = int (length (All visit reg)) + int (length [i \<leftarrow> AllInfos tvisit rtr. bi_TTSBackend i \<noteq> None])"
    by (simp add: probed_services_def)
  moreover have "length [x \<leftarrow> ?svcs. ss_Status (snd (snd x)) = ''healthy''] + length [x \<leftarrow> ?svcs. ss_Status (snd (snd x)) \<noteq> ''healthy'']
      = length ?svcs"
    by (rule sum_length_filter_compl)
  ultimately show ?thesis
    unfolding acc using fold_services(2-4) [of ?svcs no_services] by (simp add: no_services_def)
qed

theorem HealthStatus_totals_witness:
  "hs_Total (ha_summary (collect_health idle_env [''a''] [] (gw_reg ailing) (Some NewRouter))) = 1"
  using HealthStatus_totals [of idle_env "[''a'']" "gw_reg ailing" "[]" NewRouter]
  by (simp add: probed_services_def All_def AllInfos_def values_in_def ailing_simps map_filter_simps)

end
