(* ===== verification/Mux.thy ===== *)
theory Mux
  imports Gateway
begin

text \<open>
  The request multiplexer of \<open>net/http\<close>, as far as the program uses it: patterns of a method and a
  literal path, the cleaning of a request path, the choice of an endpoint, and the answers the
  multiplexer gives itself. An endpoint is a handler that depends on a situation. What \<open>net/url\<close>
  makes of the request line (the escaped path, the text of a redirect) and the status of a
  redirect, which depends on the release of Go, are the record \<open>target\<close>.
\<close>

section \<open>Registration\<close>

type_synonym 'e mux = "((string \<times> string) \<times> 'e) list"

definition parse_pattern :: "string \<Rightarrow> string \<times> string" where
  "parse_pattern s =
     (takeWhile (\<lambda>c. c \<noteq> CHR '' '') s, dropWhile (\<lambda>c. c = CHR '' '') (dropWhile (\<lambda>c. c \<noteq> CHR '' '') s))"

text \<open>Two literal patterns conflict when they are the same; registering then panics: \<open>None\<close>.\<close>

definition mux_handle :: "string \<Rightarrow> 'e \<Rightarrow> 'e mux \<Rightarrow> 'e mux option" where
  "mux_handle pat e m =
     (if parse_pattern pat \<in> fst ` set m then None else Some (m @ [(parse_pattern pat, e)]))"

fun mux_handle_all :: "(string \<times> 'e) list \<Rightarrow> 'e mux \<Rightarrow> 'e mux option" where
  "mux_handle_all [] m = Some m"
| "mux_handle_all ((pat, e) # rs) m =
     (case mux_handle pat e m of None \<Rightarrow> None | Some m' \<Rightarrow> mux_handle_all rs m')"

lemma mux_handle_all_Some:
  "mux_handle_all rs m =
     (if distinct (map (\<lambda>x. parse_pattern (fst x)) rs) \<and> (\<forall>x \<in> set rs. parse_pattern (fst x) \<notin> fst ` set m)
      then Some (m @ map (\<lambda>x. (parse_pattern (fst x), snd x)) rs) else None)"
proof (induction rs m rule: mux_handle_all.induct)
  case (2 pat e rs m)
  show ?case
  proof (cases "parse_pattern pat \<in> fst ` set m")
    case True
    then show ?thesis by (simp add: mux_handle_def)
  next
    case False
    then have step: "mux_handle pat e m = Some (m @ [(parse_pattern pat, e)])" by (simp add: mux_handle_def)
    have "(\<forall>x \<in> set rs. parse_pattern (fst x) \<notin> fst ` set (m @ [(parse_pattern pat, e)])) \<longleftrightarrow>
        parse_pattern pat \<notin> (\<lambda>x. parse_pattern (fst x)) ` set rs \<and> (\<forall>x \<in> set rs. parse_pattern (fst x) \<notin> fst ` set m)"
      by (auto simp: image_iff)
    with 2 [OF step] False step show ?thesis by (simp add: conj_comms)
  qed
qed simp

section \<open>Paths\<close>

definition hex_value :: "char \<Rightarrow> nat option" where
  "hex_value c =
     (let n = of_char c
      in if 48 \<le> n \<and> n \<le> 57 then Some (n - 48)
         else if 65 \<le> n \<and> n \<le> 70 then Some (n - 55)
         else if 97 \<le> n \<and> n \<le> 102 then Some (n - 87) else None)"

fun unescape :: "string \<Rightarrow> string option" where
  "unescape [] = Some []"
| "unescape (c # cs) =
     (if c = CHR ''%''
      then (case cs of
              a # b # rest \<Rightarrow>
                (case (hex_value a, hex_value b) of
                   (Some x, Some y) \<Rightarrow> map_option (\<lambda>s. char_of (16 * x + y) # s) (unescape rest)
                 | _ \<Rightarrow> None)
            | _ \<Rightarrow> None)
      else map_option (\<lambda>s. c # s) (unescape cs))"

definition path_unescape :: "string \<Rightarrow> string" where
  "path_unescape s = (case unescape s of None \<Rightarrow> s | Some t \<Rightarrow> t)"

text \<open>The segments of a path; the path \<open>/\<close> is one segment of its own.\<close>

function segments :: "string \<Rightarrow> string list" where
  "segments [] = []"
| "segments (c # cs) =
     (if c # cs = ''/'' then [''/'']
      else path_unescape (takeWhile (\<lambda>x. x \<noteq> CHR ''/'') cs) # segments (dropWhile (\<lambda>x. x \<noteq> CHR ''/'') cs))"
  by pat_completeness auto
termination
  by (relation "measure length") (auto simp: le_imp_less_Suc length_dropWhile_le)

definition clean_step :: "string \<Rightarrow> string list \<Rightarrow> string list" where
  "clean_step s acc =
     (if s = [] \<or> s = ''.'' then acc else if s = ''..'' then butlast acc else acc @ [s])"

definition clean_path :: "string \<Rightarrow> string" where
  "clean_path p =
     (if p = [] then ''/''
      else let p' = (if hd p \<noteq> CHR ''/'' then CHR ''/'' # p else p);
               np = (case fold clean_step (split_on (CHR ''/'') p') [] of
                       [] \<Rightarrow> ''/'' | ss \<Rightarrow> concat (map (\<lambda>s. CHR ''/'' # s) ss))
           in if last p' = CHR ''/'' \<and> np \<noteq> ''/'' then np @ ''/'' else np)"

section \<open>Finding an endpoint\<close>

datatype 'e found = Endpoint 'e | NotAllowed "string list" | NoMatch

text \<open>A pattern for GET serves HEAD as well. \<open>Allow\<close> lists the methods of the path, sorted.\<close>

definition methods_of :: "string \<Rightarrow> 'e mux \<Rightarrow> string list" where
  "methods_of path m =
     (let ms = map (fst \<circ> fst) (filter (\<lambda>((method, p), e). segments p = segments path) m)
      in filter (\<lambda>x. x \<in> set ms \<or> (x = ''HEAD'' \<and> ''GET'' \<in> set ms)) [''GET'', ''HEAD'', ''POST''])"

definition endpoint_for :: "string \<Rightarrow> string \<Rightarrow> 'e mux \<Rightarrow> 'e option" where
  "endpoint_for method path m =
     map_option snd (List.find (\<lambda>((pm, p), e). pm = method \<and> segments p = segments path) m)"

definition find_handler :: "string \<Rightarrow> string \<Rightarrow> 'e mux \<Rightarrow> 'e found" where
  "find_handler method path m =
     (case endpoint_for method path m of
        Some e \<Rightarrow> Endpoint e
      | None \<Rightarrow>
          (case (if method = ''HEAD'' then endpoint_for ''GET'' path m else None) of
             Some e \<Rightarrow> Endpoint e
           | None \<Rightarrow> if methods_of path m \<noteq> [] then NotAllowed (methods_of path m) else NoMatch))"

section \<open>Serving\<close>

record target =
  tg_star :: bool
  tg_http11 :: bool
  tg_escaped :: string
  tg_location :: string
  tg_moved :: int
  tg_link :: string

definition http_error :: "string \<Rightarrow> int \<Rightarrow> gateway \<Rightarrow> gateway" where
  "http_error m code =
     on_w (\<lambda>w. snd (write_bytes (m @ [CHR 0x0A])
       (write_header code
         (set_header ''X-Content-Type-Options'' ''nosniff'' (set_header ''Content-Type'' ''text/plain; charset=utf-8'' w)))))"

definition redirect :: "target \<Rightarrow> request \<Rightarrow> gateway \<Rightarrow> gateway" where
  "redirect tg r =
     on_w (\<lambda>w.
       let w1 = set_header ''Location'' (tg_location tg) w;
           w2 = (if rq_method r = ''GET'' \<or> rq_method r = ''HEAD''
                 then set_header ''Content-Type'' ''text/html; charset=utf-8'' w1 else w1);
           w3 = write_header (tg_moved tg) w2
       in if rq_method r = ''GET'' then snd (write_bytes (tg_link tg) w3) else w3)"

fun comma_list :: "string list \<Rightarrow> string" where
  "comma_list [] = []"
| "comma_list [s] = s"
| "comma_list (s # ss) = s @ '', '' @ comma_list ss"

definition mux_serve :: "target \<Rightarrow> ('s \<Rightarrow> handler) mux \<Rightarrow> 's \<Rightarrow> handler" where
  "mux_serve tg m s r g =
     (if tg_star tg
      then (Returned, on_w (\<lambda>w. write_header 400 (if tg_http11 tg then set_header ''Connection'' ''close'' w else w)) g)
      else let connect = (rq_method r = ''CONNECT'');
               path = (if connect then tg_escaped tg else clean_path (tg_escaped tg))
           in if path \<noteq> tg_escaped tg then (Returned, redirect tg r g)
              else case find_handler (rq_method r) path m of
                     Endpoint e \<Rightarrow> e s r g
                   | NotAllowed ms \<Rightarrow>
                       (Returned, http_error ''Method Not Allowed'' 405 (on_w (set_header ''Allow'' (comma_list ms)) g))
                   | NoMatch \<Rightarrow> (Returned, http_error ''404 page not found'' 404 g))"

section \<open>What serving amounts to\<close>

lemma endpoint_for_mem:
  "endpoint_for method path m = Some e \<Longrightarrow> \<exists>p. ((method, p), e) \<in> set m \<and> segments p = segments path"
  by (auto simp: endpoint_for_def find_Some_iff) (metis nth_mem)

lemma find_handler_mem:
  "find_handler method path m = Endpoint e \<Longrightarrow>
     \<exists>pm p. ((pm, p), e) \<in> set m \<and> segments p = segments path \<and> (pm = method \<or> method = ''HEAD'' \<and> pm = ''GET'')"
  by (auto simp: find_handler_def dest!: endpoint_for_mem split: option.splits if_splits)

text \<open>Every request is answered by the multiplexer itself or by one registered endpoint.\<close>

definition mux_answer :: "target \<Rightarrow> request \<Rightarrow> gateway \<Rightarrow> gateway \<Rightarrow> bool" where
  "mux_answer tg r g g' \<longleftrightarrow>
     (\<exists>f. g' = on_w f g \<and> (\<forall>w. wr_wrap w = [] \<longrightarrow> wr_wrap (f w) = [])
        \<and> (status_of (gw_w g) = None \<longrightarrow>
            status_of (f (gw_w g)) \<in> {Some 400, Some 404, Some 405, Some (tg_moved tg)}))"

lemma on_w_on_w: "on_w f (on_w h g) = on_w (f \<circ> h) g"
  by (simp add: on_w_def)

lemma wrap_Nil [simp]:
  "wr_wrap (write_header c w) = [] \<longleftrightarrow> wr_wrap w = []" "wr_wrap (snd (write_bytes s w)) = [] \<longleftrightarrow> wr_wrap w = []"
  using wrap_length(1) [of c w] wrap_length(2) [of s w] by (metis length_0_conv)+

lemma mux_answer_cases:
  "mux_answer tg r g (on_w (\<lambda>w. write_header 400 (if b then set_header k v w else w)) g)"
  "mux_answer tg r g (redirect tg r g)"
  "mux_answer tg r g (http_error t 405 (on_w (set_header k v) g))"
  "mux_answer tg r g (http_error t 404 g)"
  unfolding mux_answer_def
     apply (intro exI conjI, rule refl, simp, simp)
    apply (unfold redirect_def, intro exI conjI, rule refl, simp add: Let_def, simp add: Let_def)
   apply (unfold http_error_def on_w_on_w, intro exI conjI, rule refl, simp, simp)
  apply (intro exI conjI, rule refl, simp, simp)
  done

lemma mux_serve_cases:
  obtains g' where "mux_serve tg m s r g = (Returned, g')" "mux_answer tg r g g'"
  | pm p e where "((pm, p), e) \<in> set m" "mux_serve tg m s r g = e s r g"
      "segments p = segments (tg_escaped tg)" "pm = rq_method r \<or> rq_method r = ''HEAD'' \<and> pm = ''GET''"
      "\<not> tg_star tg" "rq_method r \<noteq> ''CONNECT'' \<longrightarrow> clean_path (tg_escaped tg) = tg_escaped tg"
proof (cases "tg_star tg")
  case True
  then show ?thesis by (intro that(1), simp add: mux_serve_def) (rule mux_answer_cases(1))
next
  case star: False
  define path where "path = (if rq_method r = ''CONNECT'' then tg_escaped tg else clean_path (tg_escaped tg))"
  show ?thesis
  proof (cases "path = tg_escaped tg")
    case False
    with star have "mux_serve tg m s r g = (Returned, redirect tg r g)" by (simp add: mux_serve_def Let_def path_def)
    then show ?thesis by (rule that(1)) (rule mux_answer_cases(2))
  next
    case clean: True
    then have serve: "mux_serve tg m s r g =
        (case find_handler (rq_method r) path m of
           Endpoint e \<Rightarrow> e s r g
         | NotAllowed ms \<Rightarrow>
             (Returned, http_error ''Method Not Allowed'' 405 (on_w (set_header ''Allow'' (comma_list ms)) g))
         | NoMatch \<Rightarrow> (Returned, http_error ''404 page not found'' 404 g))"
      using star by (simp add: mux_serve_def Let_def path_def)
    show ?thesis
    proof (cases "find_handler (rq_method r) path m")
      case (Endpoint e)
      from find_handler_mem [OF this] obtain pm p where "((pm, p), e) \<in> set m" "segments p = segments path"
        "pm = rq_method r \<or> rq_method r = ''HEAD'' \<and> pm = ''GET''" by blast
      with Endpoint serve clean star show ?thesis
        by (intro that(2) [of pm p e]) (auto simp: path_def split: if_splits)
    next
      case (NotAllowed ms)
      with serve show ?thesis by (intro that(1), simp) (rule mux_answer_cases(3))
    next
      case NoMatch
      with serve show ?thesis by (intro that(1), simp) (rule mux_answer_cases(4))
    qed
  qed
qed

lemma mux_answer_keeps:
  assumes "mux_answer tg r g g'"
  shows "gw_reg g' = gw_reg g" "gw_router g' = gw_router g" "gw_rl g' = gw_rl g" "gw_ob g' = gw_ob g"
    "gw_clock g' = gw_clock g" "gw_reads g' = gw_reads g"
    "wr_wrap (gw_w g) = [] \<Longrightarrow> wr_wrap (gw_w g') = []"
    "status_of (gw_w g) = None \<Longrightarrow> status_of (gw_w g') \<in> {Some 400, Some 404, Some 405, Some (tg_moved tg)}"
  using assms by (auto simp: mux_answer_def)

end
