(* ===== verification/Logging_Gcp.thy ===== *)
theory Logging_Gcp
  imports Go_Json Config Observe
begin

text \<open>
  The loggers: \<open>GCPHandler\<close> of \<open>internal/logging/gcp.go\<close> around a handler of \<open>log/slog\<close>, and the
  choice of a logger in \<open>newLogger\<close> (\<open>cmd/inferencia/main.go\<close>). Of slog the model has what decides
  about a line: the least level, the attributes and groups a handler was derived with, in order,
  and the tree of attributes a record ends up as. The time stamp and the bytes of a line are not
  modelled.
\<close>

section \<open>Handlers of log/slog\<close>

type_synonym attrs = "(string \<times> json) list"

fun slog_level :: "level \<Rightarrow> int" where
  "slog_level LevelDebug = -4"
| "slog_level LevelInfo = 0"
| "slog_level LevelWarn = 4"
| "slog_level LevelError = 8"

text \<open>Levels are ordered as their numbers are.\<close>

instantiation level :: linorder
begin

definition less_eq_level :: "level \<Rightarrow> level \<Rightarrow> bool" where
  "less_eq_level a b \<longleftrightarrow> slog_level a \<le> slog_level b"

definition less_level :: "level \<Rightarrow> level \<Rightarrow> bool" where
  "less_level a b \<longleftrightarrow> slog_level a < slog_level b"

instance
proof
  fix a b c :: level
  show "a = b" if "a \<le> b" "b \<le> a"
    using that by (cases a; cases b) (simp_all add: less_eq_level_def)
  show "(a < b) = (a \<le> b \<and> \<not> b \<le> a)" unfolding less_eq_level_def less_level_def by linarith
  show "a \<le> a" by (simp add: less_eq_level_def)
  show "a \<le> c" if "a \<le> b" "b \<le> c" using that unfolding less_eq_level_def by linarith
  show "a \<le> b \<or> b \<le> a" unfolding less_eq_level_def by linarith
qed

end

datatype log_format = TextFormat | JSONFormat

datatype derivation = DerivedAttrs attrs | DerivedGroup string

record std_handler =
  sh_format :: log_format
  sh_least :: int
  sh_derived :: "derivation list"

record log_record =
  rec_level :: int
  rec_msg :: string
  rec_attrs :: attrs

record log_output =
  lo_format :: log_format
  lo_level :: int
  lo_msg :: string
  lo_attrs :: attrs

text \<open>A group without attributes is left out.\<close>

fun nest :: "derivation list \<Rightarrow> attrs \<Rightarrow> attrs" where
  "nest [] as = as"
| "nest (DerivedAttrs bs # ds) as = bs @ nest ds as"
| "nest (DerivedGroup n # ds) as = (let inner = nest ds as in if inner = [] then [] else [(n, JObj inner)])"

definition std_Handle :: "std_handler \<Rightarrow> log_record \<Rightarrow> log_output" where
  "std_Handle h r =
     \<lparr>lo_format = sh_format h, lo_level = rec_level r, lo_msg = rec_msg r, lo_attrs = nest (sh_derived h) (rec_attrs r)\<rparr>"

section \<open>GCPHandler\<close>

datatype slog_handler =
    StdHandler std_handler
  | GCPHandler (gcp_inner: slog_handler) (gcp_addResource: bool)

definition severityByLevel :: "(int \<times> string) list" where
  "severityByLevel =
     [(slog_level LevelDebug, ''DEBUG''), (slog_level LevelInfo, ''INFO''),
      (slog_level LevelWarn, ''WARNING''), (slog_level LevelError, ''ERROR'')]"

definition NewGCPHandler :: "slog_handler \<Rightarrow> bool \<Rightarrow> slog_handler" where
  "NewGCPHandler inner addResource = GCPHandler inner addResource"

fun Enabled :: "slog_handler \<Rightarrow> int \<Rightarrow> bool" where
  "Enabled (StdHandler h) l = (sh_least h \<le> l)"
| "Enabled (GCPHandler h a) l = Enabled h l"

definition severity :: "int \<Rightarrow> string" where
  "severity l =
     (let sev = (case map_of severityByLevel l of None \<Rightarrow> [] | Some s \<Rightarrow> s)
      in if sev = [] then ''DEFAULT'' else sev)"

definition gcp_resource :: json where
  "gcp_resource =
     JObj [(''labels'', JObj [(''service'', JStr ''inferencia'')]), (''type'', JStr ''generic_task'')]"

definition gcp_attrs :: "bool \<Rightarrow> int \<Rightarrow> attrs" where
  "gcp_attrs addResource l =
     (''severity'', JStr (severity l)) # (if addResource then [(''resource'', gcp_resource)] else [])"

fun Handle :: "slog_handler \<Rightarrow> log_record \<Rightarrow> log_output" where
  "Handle (StdHandler h) r = std_Handle h r"
| "Handle (GCPHandler h a) r = Handle h (r\<lparr>rec_attrs := rec_attrs r @ gcp_attrs a (rec_level r)\<rparr>)"

fun WithAttrs :: "slog_handler \<Rightarrow> attrs \<Rightarrow> slog_handler" where
  "WithAttrs (StdHandler h) as = StdHandler (h\<lparr>sh_derived := sh_derived h @ [DerivedAttrs as]\<rparr>)"
| "WithAttrs (GCPHandler h a) as = GCPHandler (WithAttrs h as) a"

fun WithGroup :: "slog_handler \<Rightarrow> string \<Rightarrow> slog_handler" where
  "WithGroup (StdHandler h) n = StdHandler (h\<lparr>sh_derived := sh_derived h @ [DerivedGroup n]\<rparr>)"
| "WithGroup (GCPHandler h a) n = GCPHandler (WithGroup h n) a"

definition std_logger :: "string \<Rightarrow> int \<Rightarrow> slog_handler" where
  "std_logger format l =
     StdHandler \<lparr>sh_format = (if format = ''text'' then TextFormat else JSONFormat), sh_least = l, sh_derived = []\<rparr>"

definition NewLogger :: "int \<Rightarrow> string \<Rightarrow> string \<Rightarrow> slog_handler" where
  "NewLogger l format cloudFormat =
     (let base = std_logger format l
      in if cloudFormat = ''gcp'' then NewGCPHandler base False
         else if cloudFormat = ''gcp_with_resource'' then NewGCPHandler base True
         else base)"

section \<open>The logger of the program\<close>

definition level_of :: "string \<Rightarrow> level" where
  "level_of s =
     (if s = ''debug'' then LevelDebug else if s = ''warn'' then LevelWarn
      else if s = ''error'' then LevelError else LevelInfo)"

definition newLogger :: "log_conf \<Rightarrow> slog_handler" where
  "newLogger cfg =
     (let l = slog_level (level_of (lc_Level cfg))
      in if lc_CloudFormat cfg \<noteq> [] then NewLogger l (lc_Format cfg) (lc_CloudFormat cfg)
         else std_logger (lc_Format cfg) l)"

text \<open>One call of a method of \<open>*slog.Logger\<close>: the line it writes, if any.\<close>

definition log_call :: "slog_handler \<Rightarrow> level \<Rightarrow> string \<Rightarrow> attrs \<Rightarrow> log_output option" where
  "log_call h l m as =
     (if Enabled h (slog_level l)
      then Some (Handle h \<lparr>rec_level = slog_level l, rec_msg = m, rec_attrs = as\<rparr>) else None)"

section \<open>Properties\<close>

definition severity_name :: "level \<Rightarrow> string" where
  "severity_name l =
     (case l of LevelDebug \<Rightarrow> ''DEBUG'' | LevelInfo \<Rightarrow> ''INFO'' | LevelWarn \<Rightarrow> ''WARNING'' | LevelError \<Rightarrow> ''ERROR'')"

lemma severity_level: "severity (slog_level l) = severity_name l"
  by (cases l) (simp_all add: severity_def severityByLevel_def severity_name_def)

text \<open>
  C9: with a validated configuration a call is written exactly when its level reaches the
  configured one, with its message and its attributes unchanged and in order; with a cloud format
  the line ends with the severity Google Cloud expects of its level, never \<open>DEFAULT\<close>, and with
  the resource when that is configured.
\<close>

theorem log_line_written:
  assumes "config_ok cfg"
  shows "log_call (newLogger (cf_Log cfg)) l m as =
     (if level_of (lc_Level (cf_Log cfg)) \<le> l
      then Some \<lparr>lo_format = (if lc_Format (cf_Log cfg) = ''text'' then TextFormat else JSONFormat),
             lo_level = slog_level l, lo_msg = m,
             lo_attrs = as
               @ (if lc_CloudFormat (cf_Log cfg) = [] then [] else [(''severity'', JStr (severity_name l))])
               @ (if lc_CloudFormat (cf_Log cfg) = ''gcp_with_resource'' then [(''resource'', gcp_resource)] else [])\<rparr>
      else None)"
  using assms
  by (auto simp: config_ok_def log_call_def newLogger_def NewLogger_def NewGCPHandler_def std_logger_def
      std_Handle_def gcp_attrs_def severity_level less_eq_level_def Let_def)

theorem log_line_written_witness:
  "log_call (newLogger (cf_Log Defaults)) LevelDebug ''probe'' [] = None"
proof -
  have "config_ok Defaults" by (simp add: config_ok_def Defaults_def)
  from log_line_written [OF this, of LevelDebug "''probe''" "[]"] show ?thesis
    by (simp add: Defaults_def level_of_def less_eq_level_def)
qed

text \<open>The derived handlers: attributes come before the record's, a group swallows what follows.\<close>

lemma nest_append: "nest (ds @ [DerivedAttrs bs]) as = nest ds (bs @ as)"
  by (induction ds as rule: nest.induct) auto

lemma nest_group: "as \<noteq> [] \<Longrightarrow> nest (ds @ [DerivedGroup n]) as = nest ds [(n, JObj as)]"
  by (induction ds as rule: nest.induct) (auto simp: Let_def)

lemma Handle_WithAttrs: "Handle (WithAttrs h bs) r = Handle h (r\<lparr>rec_attrs := bs @ rec_attrs r\<rparr>)"
  if "\<nexists>i a. h = GCPHandler i a"
  using that by (cases h) (auto simp: std_Handle_def nest_append)

text \<open>
  A logger derived with a group writes its severity inside the group, not at the top of the
  line where Cloud Logging reads it.
\<close>

theorem group_buries_severity:
  "lo_attrs (Handle (WithGroup (NewGCPHandler (std_logger f l) res) n) r) =
     [(n, JObj (rec_attrs r @ gcp_attrs res (rec_level r)))]"
  by (simp add: NewGCPHandler_def std_logger_def std_Handle_def gcp_attrs_def)

end
