(* ===== verification/Server.thy ===== *)
theory Server
  imports Mux Routes Health Watchdog Logging_Gcp
begin

text \<open>
  The HTTP server (\<open>internal/server/server.go\<close>): which patterns are registered with which handler
  behind which middleware. What differs from request to request but is not part of the gateway (the
  environment of the backend calls, the orders in which maps are visited, the state of the
  watchdog, the build's constants) is the record \<open>situation\<close>; an endpoint is a handler that
  depends on it. The handler of the Prometheus client is part of the situation as well.
\<close>

section \<open>Endpoints\<close>

record situation =
  si_rt :: runtime
  si_ev :: env
  si_visit :: "string list"
  si_tvisit :: "string list"
  si_wd :: watchdog
  si_build :: build_info
  si_rfc3339 :: "int \<Rightarrow> string"
  si_spec :: string
  si_html :: string
  si_promhttp :: handler

type_synonym endpoint = "situation \<Rightarrow> handler"

text \<open>The health checker a route is built with: nil or the watchdog, asked when a request comes.\<close>

type_synonym checker = "situation \<Rightarrow> health_checker"

definition by_watchdog :: checker where
  "by_watchdog s = Some (IsHealthy (si_wd s))"

definition secured :: "key_store \<Rightarrow> limiter_id \<Rightarrow> endpoint \<Rightarrow> endpoint" where
  "secured ks i h s = protected (si_rt s) ks i (h s)"

definition chat_endpoint :: "checker \<Rightarrow> endpoint" where
  "chat_endpoint hc s = ChatCompletions (si_rt s) (si_ev s) (si_visit s) (hc s)"

definition models_endpoint :: "checker \<Rightarrow> endpoint" where
  "models_endpoint hc s = Models (si_rt s) (si_ev s) (si_visit s) (hc s)"

definition embeddings_endpoint :: "checker \<Rightarrow> endpoint" where
  "embeddings_endpoint hc s = Embeddings (si_rt s) (si_ev s) (si_visit s) (hc s)"

definition audio_endpoint :: "checker \<Rightarrow> endpoint" where
  "audio_endpoint hc s = Audio (si_rt s) (si_ev s) (si_tvisit s) (hc s)"

definition report_endpoint :: "bool \<Rightarrow> endpoint" where
  "report_endpoint with_tts s =
     HealthStatus (si_build s) (si_rfc3339 s) (si_ev s) (si_visit s) (si_tvisit s) with_tts"

section \<open>The server\<close>

datatype root_handler = NilHandler | MuxHandler "endpoint mux" | TracedHandler string root_handler

record http_server =
  hv_Addr :: string
  hv_Handler :: root_handler
  hv_ReadTimeout :: int
  hv_ReadHeaderTimeout :: int
  hv_WriteTimeout :: int
  hv_IdleTimeout :: int
  hv_ErrorLog :: "slog_handler \<times> level"

definition new_routes :: "key_store \<Rightarrow> checker \<Rightarrow> (string \<times> endpoint) list" where
  "new_routes ks hc =
     [(''GET /health/ready'', \<lambda>s. Ready (si_build s) (si_ev s) (si_visit s)),
      (''GET /version'', \<lambda>s. VersionInfo (si_build s)),
      (''GET /openapi.yaml'', \<lambda>s. OpenAPI (si_spec s)),
      (''GET /docs'', \<lambda>s. SwaggerUI (si_html s)),
      (''GET /metrics'', si_promhttp),
      (''POST /v1/chat/completions'', secured ks ApiLimiter (chat_endpoint hc)),
      (''GET /v1/models'', secured ks ApiLimiter (models_endpoint hc)),
      (''POST /v1/embeddings'', secured ks ApiLimiter (embeddings_endpoint hc))]"

text \<open>The server and the rate limiter that its routes share; \<open>None\<close> is a panic of the multiplexer.\<close>

definition New :: "config \<Rightarrow> key_store \<Rightarrow> checker \<Rightarrow> slog_handler \<Rightarrow> (http_server \<times> limiter) option" where
  "New cfg ks hc logger =
     (let rl = NewRateLimiter (rc_RequestsPerSecond (cf_RateLimit cfg)) (rc_Burst (cf_RateLimit cfg))
      in case mux_handle_all (new_routes ks hc) [] of
           None \<Rightarrow> None
         | Some m \<Rightarrow>
             Some (\<lparr>hv_Addr = Addr (cf_Server cfg), hv_Handler = MuxHandler m,
                    hv_ReadTimeout = sc_ReadTimeout (cf_Server cfg), hv_ReadHeaderTimeout = seconds 10,
                    hv_WriteTimeout = sc_WriteTimeout (cf_Server cfg), hv_IdleTimeout = seconds 60,
                    hv_ErrorLog = (logger, LevelError)\<rparr>, rl))"

definition on_mux :: "(endpoint mux \<Rightarrow> endpoint mux option) \<Rightarrow> http_server \<Rightarrow> http_server option" where
  "on_mux f srv =
     (case hv_Handler srv of
        MuxHandler m \<Rightarrow> map_option (\<lambda>m'. srv\<lparr>hv_Handler := MuxHandler m'\<rparr>) (f m)
      | _ \<Rightarrow> Some srv)"

definition RegisterTTSRoutes ::
  "router option \<Rightarrow> checker \<Rightarrow> (endpoint \<Rightarrow> endpoint) \<Rightarrow> http_server \<Rightarrow> http_server option" where
  "RegisterTTSRoutes rtr hc guard srv =
     (if hv_Handler srv = NilHandler \<or> rtr = None then Some srv
      else on_mux (mux_handle ''POST /v1/audio/speech'' (guard (audio_endpoint hc))) srv)"

definition RegisterTTSRoute ::
  "key_store \<Rightarrow> config \<Rightarrow> endpoint mux \<Rightarrow> (endpoint mux \<times> limiter) option" where
  "RegisterTTSRoute ks cfg m =
     (let rl = NewRateLimiter (rc_RequestsPerSecond (cf_RateLimit cfg)) (rc_Burst (cf_RateLimit cfg))
      in map_option (\<lambda>m'. (m', rl))
           (mux_handle ''POST /v1/audio/speech'' (secured ks SpeechLimiter (audio_endpoint (\<lambda>_. None))) m))"

definition RegisterHealthStatusRoute :: "bool \<Rightarrow> http_server \<Rightarrow> http_server option" where
  "RegisterHealthStatusRoute with_tts srv =
     (if hv_Handler srv = NilHandler then Some srv
      else on_mux (mux_handle_all
             [(''GET /health'', report_endpoint with_tts), (''GET /health/status'', report_endpoint with_tts)]) srv)"

definition Shutdown :: "gerr option \<Rightarrow> observed \<Rightarrow> observed" where
  "Shutdown err ob =
     (let ob1 = log_attrs LevelInfo ''shutting down server'' [] ob
      in case err of
           None \<Rightarrow> ob1
         | Some e \<Rightarrow> log_attrs LevelError ''server shutdown error'' [(''err'', err_msg e)] ob1)"

section \<open>The routing table\<close>

definition public_routes :: "((string \<times> string) \<times> endpoint) list" where
  "public_routes =
     [((''GET'', ''/health/ready''), \<lambda>s. Ready (si_build s) (si_ev s) (si_visit s)),
      ((''GET'', ''/version''), \<lambda>s. VersionInfo (si_build s)),
      ((''GET'', ''/openapi.yaml''), \<lambda>s. OpenAPI (si_spec s)),
      ((''GET'', ''/docs''), \<lambda>s. SwaggerUI (si_html s)),
      ((''GET'', ''/metrics''), si_promhttp)]"

definition api_routes :: "key_store \<Rightarrow> checker \<Rightarrow> ((string \<times> string) \<times> endpoint) list" where
  "api_routes ks hc =
     [((''POST'', ''/v1/chat/completions''), secured ks ApiLimiter (chat_endpoint hc)),
      ((''GET'', ''/v1/models''), secured ks ApiLimiter (models_endpoint hc)),
      ((''POST'', ''/v1/embeddings''), secured ks ApiLimiter (embeddings_endpoint hc))]"

definition speech_route :: "key_store \<Rightarrow> checker \<Rightarrow> ((string \<times> string) \<times> endpoint) list" where
  "speech_route ks hc = [((''POST'', ''/v1/audio/speech''), secured ks SpeechLimiter (audio_endpoint hc))]"

definition report_routes :: "bool \<Rightarrow> ((string \<times> string) \<times> endpoint) list" where
  "report_routes with_tts =
     [((''GET'', ''/health''), report_endpoint with_tts), ((''GET'', ''/health/status''), report_endpoint with_tts)]"

lemma pattern_simps:
  "parse_pattern ''GET /health/ready'' = (''GET'', ''/health/ready'')"
  "parse_pattern ''GET /version'' = (''GET'', ''/version'')"
  "parse_pattern ''GET /openapi.yaml'' = (''GET'', ''/openapi.yaml'')"
  "parse_pattern ''GET /docs'' = (''GET'', ''/docs'')"
  "parse_pattern ''GET /metrics'' = (''GET'', ''/metrics'')"
  "parse_pattern ''POST /v1/chat/completions'' = (''POST'', ''/v1/chat/completions'')"
  "parse_pattern ''GET /v1/models'' = (''GET'', ''/v1/models'')"
  "parse_pattern ''POST /v1/embeddings'' = (''POST'', ''/v1/embeddings'')"
  "parse_pattern ''POST /v1/audio/speech'' = (''POST'', ''/v1/audio/speech'')"
  "parse_pattern ''GET /health'' = (''GET'', ''/health'')"
  "parse_pattern ''GET /health/status'' = (''GET'', ''/health/status'')"
  by (simp_all add: parse_pattern_def)

lemma New_server:
  "New cfg ks hc logger =
     Some (\<lparr>hv_Addr = Addr (cf_Server cfg), hv_Handler = MuxHandler (public_routes @ api_routes ks hc),
            hv_ReadTimeout = sc_ReadTimeout (cf_Server cfg), hv_ReadHeaderTimeout = seconds 10,
            hv_WriteTimeout = sc_WriteTimeout (cf_Server cfg), hv_IdleTimeout = seconds 60,
                    hv_ErrorLog = (logger, LevelError)\<rparr>,
           NewRateLimiter (rc_RequestsPerSecond (cf_RateLimit cfg)) (rc_Burst (cf_RateLimit cfg)))"
  by (simp add: New_def mux_handle_all_Some new_routes_def pattern_simps public_routes_def api_routes_def)

end
