(* ===== verification/Tracing.thy ===== *)
theory Tracing
  imports Gateway
begin

text \<open>
  Optional tracing (\<open>internal/observability/otel.go\<close>): which endpoint the exporter gets and whether
  it may talk to it without TLS, when the provider can be created, and the names of the spans. The
  OpenTelemetry library is the record \<open>otel\<close>: it says whether an exporter can be created for an
  endpoint, whether the resource of a service can be merged, and what its handler does with a
  request under a given name.
\<close>

record otel =
  ot_scheme :: "string \<Rightarrow> string option"
  ot_exporter :: "string \<Rightarrow> bool \<Rightarrow> gerr option"
  ot_resource :: "string \<Rightarrow> gerr option"
  ot_shutdown :: "gerr option"
  ot_handler :: "string \<Rightarrow> (string \<Rightarrow> request \<Rightarrow> string) \<Rightarrow> handler \<Rightarrow> handler"

text \<open>A provider remembers what it exports to; the nil pointer and a nil field are \<open>None\<close>.\<close>

record tracer_provider =
  tp_provider :: "(string \<times> bool \<times> string) option"

definition trace_endpoint :: "string \<Rightarrow> string" where
  "trace_endpoint endpoint =
     (let e = trim_space endpoint in if e = [] then ''http://localhost:4318'' else e)"

definition trace_insecure :: "otel \<Rightarrow> string \<Rightarrow> bool" where
  "trace_insecure ot endpoint \<longleftrightarrow> ot_scheme ot endpoint = Some ''http''"

definition NewTracerProvider :: "otel \<Rightarrow> string \<Rightarrow> string \<Rightarrow> gerr + tracer_provider" where
  "NewTracerProvider ot endpoint serviceName =
     (let e = trace_endpoint endpoint; insecure = trace_insecure ot e
      in case ot_exporter ot e insecure of
           Some err \<Rightarrow> Inl err
         | None \<Rightarrow>
             (case ot_resource ot serviceName of
                Some err \<Rightarrow> Inl err
              | None \<Rightarrow> Inr \<lparr>tp_provider = Some (e, insecure, serviceName)\<rparr>))"

definition ShutdownTracer :: "otel \<Rightarrow> tracer_provider option \<Rightarrow> gerr option" where
  "ShutdownTracer ot tp =
     (case tp of
        None \<Rightarrow> None
      | Some t \<Rightarrow> (case tp_provider t of None \<Rightarrow> None | Some p \<Rightarrow> ot_shutdown ot))"

definition span_name :: "string \<Rightarrow> request \<Rightarrow> string" where
  "span_name operation r = rq_method r @ '' '' @ rq_path r"

definition HTTPHandler :: "otel \<Rightarrow> handler \<Rightarrow> string \<Rightarrow> handler" where
  "HTTPHandler ot h operation = ot_handler ot operation span_name h"

lemma trace_endpoint_ne: "trace_endpoint e \<noteq> []"
  by (simp add: trace_endpoint_def Let_def)

text \<open>Whatever is configured, the exporter never gets an empty or untrimmed endpoint.\<close>

lemma NewTracerProvider_endpoint:
  assumes "NewTracerProvider ot endpoint svc = Inr tp"
  shows "\<exists>e i. tp_provider tp = Some (e, i, svc) \<and> e \<noteq> [] \<and> (i \<longleftrightarrow> ot_scheme ot e = Some ''http'')
           \<and> (trim_space endpoint \<noteq> [] \<longrightarrow> e = trim_space endpoint)"
  using assms trace_endpoint_ne [of endpoint]
  by (auto simp: NewTracerProvider_def trace_insecure_def trace_endpoint_def Let_def split: option.splits if_splits)

end
