(* ===== verification/Process.thy ===== *)
theory Process
  imports Server Tracing
begin

text \<open>
  The process (\<open>cmd/inferencia/main.go\<close>): it loads the configuration and the keys, registers the
  backends, wires server and watchdog, and is then up until it is told to stop. Every way the
  start can fail is an outcome. What the operating system and third parties contribute to the
  start is the record \<open>world\<close>.
\<close>

section \<open>Outcomes\<close>

record world =
  wo_read_file :: "string \<Rightarrow> gerr + string"
  wo_yaml :: "string \<Rightarrow> config \<Rightarrow> gerr + config"
  wo_parse_float :: "string \<Rightarrow> gerr + float64"
  wo_parse_duration :: "string \<Rightarrow> gerr + int"
  wo_quote :: "string \<Rightarrow> string"
  wo_getenv :: "string \<Rightarrow> string"
  wo_open_keys :: "string \<Rightarrow> gerr + (string \<times> gerr option)"
  wo_otel :: otel
  wo_ev :: env
  wo_visit :: "string list"
  wo_tvisit :: "string list"
  wo_clock :: "nat \<Rightarrow> int"

record app =
  ap_cfg :: config
  ap_logger :: slog_handler
  ap_server :: http_server
  ap_wd :: watchdog
  ap_tracer :: "tracer_provider option"
  ap_gw :: gateway

text \<open>\<open>Exited\<close> is \<open>os.Exit(1)\<close>, \<open>Crashed\<close> a panic nothing recovers from.\<close>

datatype boot = Exited observed | Crashed observed | Up app

section \<open>Registering the backends\<close>

definition health_timeout :: "backend_conf \<Rightarrow> int" where
  "health_timeout b = (if bc_HealthTimeout b \<le> 0 then seconds 5 else bc_HealthTimeout b)"

definition make_backend :: "backend_conf \<Rightarrow> backend option" where
  "make_backend b =
     (if bc_Type b = ''mlx'' then Some (mlx_backend (NewMLX (bc_Name b) (bc_URL b) (health_timeout b) (bc_Timeout b)))
      else if bc_Type b = ''ollama''
      then Some (ol_backend (NewOllama (bc_Name b) (bc_URL b) (health_timeout b) (bc_Timeout b)))
      else None)"

fun register_backends :: "backend_conf list \<Rightarrow> registry \<times> observed \<Rightarrow> observed + registry \<times> observed" where
  "register_backends [] s = Inr s"
| "register_backends (b # bs) (reg, ob) =
     (case make_backend b of
        Some be \<Rightarrow>
          register_backends bs
            (Register be reg,
             log_attrs LevelInfo ''backend registered''
               [(''name'', bc_Name b), (''type'', bc_Type b), (''url'', bc_URL b)] ob)
      | None \<Rightarrow>
          Inl (log_attrs LevelError ''unknown backend type'' [(''name'', bc_Name b), (''type'', bc_Type b)] ob))"

definition voice_info :: "tts_conf \<Rightarrow> backend_info" where
  "voice_info t =
     \<lparr>bi_Name = tc_Name t, bi_Backend = None,
      bi_TTSBackend = Some (tts_http_backend (NewTTSHTTP (tc_Name t) (tc_URL t) (tc_Timeout t))),
      bi_Capabilities = [CapTTS],
      bi_Models = [\<lparr>mi_ID = tc_Name t, mi_Provider = [], mi_Kind = CapTTS\<rparr>]\<rparr>"

definition register_voices :: "tts_conf list \<Rightarrow> router \<times> observed \<Rightarrow> router \<times> observed" where
  "register_voices ts s =
     fold (\<lambda>t (rtr, ob).
             (RegisterInfo (voice_info t) rtr,
              log_attrs LevelInfo ''tts backend registered'' [(''name'', tc_Name t), (''url'', tc_URL t)] ob)) ts s"

section \<open>Wiring\<close>

definition watchdog_config :: "config \<Rightarrow> wd_config" where
  "watchdog_config cfg =
     \<lparr>wc_Interval = wf_Interval (cf_Watchdog cfg), wc_FailThreshold = wf_FailThreshold (cf_Watchdog cfg),
      wc_RequestTimeout = wf_RequestTimeout (cf_Watchdog cfg)\<rparr>"

text \<open>
  The server with all its routes, and the two limiters: the speech route has one of its own. Without
  speech backends there is no speech route, and the second limiter is one that nobody asks.
\<close>

definition assemble :: "config \<Rightarrow> key_store \<Rightarrow> router \<Rightarrow> (http_server \<times> (limiter_id \<Rightarrow> limiter)) option" where
  "assemble cfg ks rtr =
     (case New cfg ks by_watchdog (newLogger (cf_Log cfg)) of
        None \<Rightarrow> None
      | Some (srv, rl) \<Rightarrow>
          let speech = NewRateLimiter (rc_RequestsPerSecond (cf_RateLimit cfg)) (rc_Burst (cf_RateLimit cfg))
          in case (if 0 < Len rtr then RegisterTTSRoutes (Some rtr) by_watchdog (secured ks SpeechLimiter) srv
                   else Some srv) of
               None \<Rightarrow> None
             | Some srv1 \<Rightarrow>
                 map_option (\<lambda>srv2. (srv2, (\<lambda>_. rl)(SpeechLimiter := speech))) (RegisterHealthStatusRoute True srv1))"

section \<open>Start\<close>

text \<open>
  Everything after the keys are there: \<open>main\<close> from the watchdog to the running server. The ticker of
  an interval that is not positive panics in the goroutine of the watchdog while \<open>main\<close> goes on; a
  tracer that fails may end the process first. The order in which both happen is not fixed by the
  program; here the panic comes first. Either way the process does not come up.
\<close>

definition launch :: "world \<Rightarrow> config \<Rightarrow> key_store \<Rightarrow> registry \<Rightarrow> router \<Rightarrow> observed \<Rightarrow> boot" where
  "launch wo cfg ks reg rtr ob =
     (case assemble cfg ks rtr of
        None \<Rightarrow> Crashed ob
      | Some (srv, rls) \<Rightarrow>
          (case Start (wo_visit wo) (wo_tvisit wo) (wo_ev wo) reg (Some rtr) (NewWatchdog (watchdog_config cfg), ob) of
             (ProcessCrashed, w, ob1) \<Rightarrow> Crashed ob1
           | (Started, w, ob1) \<Rightarrow>
               let up = (\<lambda>srv tp ob2. Up \<lparr>ap_cfg = cfg, ap_logger = newLogger (cf_Log cfg), ap_server = srv,
                           ap_wd = w, ap_tracer = tp,
                           ap_gw = \<lparr>gw_reg = reg, gw_router = rtr, gw_rl = rls, gw_clock = wo_clock wo, gw_reads = 0,
                                    gw_w = new_writer, gw_ob = ob2\<rparr>\<rparr>);
                   starting = log_attrs LevelInfo ''server starting'' [(''addr'', Addr (cf_Server cfg))];
                   oc = cf_Observability cfg
               in if \<not> oc_OTelEnabled oc then up srv None (starting ob1)
                  else case NewTracerProvider (wo_otel wo) (oc_OTelEndpoint oc) (oc_OTelServiceName oc) of
                         Inl e \<Rightarrow> Exited (log_attrs LevelError ''otel tracer provider failed'' [(''err'', err_msg e)] ob1)
                       | Inr tp \<Rightarrow>
                           up (srv\<lparr>hv_Handler := TracedHandler (oc_OTelServiceName oc) (hv_Handler srv)\<rparr>) (Some tp)
                             (starting (log_attrs LevelInfo ''opentelemetry tracing enabled''
                               [(''endpoint'', oc_OTelEndpoint oc)] ob1))))"

definition main_start :: "world \<Rightarrow> string \<Rightarrow> boot" where
  "main_start wo path =
     (case Load (wo_read_file wo) (wo_yaml wo) (wo_parse_float wo) (wo_parse_duration wo) (wo_quote wo) (wo_getenv wo) path of
        Inl e \<Rightarrow> Exited (log_attrs LevelError ''failed to load config'' [(''err'', err_msg e)] no_observed)
      | Inr cfg \<Rightarrow>
          (case NewKeyStore (wo_quote wo) (wo_getenv wo ''INFERENCIA_API_KEYS'') (wo_open_keys wo) (ac_KeysFile (cf_Auth cfg)) of
             Inl e \<Rightarrow> Exited (log_attrs LevelError ''failed to load API keys'' [(''err'', err_msg e)] no_observed)
           | Inr ks \<Rightarrow>
               (case register_backends (cf_Backends cfg)
                       (NewRegistry, log_attrs LevelInfo ''api keys loaded'' [(''count'', itoa (int (Count ks)))] no_observed) of
                  Inl ob \<Rightarrow> Exited ob
                | Inr (reg, ob) \<Rightarrow>
                    case register_voices (cf_TTSBackends cfg) (NewRouter, ob) of
                      (rtr, ob1) \<Rightarrow> launch wo cfg ks reg rtr ob1)))"

section \<open>Stop\<close>

text \<open>
  \<open>ListenAndServe\<close> failed, and the orderly end after a signal; the error of the tracer's shutdown is
  dropped, and the shutdown of the server is a call that may fail.
\<close>

definition listen_failed :: "gerr \<Rightarrow> app \<Rightarrow> boot" where
  "listen_failed e a = Exited (log_attrs LevelError ''server error'' [(''err'', err_msg e)] (gw_ob (ap_gw a)))"

definition main_stop :: "gerr option \<Rightarrow> app \<Rightarrow> app" where
  "main_stop shutdown_err a =
     (let ob1 = log_attrs LevelInfo ''shutdown signal received'' [] (gw_ob (ap_gw a));
          ob2 = log_attrs LevelInfo ''server stopped'' [] (Shutdown shutdown_err ob1)
      in a\<lparr>ap_wd := Stop (ap_wd a), ap_gw := (ap_gw a)\<lparr>gw_ob := ob2\<rparr>\<rparr>)"

end
