(* ===== verification/Handler_Frame.thy ===== *)
theory Handler_Frame
  imports Handler_Facts
begin

text \<open>
  What a handler leaves alone and what it can answer: the rate limiters, the clock and the sets of
  registered backends are untouched by every API handler, and the status it sends is one of the
  statuses of the API.
\<close>

section \<open>Steps that leave the process alone\<close>

named_theorems calm \<open>steps that leave limiters, clock and registered backends alone\<close>

definition calm_step :: "gateway \<Rightarrow> gateway \<Rightarrow> bool" where
  "calm_step g g' \<longleftrightarrow>
     gw_rl g' = gw_rl g \<and> gw_clock g' = gw_clock g \<and> gw_reads g \<le> gw_reads g'
     \<and> rg_backends (gw_reg g') = rg_backends (gw_reg g) \<and> rg_primary (gw_reg g') = rg_primary (gw_reg g)
     \<and> rr_backends (gw_router g') = rr_backends (gw_router g)"

lemma calm_refl [calm]: "calm_step g g"
  by (simp add: calm_step_def)

lemma calm_trans: "calm_step g h \<Longrightarrow> calm_step h k \<Longrightarrow> calm_step g k"
  by (simp add: calm_step_def)

lemma calm_basic [calm]:
  "calm_step g h \<Longrightarrow> calm_step g (on_w f h)"
  "calm_step g h \<Longrightarrow> calm_step g (count c h)"
  "calm_step g h \<Longrightarrow> calm_step g (write_log l m as h)"
  "calm_step g h \<Longrightarrow> calm_step g (answer_with e h)"
  "calm_step g h \<Longrightarrow> calm_step g (snd (read_clock h))"
  by (simp_all add: calm_step_def)

lemma calm_set_reg [calm]:
  "calm_step g h \<Longrightarrow> rg_backends reg = rg_backends (gw_reg h) \<Longrightarrow> rg_primary reg = rg_primary (gw_reg h) \<Longrightarrow>
   calm_step g (set_reg reg h)"
  by (simp add: calm_step_def set_reg_def)

lemma calm_set_router [calm]:
  "calm_step g h \<Longrightarrow> rr_backends rtr = rr_backends (gw_router h) \<Longrightarrow> calm_step g (set_router rtr h)"
  by (simp add: calm_step_def set_router_def)

lemma calm_document [calm]: "calm_step g h \<Longrightarrow> calm_step g (write_document enc doc m h)"
  unfolding write_document_def
  by (auto simp: Let_def simp del: on_w_simps intro!: calm split: sum.split prod.split option.split)

lemma calm_failed [calm]: "calm_step g h \<Longrightarrow> calm_step g (backend_failed what name e h)"
  unfolding backend_failed_def by (intro calm)

lemma calm_counter_add [calm]:
  "calm_step g h \<Longrightarrow> (\<And>h'. calm_step g h' \<Longrightarrow> calm_step g (snd (k h'))) \<Longrightarrow>
   calm_step g (snd (counter_add rt m ls v k h))"
  by (auto simp: counter_add_def intro!: calm split: option.split)

lemma calm_handleJSON [calm]: "calm_step g h \<Longrightarrow> calm_step g (snd (handleJSON rt ev b req h))"
  unfolding handleJSON_def by (auto simp: Let_def intro!: calm split: sum.split option.split)

lemma calm_handleStream [calm]: "calm_step g h \<Longrightarrow> calm_step g (snd (handleStream ev b req h))"
  unfolding handleStream_def
  by (auto simp: Let_def simp del: on_w_simps intro!: calm split: prod.split option.split)

lemma PrimaryHealthy_keeps:
  "rg_backends (snd (PrimaryHealthy visit hc reg)) = rg_backends reg"
  "rg_primary (snd (PrimaryHealthy visit hc reg)) = rg_primary reg"
  by (auto simp: PrimaryHealthy_def Let_def split: prod.split)

lemma calm_with_backend:
  assumes "\<And>b h. calm_step g h \<Longrightarrow> calm_step g (snd (body b h))"
  shows "calm_step g (snd (with_backend visit hc body g))"
proof -
  obtain res reg where sel: "PrimaryHealthy visit hc (gw_reg g) = (res, reg)" by fastforce
  have keeps: "rg_backends reg = rg_backends (gw_reg g)" "rg_primary reg = rg_primary (gw_reg g)"
    using PrimaryHealthy_keeps [of visit hc "gw_reg g"] sel by simp_all
  have body: "calm_step g (snd (body b (set_reg reg g)))" for b
    by (rule assms) (auto intro!: calm simp: keeps)
  have "calm_step g (set_reg (ReleaseBackend n (gw_reg h)) h)" if "calm_step g h" for n h
    by (intro calm that) (simp_all add: ReleaseBackend_def)
  with keeps body show ?thesis
    by (auto simp: with_backend_def sel split_beta intro!: calm split: sum.split option.split)
qed

lemma calm_chat: "calm_step g (snd (ChatCompletions rt ev visit hc r g))"
  unfolding ChatCompletions_def by (auto simp: Let_def intro!: calm calm_with_backend split: sum.split)

lemma calm_models: "calm_step g (snd (Models rt ev visit hc r g))"
  unfolding Models_def by (auto intro!: calm calm_with_backend split: sum.split)

lemma calm_embeddings: "calm_step g (snd (Embeddings rt ev visit hc r g))"
  unfolding Embeddings_def by (auto intro!: calm calm_with_backend split: sum.split)

lemma calm_speak: "calm_step g h \<Longrightarrow> calm_step g (snd (speak rt ev info req h))"
  unfolding speak_def
  by (auto simp: Let_def simp del: on_w_simps intro!: calm split: option.split sum.split prod.split)

lemma pickBalanced_keeps: "rr_backends (snd (pickBalanced cs rtr)) = rr_backends rtr"
  by (simp add: pickBalanced_def Let_def split: prod.split)

lemma SelectHealthyBackend_keeps: "rr_backends (snd (SelectHealthyBackend visit kind m hc rtr)) = rr_backends rtr"
  using pickBalanced_keeps
  by (auto simp: SelectHealthyBackend_def selectBackend_def Let_def split_beta)

lemma calm_audio: "calm_step g (snd (Audio rt ev visit hc r g))"
proof -
  have main: "calm_step g (snd (case SelectHealthyBackend visit CapTTS m hc (gw_router g) of
         (Inl err, rtr) \<Rightarrow> (Returned, answer_with x (write_log l t (as err) (set_router rtr g)))
       | (Inr info, rtr) \<Rightarrow>
           (case speak rt ev info req (set_router rtr g) of
              (f, g1) \<Rightarrow> (f, set_router (ReleaseRouted (bi_Name info) (gw_router g1)) g1))))"
    for m req x l t as
  proof -
    obtain res rtr where sel: "SelectHealthyBackend visit CapTTS m hc (gw_router g) = (res, rtr)" by fastforce
    have "rr_backends rtr = rr_backends (gw_router g)"
      using SelectHealthyBackend_keeps [of visit CapTTS m hc "gw_router g"] sel by simp
    then have router: "calm_step g (set_router rtr g)" by (intro calm)
    have "calm_step g (set_router (ReleaseRouted n (gw_router h)) h)" if "calm_step g h" for n h
      by (intro calm that) (simp add: ReleaseRouted_def)
    with calm_speak [OF router] router show ?thesis
      by (auto simp: sel split_beta intro!: calm split: sum.split)
  qed
  show ?thesis unfolding Audio_def by (auto simp: Let_def intro!: calm main split: sum.split)
qed

section \<open>The statuses of the API\<close>

named_theorems stated \<open>steps that send a status of the API only\<close>

definition api_statuses :: "int set" where
  "api_statuses = {200, 400, 401, 429, 500, 503, 504}"

definition status_ok :: "gateway \<Rightarrow> bool" where
  "status_ok g \<longleftrightarrow> (case status_of (gw_w g) of None \<Rightarrow> True | Some c \<Rightarrow> c \<in> api_statuses)"

lemma stated_quiet [stated]:
  "status_ok h \<Longrightarrow> status_ok (count c h)" "status_ok h \<Longrightarrow> status_ok (write_log l m as h)"
  "status_ok h \<Longrightarrow> status_ok (snd (read_clock h))" "status_ok h \<Longrightarrow> status_ok (set_reg reg h)"
  "status_ok h \<Longrightarrow> status_ok (set_router rtr h)" "status_ok h \<Longrightarrow> status_ok (on_w (set_header k v) h)"
  "status_ok h \<Longrightarrow> status_ok (on_w (set_header k v \<circ> set_header k' v') h)"
  by (simp_all add: status_ok_def set_reg_def set_router_def)

lemma api_error_status:
  "ae_status (InvalidRequest m) \<in> api_statuses" "ae_status (InvalidParam p m) \<in> api_statuses"
  "ae_status (Unauthorized m) \<in> api_statuses" "ae_status RateLimited \<in> api_statuses"
  "ae_status (BackendUnavailable b) \<in> api_statuses" "ae_status (Internal m) \<in> api_statuses"
  "ae_status (backendSelectError reg e) \<in> api_statuses" "ae_status (invalid_json e) \<in> api_statuses"
  by (simp_all add: InvalidRequest_def InvalidParam_def Unauthorized_def RateLimited_def BackendUnavailable_def
      Internal_def backendSelectError_def invalid_json_def api_statuses_def)

lemma stated_answer [stated]:
  "status_ok h \<Longrightarrow> ae_status e \<in> api_statuses \<Longrightarrow> status_ok (answer_with (Some e) h)"
  by (cases "status_of (gw_w h)") (simp_all add: status_ok_def api_write_def write_json_def)

lemma stated_write [stated]:
  "status_ok h \<Longrightarrow> write_bytes s (gw_w h) = (e, w) \<Longrightarrow> status_ok (on_w (\<lambda>_. w) h)"
  using write_bytes_status [of s "gw_w h"]
  by (cases "status_of (gw_w h)") (simp_all add: status_ok_def api_statuses_def)

lemma stated_document [stated]: "status_ok h \<Longrightarrow> status_ok (write_document enc doc m h)"
  unfolding write_document_def
  by (auto simp: Let_def simp del: on_w_simps intro!: stated split: sum.split prod.split option.split)

lemma stated_failed [stated]:
  assumes "status_ok h"
  shows "status_ok (backend_failed what name e h)"
proof -
  obtain x where "FromBackendError name (Some e) = Some x" "ae_status x \<in> api_statuses"
    using FromBackendError_cases [of name e] by (auto simp: backend_error_defs api_statuses_def)
  with assms show ?thesis unfolding backend_failed_def by (auto intro!: stated)
qed

lemma stated_counter_add [stated]:
  "status_ok h \<Longrightarrow> (\<And>h'. status_ok h' \<Longrightarrow> status_ok (snd (k h'))) \<Longrightarrow>
   status_ok (snd (counter_add rt m ls v k h))"
  by (auto simp: counter_add_def intro!: stated split: option.split)

lemma stated_handleJSON [stated]: "status_ok h \<Longrightarrow> status_ok (snd (handleJSON rt ev b req h))"
  unfolding handleJSON_def by (auto simp: Let_def intro!: stated split: sum.split option.split)

lemma send_event_status:
  assumes "status_of w = Some c"
  shows "status_of (snd (send_event d w)) = Some c"
proof -
  have keep: "status_of (snd (write_bytes t v)) = Some c" "status_of (flush v) = Some c" if "status_of v = Some c" for t v
    using that by simp_all
  obtain e w1 r w2 where c: "context_err w = (e, w1)" and b: "write_bytes (sse_event d) w1 = (r, w2)"
    and eq: "send_event d w =
       (case e of Some e \<Rightarrow> (Some e, w1)
        | None \<Rightarrow> (case r of Some e \<Rightarrow> (Some (context_error ''client disconnected'' e), w2) | None \<Rightarrow> (None, flush w2)))"
    by (rule send_event_cases)
  have w1: "status_of w1 = Some c" using wrap_status(3) [of w] assms c by simp
  have w2: "status_of w2 = Some c" using keep(1) [OF w1, of "sse_event d"] b by simp
  show ?thesis unfolding eq using w1 w2 keep(2) [OF w2] by (simp split: option.split)
qed

lemma run_sends_status: "status_of w = Some c \<Longrightarrow> status_of (snd (run_sends send_event ds w)) = Some c"
proof (induction ds arbitrary: w)
  case (Cons d ds)
  obtain r w' where step: "send_event d w = (r, w')" by fastforce
  with send_event_status [OF Cons.prems, of d] Cons.IH [of w'] show ?case by (auto split: option.splits)
qed simp

lemma stated_handleStream [stated]:
  assumes "relays b" "status_ok h"
  shows "status_ok (snd (handleStream ev b req h))"
proof (cases "is_flusher (gw_w h)")
  case False
  then show ?thesis using assms(2) by (auto simp: handleStream_def intro!: stated api_error_status)
next
  case True
  let ?w = "flush (write_header 200 (stream_headers (gw_w h)))"
  obtain ds where ds: "snd (be_ChatCompletionStream b ev req send_event ?w) = snd (run_sends send_event ds ?w)"
    using assms(1) unfolding relays_def by blast
  obtain r w' where res: "be_ChatCompletionStream b ev req send_event ?w = (r, w')" by fastforce
  obtain c where c: "status_of ?w = Some c" "c \<in> api_statuses"
    using assms(2) by (cases "status_of (gw_w h)") (auto simp: stream_headers_def status_ok_def api_statuses_def)
  from run_sends_status [OF c(1), of ds] ds res have "status_of w' = Some c" by simp
  with True c(2) res show ?thesis
    by (auto simp: handleStream_def Let_def status_ok_def split: option.split)
qed

lemma stated_with_backend:
  assumes "relaying (gw_reg g) rtr" "status_ok g" and "\<And>b h. relays b \<Longrightarrow> status_ok h \<Longrightarrow> status_ok (snd (body b h))"
  shows "status_ok (snd (with_backend visit hc body g))"
proof -
  obtain res reg where sel: "PrimaryHealthy visit hc (gw_reg g) = (res, reg)" by fastforce
  consider e where "res = Inl e" | "res = Inr None" | b where "res = Inr (Some b)" by (metis option.exhaust sum.exhaust)
  then show ?thesis
  proof cases
    case 1
    with assms(2) show ?thesis by (auto simp: with_backend_def sel intro!: stated api_error_status)
  next
    case 2
    with assms(2) show ?thesis by (auto simp: with_backend_def sel intro!: stated)
  next
    case (3 b)
    then have "relays b" using PrimaryHealthy_backends(2) [OF sel 3] assms(1) by (auto simp: relaying_def)
    then have "status_ok (snd (body b (set_reg reg g)))" by (rule assms(3)) (intro stated assms(2))
    with 3 show ?thesis by (auto simp: with_backend_def sel split_beta intro!: stated)
  qed
qed

lemma stated_chat: "relaying (gw_reg g) rtr \<Longrightarrow> status_ok g \<Longrightarrow> status_ok (snd (ChatCompletions rt ev visit hc r g))"
  unfolding ChatCompletions_def
  by (auto simp: Let_def intro!: stated stated_with_backend api_error_status split: sum.split)

lemma stated_models: "relaying (gw_reg g) rtr \<Longrightarrow> status_ok g \<Longrightarrow> status_ok (snd (Models rt ev visit hc r g))"
  unfolding Models_def by (auto intro!: stated stated_with_backend split: sum.split)

lemma stated_embeddings: "relaying (gw_reg g) rtr \<Longrightarrow> status_ok g \<Longrightarrow> status_ok (snd (Embeddings rt ev visit hc r g))"
  unfolding Embeddings_def by (auto intro!: stated stated_with_backend api_error_status split: sum.split)

lemma stated_speak: "status_ok h \<Longrightarrow> status_ok (snd (speak rt ev info req h))"
  unfolding speak_def
  by (auto simp: Let_def simp del: on_w_simps intro!: stated api_error_status split: option.split sum.split prod.split)

lemma stated_audio: "status_ok g \<Longrightarrow> status_ok (snd (Audio rt ev visit hc r g))"
  unfolding Audio_def
  by (auto simp: Let_def split_beta intro!: stated stated_speak api_error_status split: sum.split)

end
