(* ===== verification/Serving.thy ===== *)
theory Serving
  imports Process Handler_Frame
begin

text \<open>
  One request at the root of the server, for every endpoint the process registers: what it can do to
  the state that outlives it, and which statuses it can get.
\<close>

section \<open>Through the middleware\<close>

text \<open>
  What the middleware has done to the state when it calls the handler, or when it refuses: at most
  one charge to the route's limiter, at an instant read off the clock meanwhile.
\<close>

definition let_in :: "limiter_id \<Rightarrow> gateway \<Rightarrow> gateway \<Rightarrow> bool" where
  "let_in i g g1 \<longleftrightarrow>
     gw_reg g1 = gw_reg g \<and> gw_router g1 = gw_router g \<and> gw_clock g1 = gw_clock g \<and> gw_reads g \<le> gw_reads g1
     \<and> (gw_rl g1 = gw_rl g
        \<or> (\<exists>key t. gw_reads g \<le> t \<and> t \<le> gw_reads g1
             \<and> gw_rl g1 = (gw_rl g)(i := charge key (gw_clock g t) (gw_rl g i))))"

definition left_as :: "gateway \<Rightarrow> gateway \<Rightarrow> bool" where
  "left_as g1 g' \<longleftrightarrow>
     gw_reg g' = gw_reg g1 \<and> gw_router g' = gw_router g1 \<and> gw_rl g' = gw_rl g1 \<and> gw_clock g' = gw_clock g1
     \<and> gw_reads g1 \<le> gw_reads g'"

lemma left_as_simps:
  "left_as g1 (left_well r t g1)" "left_as g1 (left_panicking rt r e g1)"
  by (simp_all add: left_as_def left_well_def left_panicking_def recovered_def count_request_def Let_def read_clock_def
      count_def on_w_def write_log_def answer_with_def)

lemma limited_let_in:
  assumes "Allow key (gw_clock g (gw_reads g)) (gw_rl g i) = (n, ok, l)"
  shows "let_in i g (limited i l g)" and "let_in i g (admitted i n l g)"
proof -
  have l: "l = charge key (gw_clock g (gw_reads g)) (gw_rl g i)" using assms by simp
  have reads: "gw_reads (limited i l g) = Suc (gw_reads g)" "gw_reads (admitted i n l g) = Suc (gw_reads g)"
    by (simp_all add: limited_def admitted_def set_limiter_def)
  have rl: "\<exists>key t. gw_reads g \<le> t \<and> t \<le> Suc (gw_reads g) \<and> (gw_rl g)(i := l) = (gw_rl g)(i := charge key (gw_clock g t) (gw_rl g i))"
    unfolding l by (intro exI [of _ key] exI [of _ "gw_reads g"]) simp
  show "let_in i g (limited i l g)" "let_in i g (admitted i n l g)"
    using rl reads by (simp_all add: let_in_def)
qed

lemma let_in_refl: "let_in i g g"
  by (simp add: let_in_def)

lemma let_in_shift:
  assumes "let_in i g1 g2" "gw_reg g1 = gw_reg g" "gw_router g1 = gw_router g" "gw_clock g1 = gw_clock g"
    "gw_reads g \<le> gw_reads g1" "gw_rl g1 = gw_rl g"
  shows "let_in i g g2"
  using assms unfolding let_in_def by (metis order_trans)

lemma RateLimit_cases:
  obtains (refused) g1 where "RateLimit i h r g = (Returned, answer_with (Some RateLimited) g1)" "let_in i g g1"
      "gw_w g1 = gw_w (limited i (gw_rl g1 i) g)"
  | (ran) g1 where "RateLimit i h r g = h r g1" "let_in i g g1" "status_of (gw_w g1) = status_of (gw_w g)"
proof (cases "APIKeyFromContext r = []")
  case True
  then have "RateLimit i h r g = h r g" by (simp add: RateLimit_def)
  then show ?thesis by (rule ran) (simp_all add: let_in_refl)
next
  case False
  obtain n ok l where allow: "Allow (APIKeyFromContext r) (gw_clock g (gw_reads g)) (gw_rl g i) = (n, ok, l)"
    by (metis prod_cases3)
  note rl = RateLimit_key [OF False allow, of h]
  show ?thesis
  proof (cases ok)
    case True
    with rl have "RateLimit i h r g = h r (admitted i n l g)" by simp
    then show ?thesis by (rule ran) (simp_all add: limited_let_in [OF allow])
  next
    case False
    with rl have "RateLimit i h r g = (Returned, answer_with (Some RateLimited) (limited i l g))" by simp
    then show ?thesis by (rule refused) (simp_all add: limited_let_in [OF allow])
  qed
qed

text \<open>Either the middleware answered, or the handler ran once on the state it was let in with.\<close>

lemma protected_cases:
  obtains (refused) g1 where "let_in i g g1" "left_as g1 (snd (protected rt ks i h r g))"
      "status_of (gw_w g) = None \<Longrightarrow> status_of (gw_w (snd (protected rt ks i h r g))) \<in> {Some 401, Some 429}"
  | (ran) g1 r' where "let_in i g g1" "left_as (snd (h r' g1)) (snd (protected rt ks i h r g))"
      "status_of (gw_w g) = None \<Longrightarrow> status_of (gw_w g1) = None"
      "status_of (gw_w (snd (protected rt ks i h r g))) = status_of (gw_w (snd (h r' g1)))
       \<or> status_of (gw_w (snd (h r' g1))) = None \<and> status_of (gw_w (snd (protected rt ks i h r g))) = Some 500"
proof -
  let ?e = "entered rt r g" and ?r = "identified rt r"
  have entry: "let_in i g g1" if "let_in i ?e g1" for g1
    by (rule let_in_shift [OF that]) simp_all
  have refusal: thesis if "Auth ks (RateLimit i h) ?r ?e = (Returned, answer_with (Some e) g1)"
    "let_in i ?e g1" "ae_status e \<in> {401, 429}" "status_of (gw_w g1) = status_of (gw_w ?e)" for e g1
  proof (rule refused)
    show "let_in i g g1" by (rule entry [OF that(2)])
    have "left_as (answer_with (Some e) g1) (snd (protected rt ks i h r g))"
      unfolding protected_unfold that(1) by (simp add: left_as_simps)
    then show "left_as g1 (snd (protected rt ks i h r g))" by (simp add: left_as_def)
    show "status_of (gw_w (snd (protected rt ks i h r g))) \<in> {Some 401, Some 429}" if "status_of (gw_w g) = None"
      unfolding protected_unfold \<open>Auth ks (RateLimit i h) ?r ?e = _\<close>
      using that \<open>ae_status e \<in> {401, 429}\<close> \<open>status_of (gw_w g1) = _\<close> by (auto simp: api_write_status)
  qed
  have running: thesis if a: "Auth ks (RateLimit i h) ?r ?e = h r' g1" "let_in i ?e g1"
    "status_of (gw_w g1) = status_of (gw_w ?e)" for r' g1
  proof (rule ran)
    obtain f g2 where h: "h r' g1 = (f, g2)" by fastforce
    show "let_in i g g1" by (rule entry [OF that(2)])
    show "left_as (snd (h r' g1)) (snd (protected rt ks i h r g))"
      unfolding protected_unfold a(1) h by (simp add: left_as_simps split: flow.split)
    show "status_of (gw_w g) = None \<Longrightarrow> status_of (gw_w g1) = None" using a(3) by simp
    show "status_of (gw_w (snd (protected rt ks i h r g))) = status_of (gw_w (snd (h r' g1)))
       \<or> status_of (gw_w (snd (h r' g1))) = None \<and> status_of (gw_w (snd (protected rt ks i h r g))) = Some 500"
      unfolding protected_unfold a(1) h
      by (cases f; cases "status_of (gw_w g2)")
        (auto simp: left_panicking_def recovered_def api_write_def write_json_def Internal_def)
  qed
  show ?thesis
  proof (cases "extractBearerToken r")
    case None
    then show ?thesis
      by (intro refusal [OF _ let_in_refl]) (auto simp: Auth_def Unauthorized_def)
  next
    case (Some key)
    show ?thesis
    proof (cases "Validate ks key")
      case None
      then have auth: "Auth ks (RateLimit i h) ?r ?e = RateLimit i h (with_value CtxAPIKey key ?r) ?e"
        by (simp add: Auth_def Some)
      show ?thesis
      proof (cases rule: RateLimit_cases [of i h "with_value CtxAPIKey key ?r" ?e])
        case (refused g1)
        then show ?thesis by (intro refusal [of RateLimited g1]) (simp_all add: auth RateLimited_def)
      next
        case (ran g1)
        then show ?thesis by (intro running [of _ g1]) (simp_all add: auth)
      qed
    next
      case (Some err)
      then show ?thesis
        by (intro refusal [OF _ let_in_refl]) (auto simp: Auth_def \<open>extractBearerToken r = Some key\<close> Unauthorized_def)
    qed
  qed
qed

section \<open>What every request keeps\<close>

definition steady :: "(nat \<Rightarrow> int) \<Rightarrow> bool" where
  "steady clock \<longleftrightarrow> mono clock \<and> 0 \<le> clock 0 \<and> (\<forall>n. clock n < 2 ^ 63)"

definition unloaded :: "load_balancer \<Rightarrow> bool" where
  "unloaded lb \<longleftrightarrow> (\<forall>k. InFlight lb k = 0)"

text \<open>
  The state of the gateway between two requests: well-formed registries of backends that relay
  streams, nothing in flight on any backend or in the gauge, and every bucket between zero and
  its burst.
\<close>

definition gateway_ok :: "gateway \<Rightarrow> bool" where
  "gateway_ok g \<longleftrightarrow>
     registry_ok (gw_reg g) \<and> relaying (gw_reg g) (gw_router g) \<and> router_ok (gw_router g)
     \<and> unloaded (rg_lb (gw_reg g)) \<and> unloaded (rr_lb (gw_router g))
     \<and> gauge_level HttpRequestsInFlight (ob_metrics (gw_ob g)) = 0
     \<and> (\<forall>i. limiter_ok (gw_clock g (gw_reads g)) (gw_rl g i))"

lemma limiter_ok_mono: "limiter_ok now l \<Longrightarrow> now \<le> now' \<Longrightarrow> limiter_ok now' l"
  unfolding limiter_ok_def bucket_ok_def by (fastforce split: float64.splits)

lemma let_in_limits:
  assumes "let_in i g g1" and "steady (gw_clock g)" and "\<forall>i. limiter_ok (gw_clock g (gw_reads g)) (gw_rl g i)"
  shows "\<forall>i. limiter_ok (gw_clock g1 (gw_reads g1)) (gw_rl g1 i)"
proof -
  have clock: "gw_clock g1 = gw_clock g" "gw_reads g \<le> gw_reads g1" using assms(1) by (auto simp: let_in_def)
  have up: "gw_clock g m \<le> gw_clock g n" if "m \<le> n" for m n using assms(2) that by (auto simp: steady_def mono_def)
  have old: "limiter_ok (gw_clock g (gw_reads g1)) (gw_rl g j)" for j
    using assms(3) limiter_ok_mono up clock(2) by blast
  consider "gw_rl g1 = gw_rl g"
    | key t where "gw_reads g \<le> t" "t \<le> gw_reads g1" "gw_rl g1 = (gw_rl g)(i := charge key (gw_clock g t) (gw_rl g i))"
    using assms(1) unfolding let_in_def by auto
  then show ?thesis
  proof cases
    case 1
    with old clock show ?thesis by simp
  next
    case (2 key t)
    obtain n ok l where call: "Allow key (gw_clock g t) (gw_rl g i) = (n, ok, l)" by (metis prod_cases3)
    have "0 \<le> gw_clock g t" "gw_clock g t < 2 ^ 63"
      using assms(2) up [of 0 t] unfolding steady_def by (meson order_trans zero_le)+
    then have "limiter_ok (gw_clock g t) l"
      using Allow_keeps [OF _ up [OF 2(1)] _ _ call] assms(3) by blast
    then have "limiter_ok (gw_clock g (gw_reads g1)) l" by (rule limiter_ok_mono) (rule up [OF 2(2)])
    with old 2(3) clock call show ?thesis by simp
  qed
qed

section \<open>The API routes\<close>

named_theorems router_frame \<open>steps that leave the router alone\<close>

lemma write_document_router [router_frame]: "gw_router (write_document enc doc m g) = gw_router g"
  by (auto simp: write_document_def Let_def split: sum.split option.split prod.split)

lemma handleJSON_router [router_frame]: "gw_router (snd (handleJSON rt ev b req g)) = gw_router g"
  by (auto simp: handleJSON_def counter_add_def backend_failed_def Let_def router_frame split: sum.split option.split)

lemma handleStream_router [router_frame]: "gw_router (snd (handleStream ev b req g)) = gw_router g"
  by (auto simp: handleStream_def Let_def split: prod.split option.split)

lemma with_backend_router:
  "(\<And>b h. gw_router (snd (body b h)) = gw_router h) \<Longrightarrow> gw_router (snd (with_backend visit hc body g)) = gw_router g"
  by (auto simp: with_backend_def set_reg_def split_beta split: sum.split option.split)

lemma chat_router:
  assumes "h \<in> {ChatCompletions rt ev visit hc, Models rt ev visit hc, Embeddings rt ev visit hc}"
  shows "gw_router (snd (h r g)) = gw_router g"
  using assms
  by (auto simp: ChatCompletions_def Models_def Embeddings_def Let_def router_frame backend_failed_def
      intro!: with_backend_router split: sum.split)

lemma speak_reg: "gw_reg (snd (speak rt ev info req g)) = gw_reg g"
  by (auto simp: speak_def counter_add_def backend_failed_def Let_def split: prod.split option.split sum.split)

lemma audio_reg: "gw_reg (snd (Audio rt ev visit hc r g)) = gw_reg g"
  by (auto simp: Audio_def set_router_def Let_def split_beta speak_reg split: sum.split)

text \<open>What an API handler keeps of the registries, when it is called in a well-formed state.\<close>

definition keeps_registries :: "handler \<Rightarrow> gateway \<Rightarrow> bool" where
  "keeps_registries h g0 \<longleftrightarrow>
     (\<forall>r g. gw_reg g = gw_reg g0 \<longrightarrow> gw_router g = gw_router g0 \<longrightarrow>
        registry_ok (gw_reg (snd (h r g))) \<and> router_ok (gw_router (snd (h r g)))
        \<and> rg_backends (gw_reg (snd (h r g))) = rg_backends (gw_reg g)
        \<and> rr_backends (gw_router (snd (h r g))) = rr_backends (gw_router g)
        \<and> unloaded (rg_lb (gw_reg (snd (h r g)))) \<and> unloaded (rr_lb (gw_router (snd (h r g))))
        \<and> gw_rl (snd (h r g)) = gw_rl g \<and> gw_clock (snd (h r g)) = gw_clock g \<and> gw_reads g \<le> gw_reads (snd (h r g)))"

lemma registry_ok_cong:
  "rg_backends reg = rg_backends reg' \<Longrightarrow> rg_primary reg = rg_primary reg' \<Longrightarrow> registry_ok reg = registry_ok reg'"
  by (simp add: registry_ok_def)

lemma router_ok_cong: "rr_backends r = rr_backends r' \<Longrightarrow> router_ok r = router_ok r'"
  by (simp add: router_ok_def)

lemma unloaded_loads_ok: "unloaded lb \<Longrightarrow> loads_ok lb"
  by (simp add: unloaded_def loads_ok_def)

lemma chat_keeps_registries:
  assumes ok: "gateway_ok g0" and visit: "iterates visit (rg_backends (gw_reg g0))"
    and h: "h \<in> {ChatCompletions rt ev visit hc, Models rt ev visit hc, Embeddings rt ev visit hc}"
  shows "keeps_registries h g0"
  unfolding keeps_registries_def
proof (intro allI impI)
  fix r :: request and g :: gateway
  assume g: "gw_reg g = gw_reg g0" "gw_router g = gw_router g0"
  have calm: "calm_step g (snd (h r g))" using h calm_chat calm_models calm_embeddings by auto
  have router: "gw_router (snd (h r g)) = gw_router g0" using chat_router [OF h, of r g] g by simp
  have "loads_ok (rg_lb (gw_reg g))" using ok g by (simp add: gateway_ok_def unloaded_loads_ok)
  then have load: "InFlight (rg_lb (gw_reg (snd (h r g)))) k = InFlight (rg_lb (gw_reg g)) k" for k
    using ok visit h g by (intro chat_load_kept) (auto simp: gateway_ok_def)
  have "registry_ok (gw_reg (snd (h r g)))"
    using calm ok g registry_ok_cong [of "gw_reg (snd (h r g))" "gw_reg g"] by (simp add: calm_step_def gateway_ok_def)
  with calm router load ok g show
    "registry_ok (gw_reg (snd (h r g))) \<and> router_ok (gw_router (snd (h r g)))
        \<and> rg_backends (gw_reg (snd (h r g))) = rg_backends (gw_reg g)
        \<and> rr_backends (gw_router (snd (h r g))) = rr_backends (gw_router g)
        \<and> unloaded (rg_lb (gw_reg (snd (h r g)))) \<and> unloaded (rr_lb (gw_router (snd (h r g))))
        \<and> gw_rl (snd (h r g)) = gw_rl g \<and> gw_clock (snd (h r g)) = gw_clock g \<and> gw_reads g \<le> gw_reads (snd (h r g))"
    by (simp add: calm_step_def gateway_ok_def unloaded_def)
qed

lemma audio_keeps_registries:
  assumes ok: "gateway_ok g0" and visit: "iterates visit (rr_backends (gw_router g0))"
  shows "keeps_registries (Audio rt ev visit hc) g0"
  unfolding keeps_registries_def
proof (intro allI impI)
  fix r :: request and g :: gateway
  let ?g' = "snd (Audio rt ev visit hc r g)"
  assume g: "gw_reg g = gw_reg g0" "gw_router g = gw_router g0"
  have calm: "calm_step g ?g'" by (rule calm_audio)
  have "loads_ok (rr_lb (gw_router g))" using ok g by (simp add: gateway_ok_def unloaded_loads_ok)
  then have load: "InFlight (rr_lb (gw_router ?g')) k = InFlight (rr_lb (gw_router g)) k" for k
    using ok visit g by (intro audio_load_kept) (auto simp: gateway_ok_def)
  have "router_ok (gw_router ?g')"
    using calm ok g router_ok_cong [of "gw_router ?g'" "gw_router g"] by (simp add: calm_step_def gateway_ok_def)
  with calm audio_reg [of rt ev visit hc r g] load ok g show
    "registry_ok (gw_reg ?g') \<and> router_ok (gw_router ?g')
        \<and> rg_backends (gw_reg ?g') = rg_backends (gw_reg g) \<and> rr_backends (gw_router ?g') = rr_backends (gw_router g)
        \<and> unloaded (rg_lb (gw_reg ?g')) \<and> unloaded (rr_lb (gw_router ?g'))
        \<and> gw_rl ?g' = gw_rl g \<and> gw_clock ?g' = gw_clock g \<and> gw_reads g \<le> gw_reads ?g'"
    by (simp add: calm_step_def gateway_ok_def unloaded_def)
qed

definition same_backends :: "gateway \<Rightarrow> gateway \<Rightarrow> bool" where
  "same_backends g g' \<longleftrightarrow>
     rg_backends (gw_reg g') = rg_backends (gw_reg g) \<and> rr_backends (gw_router g') = rr_backends (gw_router g)
     \<and> gw_clock g' = gw_clock g"

lemma protected_gateway_ok:
  assumes ok: "gateway_ok g" and clock: "steady (gw_clock g)" and fresh: "status_of (gw_w g) = None" "wr_wrap (gw_w g) = []"
    and wb: "well_behaved h relaying" and keeps: "keeps_registries h g"
  shows "gateway_ok (snd (protected rt ks i h r g)) \<and> same_backends g (snd (protected rt ks i h r g))"
proof -
  let ?g' = "snd (protected rt ks i h r g)"
  have gauge: "gauge_level HttpRequestsInFlight (ob_metrics (gw_ob ?g')) = 0"
    using well_behaved.gauge_balanced [OF wb, of g rt ks i r] ok fresh by (simp add: gateway_ok_def)
  have up: "limiter_ok (gw_clock g (gw_reads ?g')) l" if "limiter_ok (gw_clock g n) l" "n \<le> gw_reads ?g'" for l n
    using limiter_ok_mono [OF that(1)] that(2) clock by (auto simp: steady_def mono_def)
  show ?thesis
  proof (cases rule: protected_cases [of i g rt ks h r])
    case (refused g1)
    note limits = let_in_limits [OF refused(1) clock]
    with refused ok gauge up show ?thesis
      by (auto simp: gateway_ok_def left_as_def let_in_def same_backends_def)
  next
    case (ran g1 r')
    note limits = let_in_limits [OF ran(1) clock]
    have "gw_reg g1 = gw_reg g" "gw_router g1 = gw_router g" using ran(1) by (simp_all add: let_in_def)
    with keeps have k: "registry_ok (gw_reg (snd (h r' g1)))" "router_ok (gw_router (snd (h r' g1)))"
        "rg_backends (gw_reg (snd (h r' g1))) = rg_backends (gw_reg g)"
        "rr_backends (gw_router (snd (h r' g1))) = rr_backends (gw_router g)"
        "unloaded (rg_lb (gw_reg (snd (h r' g1))))" "unloaded (rr_lb (gw_router (snd (h r' g1))))"
        "gw_rl (snd (h r' g1)) = gw_rl g1" "gw_clock (snd (h r' g1)) = gw_clock g1" "gw_reads g1 \<le> gw_reads (snd (h r' g1))"
      unfolding keeps_registries_def by metis+
    have rl: "limiter_ok (gw_clock ?g' (gw_reads ?g')) (gw_rl ?g' j)" for j
      using limits ok ran(1,2) k(7-9) up [of "gw_reads g1" "gw_rl g1 j"] by (auto simp: gateway_ok_def left_as_def let_in_def)
    with gauge k ran ok show ?thesis
      by (simp add: gateway_ok_def left_as_def let_in_def same_backends_def relaying_def)
  qed
qed

end
