(* ===== verification/Recovery.thy ===== *)
theory Recovery
  imports Protected Watchdog
begin

text \<open>
  What is certain to happen again: a key that stays idle long enough is served, whatever all other
  keys do meanwhile, and chat requests are served again after one probe in which a backend
  answers, however long all backends have been degraded.
\<close>

section \<open>The rate limiter never starves a key\<close>

lemma core_refill_one:
  assumes "0 \<le> t" and "0 \<le> dt" and "1 \<le> dt * rate" and "1 \<le> burst"
  shows "1 \<le> core_refill round64 burst rate t dt"
proof -
  have "(of_int 1 :: rat) \<le> round64 (dt * rate)"
    by (rule f64.above_int) (use assms(3) in simp_all)
  with assms(1) have "(of_int 1 :: rat) \<le> t + round64 (dt * rate)" by simp
  then have "(of_int 1 :: rat) \<le> round64 (t + round64 (dt * rate))"
    by (rule f64.above_int [rotated -1]) simp_all
  with assms(4) show ?thesis by (simp add: core_refill_def)
qed

lemma refilled_token_granted:
  assumes b: "bucket_ok burst now b" and r: "0 < r" and burst: "1 \<le> burst" "burst \<le> 2 ^ 53"
    and now: "now < 2 ^ 63"
    and k: "0 \<le> k" "k \<le> 2 ^ 53" "1 \<le> of_int k * r" "bk_lastSeen b + k * 1000000000 \<le> now"
  shows "fst (snd (take_token (refill (Fin r) burst now b)))"
proof -
  obtain t seen where t: "b = \<lparr>bk_tokens = Fin t, bk_lastSeen = seen\<rparr>" "0 \<le> t" "0 \<le> seen" "seen \<le> now"
    using b by (elim bucket_okE)
  have "of_int k \<le> secs (now - seen)" by (rule secs_ge) (use k t in auto)
  then have "of_int k * r \<le> secs (now - seen) * r" using r by (intro mult_right_mono) auto
  with k(3) have "1 \<le> secs (now - seen) * r" by linarith
  then have "1 \<le> core_refill round64 burst r t (secs (now - seen))"
    using t(2,4) burst(1) secs_nonneg [of "now - seen"] by (intro core_refill_one) auto
  moreover have "refill (Fin r) burst now b =
      \<lparr>bk_tokens = Fin (core_refill round64 burst r t (secs (now - seen))), bk_lastSeen = now\<rparr>"
    unfolding t(1) by (rule refill_Fin) (use t r burst now in auto)
  ultimately show ?thesis by (simp add: take_token_def Let_def)
qed

text \<open>
  C7: in every state the limiter can be in, a key whose bucket was last charged \<open>k\<close> seconds ago,
  with \<open>k\<close> times the rate at least one, is allowed, in floating point and whatever the other keys
  have done meanwhile. For a rate of at least one a second the \<open>Retry-After: 1\<close> of a refusal is
  therefore enough.
\<close>

theorem idle_key_served:
  assumes "limiter_ok now rl" and "rl_rate rl = Fin r" and "0 \<le> now" and "now < 2 ^ 63"
    and "0 \<le> k" and "k \<le> 2 ^ 53" and "1 \<le> of_int k * r"
    and "\<forall>b. rl_buckets rl key = Some b \<longrightarrow> bk_lastSeen b + k * 1000000000 \<le> now"
  shows "fst (snd (Allow key now rl))"
proof -
  have r: "0 < r" and burst: "1 \<le> rl_burst rl" "rl_burst rl \<le> 2 ^ 53"
    using assms(1,2) by (auto simp: limiter_ok_def)
  show ?thesis
  proof (cases "rl_buckets rl key")
    case None
    then show ?thesis
      unfolding Allow_ok assms(2)
      using refill_fresh_bucket [OF r burst, of now] take_token_int [of "rl_burst rl" now] burst by simp
  next
    case (Some b)
    with assms(1) have "bucket_ok (rl_burst rl) now b" by (simp add: limiter_ok_def)
    from refilled_token_granted [OF this r burst assms(4-7)] assms(8) Some show ?thesis
      unfolding Allow_ok assms(2) by (simp add: bucket_or_new_def)
  qed
qed

text \<open>The bucket that refused at time zero allows a request one second later.\<close>

theorem idle_key_served_witness:
  "\<not> fst (snd (Allow ''sk-0123456789'' 0 used_up)) \<and> fst (snd (Allow ''sk-0123456789'' 1000000000 used_up))"
proof -
  have "limiter_ok 1000000000 used_up"
    by (auto simp: limiter_ok_def used_up_def NewRateLimiter_def bucket_ok_def round64_int [of 0, simplified])
  moreover have "rl_rate used_up = Fin 10" by (simp add: used_up_def NewRateLimiter_def)
  ultimately show ?thesis
    using idle_key_served [of 1000000000 used_up 10 1 "''sk-0123456789''"] used_up_refuses
    by (simp add: used_up_def)
qed

section \<open>Chat recovers with its first backend\<close>

text \<open>
  C8: when a probe finds at least one chat backend answering, the next selection succeeds and
  yields a backend that is not degraded, whatever the history of failures before the probe. Chat and
  speech backends share the watchdog's names: should a speech backend have the name of that chat
  backend, it has to answer the probe too, or the threshold has to be two or more (the default is three).
\<close>

theorem service_recovers:
  assumes "registry_ok reg" and "iterates visit (rg_backends reg)"
    and "router_ok rtr" and "iterates tvisit (rr_backends rtr)"
    and "map_of (rg_backends reg) n = Some b" and "be_Health b ev = None"
    and "2 \<le> wc_FailThreshold (wd_cfg (fst s))
      \<or> (\<forall>i t. map_of (rr_backends rtr) n = Some i \<longrightarrow> bi_TTSBackend i = Some t \<longrightarrow> tb_Health t ev = None)"
    and "iterates visit' (rg_backends reg)"
  shows "\<exists>b' reg'. PrimaryHealthy visit' (Some (IsHealthy (fst (probe visit tvisit ev reg (Some rtr) s)))) reg
             = (Inr (Some b'), reg')
           \<and> IsHealthy (fst (probe visit tvisit ev reg (Some rtr) s)) (be_Name b')"
proof -
  let ?w = "fst (probe visit tvisit ev reg (Some rtr) s)"
  have "IsHealthy ?w n" by (rule probe_healthy [OF assms(1-7)])
  then have alive: "map_of (rg_backends reg) n \<noteq> None \<and> passes (Some (IsHealthy ?w)) n" using assms(5) by simp
  obtain res reg' where sel: "PrimaryHealthy visit' (Some (IsHealthy ?w)) reg = (res, reg')" by fastforce
  note spec = PrimaryHealthy_selects [OF assms(1,8), of "Some (IsHealthy ?w)", unfolded sel prod.case]
  consider e where "res = Inl e" | "res = Inr None" | b' where "res = Inr (Some b')"
    by (metis option.exhaust sum.exhaust)
  then show ?thesis
  proof cases
    case 1
    with spec alive show ?thesis by auto
  next
    case 2
    with spec show ?thesis by simp
  next
    case 3
    with spec sel show ?thesis by simp
  qed
qed

text \<open>A watchdog that has given up on its only backend.\<close>

definition given_up :: watchdog where
  "given_up = (NewWatchdog DefaultConfig)\<lparr>wd_states := [''ollama'' \<mapsto> \<lparr>bs_failures = 7, bs_healthy = False\<rparr>]\<rparr>"

theorem service_recovers_witness:
  "fst (PrimaryHealthy [''ollama''] (Some (IsHealthy given_up)) probe_registry) = Inl (sentinel_error ErrNoHealthyBackend)
   \<and> (\<exists>b. fst (PrimaryHealthy [''ollama''] (Some (IsHealthy (fst (probe [''ollama''] [''kokoro''] idle_env
          probe_registry (Some (tts_only ''kokoro'' None)) (given_up, no_observed))))) probe_registry) = Inr (Some b))"
proof -
  have "fst (PrimaryHealthy [''ollama''] (Some (IsHealthy given_up)) probe_registry) = Inl (sentinel_error ErrNoHealthyBackend)"
    by (simp add: PrimaryHealthy_def healthyOrderLocked_def IsHealthy_def given_up_def probe_registry_ok
        probe_registry_def Register_def NewRegistry_def)
  moreover have "map_of (rg_backends probe_registry) ''ollama'' = Some (dummy_backend ''ollama'')"
    by (simp add: probe_registry_ok)
  moreover have "2 \<le> wc_FailThreshold (wd_cfg (fst (given_up, no_observed)))"
    by (simp add: given_up_def NewWatchdog_def DefaultConfig_def)
  ultimately show ?thesis
    using service_recovers [OF probe_registry_ok(1,3) tts_only_ok(1,3) [of "''kokoro''" None] _ _ _ probe_registry_ok(3),
        of "''ollama''" "dummy_backend ''ollama''" idle_env "(given_up, no_observed)"]
    by auto
qed

end
