(* ===== verification/Root_Serve.thy ===== *)
theory Root_Serve
  imports Serving Recovery
begin

text \<open>
  One request at the root of the server, on any path: the table of all routes of the process, what a
  request keeps of the gateway, what a request without a key can do, and the statuses of responses.
\<close>

section \<open>The routes of the process\<close>

definition route_table :: "key_store \<Rightarrow> bool \<Rightarrow> endpoint mux" where
  "route_table ks speech =
     public_routes @ api_routes ks by_watchdog @ (if speech then speech_route ks by_watchdog else [])
     @ report_routes True"

lemma assemble_routes:
  "\<exists>srv. assemble cfg ks rtr =
      Some (srv, \<lambda>_. NewRateLimiter (rc_RequestsPerSecond (cf_RateLimit cfg)) (rc_Burst (cf_RateLimit cfg)))
    \<and> hv_Handler srv = MuxHandler (route_table ks (0 < Len rtr)) \<and> hv_Addr srv = Addr (cf_Server cfg)"
proof -
  let ?rl = "NewRateLimiter (rc_RequestsPerSecond (cf_RateLimit cfg)) (rc_Burst (cf_RateLimit cfg))"
  have "(\<lambda>_. ?rl)(SpeechLimiter := ?rl) = (\<lambda>_. ?rl)" by auto
  then show ?thesis
    by (cases "0 < Len rtr")
      (simp_all add: assemble_def New_server RegisterTTSRoutes_def RegisterHealthStatusRoute_def on_mux_def Let_def
        mux_handle_def mux_handle_all_Some pattern_simps public_routes_def api_routes_def route_table_def
        speech_route_def report_routes_def)
qed

text \<open>
  What the handlers that need no key leave alone: everything but the response, the log and the
  metrics other than the gauge of requests in flight.
\<close>

definition outside :: "gateway \<Rightarrow> gateway \<Rightarrow> bool" where
  "outside g g' \<longleftrightarrow>
     gw_reg g' = gw_reg g \<and> gw_router g' = gw_router g \<and> gw_rl g' = gw_rl g \<and> gw_clock g' = gw_clock g
     \<and> gw_reads g \<le> gw_reads g'
     \<and> gauge_level HttpRequestsInFlight (ob_metrics (gw_ob g')) = gauge_level HttpRequestsInFlight (ob_metrics (gw_ob g))"

lemma outside_basic:
  "outside g g" "outside g h \<Longrightarrow> outside g (on_w f h)" "outside g h \<Longrightarrow> outside g (snd (read_clock h))"
  "outside g h \<Longrightarrow> outside g (write_doc j h)" "outside g h \<Longrightarrow> off_books c \<Longrightarrow> outside g (count c h)"
  using off_books_kept [of c] by (simp_all add: outside_def write_doc_def del: off_books_def)

lemma outside_ready: "outside g h \<Longrightarrow> outside g (ready_loop bd ev bs h)"
proof (induction bs arbitrary: h)
  case (Cons b bs)
  have "outside g (count (MSet BackendHealth [be_Name b] v) h)" for v
    using Cons.prems by (intro outside_basic) simp_all
  with Cons.IH show ?case by (simp add: outside_basic split: option.split)
qed (simp add: outside_basic)

text \<open>The metrics page of the Prometheus client only writes its response.\<close>

definition reads_only :: "handler \<Rightarrow> bool" where
  "reads_only h \<longleftrightarrow> (\<forall>r g. outside g (snd (h r g)))"

lemma public_outside:
  assumes "(k, e) \<in> set (public_routes @ report_routes True)" and "reads_only (si_promhttp s)"
  shows "outside g (snd (e s r g))"
proof -
  have "outside g (snd (Ready bd ev v r g))" "outside g (snd (VersionInfo bd r g))"
    "outside g (snd (OpenAPI t r g))" "outside g (snd (SwaggerUI t r g))"
    "outside g (snd (HealthStatus bd fmt ev v tv b r g))" for bd ev v t fmt tv b
    by (auto simp: Ready_def VersionInfo_def OpenAPI_def SwaggerUI_def HealthStatus_def Let_def split_beta
        simp del: on_w_simps intro!: outside_basic outside_ready)
  with assms show ?thesis
    by (auto simp: public_routes_def report_routes_def report_endpoint_def reads_only_def)
qed

text \<open>The order of maps in a request is one their registries allow.\<close>

definition situated :: "situation \<Rightarrow> gateway \<Rightarrow> bool" where
  "situated s g \<longleftrightarrow>
     iterates (si_visit s) (rg_backends (gw_reg g)) \<and> iterates (si_tvisit s) (rr_backends (gw_router g))
     \<and> reads_only (si_promhttp s)"

lemma api_entries:
  assumes "(k, e) \<in> set (api_routes ks hc @ speech_route ks hc)"
  obtains i h where "e = secured ks i h"
    "\<And>s. well_behaved (h s) relaying"
    "\<And>s g. gateway_ok g \<Longrightarrow> situated s g \<Longrightarrow> keeps_registries (h s) g"
    "\<And>s r g. relaying (gw_reg g) (gw_router g) \<Longrightarrow> status_ok g \<Longrightarrow> status_ok (snd (h s r g))"
proof -
  consider "e = secured ks ApiLimiter (chat_endpoint hc)" | "e = secured ks ApiLimiter (models_endpoint hc)"
    | "e = secured ks ApiLimiter (embeddings_endpoint hc)" | "e = secured ks SpeechLimiter (audio_endpoint hc)"
    using assms by (auto simp: api_routes_def speech_route_def)
  then show ?thesis
  proof cases
    case 1
    show ?thesis
      by (rule that [OF 1])
        (auto simp: chat_endpoint_def situated_def intro: chat_route.well_behaved_axioms chat_keeps_registries stated_chat)
  next
    case 2
    show ?thesis
      by (rule that [OF 2])
        (auto simp: models_endpoint_def situated_def intro: models_route.well_behaved_axioms chat_keeps_registries stated_models)
  next
    case 3
    show ?thesis
      by (rule that [OF 3])
        (auto simp: embeddings_endpoint_def situated_def intro: embeddings_route.well_behaved_axioms chat_keeps_registries
          stated_embeddings)
  next
    case 4
    show ?thesis
      by (rule that [OF 4])
        (auto simp: audio_endpoint_def situated_def intro: audio_route.well_behaved_axioms audio_keeps_registries stated_audio)
  qed
qed

lemma route_table_entries:
  "(k, e) \<in> set (route_table ks speech) \<Longrightarrow>
     (k, e) \<in> set (public_routes @ report_routes True) \<or> (k, e) \<in> set (api_routes ks by_watchdog @ speech_route ks by_watchdog)"
  by (auto simp: route_table_def split: if_splits)

section \<open>One request\<close>

fun root_serve :: "otel \<Rightarrow> target \<Rightarrow> root_handler \<Rightarrow> endpoint" where
  "root_serve ot tg NilHandler s = mux_serve tg [] s"
| "root_serve ot tg (MuxHandler m) s = mux_serve tg m s"
| "root_serve ot tg (TracedHandler op h) s = HTTPHandler ot (root_serve ot tg h s) op"

text \<open>The tracing middleware of OpenTelemetry hands the request on and the response back.\<close>

definition transparent :: "otel \<Rightarrow> bool" where
  "transparent ot \<longleftrightarrow> (\<forall>op name h. ot_handler ot op name h = h)"

definition plain_otel :: otel where
  "plain_otel =
     \<lparr>ot_scheme = (\<lambda>_. Some ''http''), ot_exporter = (\<lambda>_ _. None), ot_resource = (\<lambda>_. None), ot_shutdown = None,
      ot_handler = (\<lambda>_ _ h. h)\<rparr>"

lemma transparent_plain: "transparent plain_otel"
  by (simp add: transparent_def plain_otel_def)

definition roots :: "key_store \<Rightarrow> root_handler set" where
  "roots ks = {h. \<exists>speech op. h \<in> {MuxHandler (route_table ks speech), TracedHandler op (MuxHandler (route_table ks speech))}}"

lemma root_serve_mux:
  assumes "transparent ot" and "h \<in> roots ks"
  obtains speech where "root_serve ot tg h s = mux_serve tg (route_table ks speech) s"
  using assms by (auto simp: roots_def transparent_def HTTPHandler_def)

definition fresh :: "gateway \<Rightarrow> bool" where
  "fresh g \<longleftrightarrow> status_of (gw_w g) = None \<and> wr_wrap (gw_w g) = []"

lemma outside_gateway_ok:
  assumes "gateway_ok g" "steady (gw_clock g)" "outside g g'"
  shows "gateway_ok g' \<and> same_backends g g'"
proof -
  have "limiter_ok (gw_clock g' (gw_reads g')) (gw_rl g' i)" for i
    using assms limiter_ok_mono [of "gw_clock g (gw_reads g)" "gw_rl g i" "gw_clock g (gw_reads g')"]
    by (auto simp: gateway_ok_def outside_def steady_def mono_def)
  with assms show ?thesis by (simp add: gateway_ok_def outside_def same_backends_def)
qed

lemma mux_answer_outside: "mux_answer tg r g g' \<Longrightarrow> outside g g'"
  using mux_answer_keeps [of tg r g g'] by (simp add: outside_def)

lemma serve_keeps:
  assumes ok: "gateway_ok g" "steady (gw_clock g)" "fresh g" "situated s g"
    and root: "transparent ot" "h \<in> roots ks"
  shows "gateway_ok (snd (root_serve ot tg h s r g)) \<and> same_backends g (snd (root_serve ot tg h s r g))"
proof -
  obtain speech where eq: "root_serve ot tg h s = mux_serve tg (route_table ks speech) s"
    by (rule root_serve_mux [OF root])
  show ?thesis
  proof (cases rule: mux_serve_cases [of tg "route_table ks speech" s r g])
    case (1 g')
    with outside_gateway_ok [OF ok(1,2) mux_answer_outside] eq show ?thesis by simp
  next
    case (2 pm p e)
    from route_table_entries [OF 2(1)] show ?thesis
    proof
      assume "((pm, p), e) \<in> set (public_routes @ report_routes True)"
      with ok(4) have "outside g (snd (e s r g))" by (intro public_outside) (auto simp: situated_def)
      from outside_gateway_ok [OF ok(1,2) this] 2(2) eq show ?thesis by simp
    next
      assume "((pm, p), e) \<in> set (api_routes ks by_watchdog @ speech_route ks by_watchdog)"
      then show ?thesis
      proof (rule api_entries)
        fix i hd
        assume e: "e = secured ks i hd" and wb: "\<And>s. well_behaved (hd s) relaying"
          and keeps: "\<And>s g. gateway_ok g \<Longrightarrow> situated s g \<Longrightarrow> keeps_registries (hd s) g"
        have "root_serve ot tg h s r g = protected (si_rt s) ks i (hd s) r g"
          using eq 2(2) e by (simp add: secured_def)
        with protected_gateway_ok [OF ok(1,2) _ _ wb keeps [OF ok(1,4)], of "si_rt s" ks i r] ok(3)
        show ?thesis by (simp add: fresh_def)
      qed
    qed
  qed
qed

section \<open>Without a key\<close>

lemma public_segments:
  assumes "((m, p), e) \<in> set (public_routes @ report_routes True)"
  shows "take 1 (segments p) \<noteq> [''v1'']"
proof -
  have "p \<in> set [''/health/ready'', ''/version'', ''/openapi.yaml'', ''/docs'', ''/metrics'', ''/health'', ''/health/status'']"
    using assms by (auto simp: public_routes_def report_routes_def)
  moreover have "list_all (\<lambda>p. take 1 (segments p) \<noteq> [''v1''])
      [''/health/ready'', ''/version'', ''/openapi.yaml'', ''/docs'', ''/metrics'', ''/health'', ''/health/status'']"
    by code_simp
  ultimately show ?thesis unfolding list_all_iff by blast
qed

lemma api_segments:
  assumes "((m, p), e) \<in> set (api_routes ks hc @ speech_route ks hc)"
  shows "take 1 (segments p) = [''v1'']"
proof -
  have "p \<in> set [''/v1/chat/completions'', ''/v1/models'', ''/v1/embeddings'', ''/v1/audio/speech'']"
    using assms by (auto simp: api_routes_def speech_route_def)
  moreover have "list_all (\<lambda>p. take 1 (segments p) = [''v1''])
      [''/v1/chat/completions'', ''/v1/models'', ''/v1/embeddings'', ''/v1/audio/speech'']"
    by code_simp
  ultimately show ?thesis unfolding list_all_iff by blast
qed

text \<open>
  C2: a request without a stored key changes nothing that outlives it, whatever its method and path:
  not a registry, not a load, not a bucket. And on a path below \<open>/v1\<close> it gets one of the answers
  401, 404, 405, 400 or a redirect.
\<close>

theorem keyless_request_harmless:
  assumes "transparent ot" and "h \<in> roots ks" and "fresh g" and "reads_only (si_promhttp s)"
    and "\<nexists>key. valid_key ks r key"
  shows "gw_reg (snd (root_serve ot tg h s r g)) = gw_reg g
       \<and> gw_router (snd (root_serve ot tg h s r g)) = gw_router g
       \<and> gw_rl (snd (root_serve ot tg h s r g)) = gw_rl g
       \<and> (take 1 (segments (tg_escaped tg)) = [''v1''] \<longrightarrow>
            status_of (gw_w (snd (root_serve ot tg h s r g))) \<in> {Some 400, Some 401, Some 404, Some 405, Some (tg_moved tg)})"
proof -
  obtain speech where eq: "root_serve ot tg h s = mux_serve tg (route_table ks speech) s"
    by (rule root_serve_mux [OF assms(1,2)])
  show ?thesis
  proof (cases rule: mux_serve_cases [of tg "route_table ks speech" s r g])
    case (1 g')
    have "status_of (gw_w g) = None" using assms(3) by (simp add: fresh_def)
    from mux_answer_keeps(8) [OF 1(2) this]
    have "status_of (gw_w g') \<in> {Some 400, Some 401, Some 404, Some 405, Some (tg_moved tg)}" by auto
    with mux_answer_keeps(1-3) [OF 1(2)] show ?thesis unfolding eq 1(1) snd_conv by (intro conjI impI)
  next
    case (2 pm p e)
    from route_table_entries [OF 2(1)] show ?thesis
    proof
      assume pub: "((pm, p), e) \<in> set (public_routes @ report_routes True)"
      then have "outside g (snd (e s r g))" using assms(4) by (rule public_outside)
      moreover have "take 1 (segments (tg_escaped tg)) \<noteq> [''v1'']"
        using public_segments [OF pub] 2(3) by simp
      ultimately show ?thesis unfolding eq 2(2) by (simp add: outside_def)
    next
      assume "((pm, p), e) \<in> set (api_routes ks by_watchdog @ speech_route ks by_watchdog)"
      then show ?thesis
      proof (rule api_entries)
        fix i hd
        assume "e = secured ks i hd"
        with eq 2(2) have "root_serve ot tg h s r g = protected (si_rt s) ks i (hd s) r g"
          by (simp add: secured_def)
        moreover have "status_of (gw_w g) = None" using assms(3) by (simp add: fresh_def)
        note refused = no_key_refused [OF assms(5) this, of "si_rt s" i "hd s"]
        have "status_of (gw_w (snd (protected (si_rt s) ks i (hd s) r g))) = Some 401"
          "gw_rl (snd (protected (si_rt s) ks i (hd s) r g)) = gw_rl g"
          "gw_reg (snd (protected (si_rt s) ks i (hd s) r g)) = gw_reg g"
          "gw_router (snd (protected (si_rt s) ks i (hd s) r g)) = gw_router g"
          using refused by blast+
        ultimately show ?thesis by simp
      qed
    qed
  qed
qed

text \<open>The witness: the process with one key and no backend, asked with a wrong scheme.\<close>

definition quiet_situation :: situation where
  "quiet_situation =
     \<lparr>si_rt = plain_runtime, si_ev = idle_env, si_visit = [], si_tvisit = [], si_wd = NewWatchdog DefaultConfig,
      si_build = \<lparr>bd_Version = ''dev'', bd_Commit = []\<rparr>, si_rfc3339 = (\<lambda>_. []), si_spec = [], si_html = [],
      si_promhttp = (\<lambda>r g. (Returned, g))\<rparr>"

definition to_path :: "string \<Rightarrow> target" where
  "to_path p = \<lparr>tg_star = False, tg_http11 = True, tg_escaped = p, tg_location = [], tg_moved = 307, tg_link = []\<rparr>"

lemma quiet_situation_simps:
  "reads_only (si_promhttp quiet_situation)" "situated quiet_situation resting"
  by (simp_all add: quiet_situation_def reads_only_def outside_basic situated_def resting_def NewRegistry_def NewRouter_def)

lemma resting_fresh: "fresh resting"
  by (simp add: fresh_def)

theorem keyless_request_harmless_witness:
  "gw_rl (snd (root_serve plain_otel (to_path ''/v1/models'') (MuxHandler (route_table one_key True)) quiet_situation
     (bearing ''Basic c2VjcmV0'') resting)) = gw_rl resting"
  using keyless_request_harmless [of plain_otel "MuxHandler (route_table one_key True)" one_key resting quiet_situation
      "bearing ''Basic c2VjcmV0''" "to_path ''/v1/models''"]
    quiet_situation_simps(1) resting_fresh
  by (auto simp: transparent_plain roots_def valid_key_def bearing_tokens)

section \<open>The statuses a client can see\<close>

lemma mux_status_cases: "fresh g \<Longrightarrow> mux_answer tg r g g' \<Longrightarrow>
    \<exists>c \<in> {400, 404, 405, tg_moved tg}. status_of (gw_w g') = Some c"
  using mux_answer_keeps(8) [of tg r g g'] by (auto simp: fresh_def)

lemma secured_status:
  assumes "fresh g" and rel: "relaying (gw_reg g) (gw_router g)"
    and st: "\<And>r g. relaying (gw_reg g) (gw_router g) \<Longrightarrow> status_ok g \<Longrightarrow> status_ok (snd (h r g))"
  shows "status_ok (snd (protected rt ks i h r g))"
proof (cases rule: protected_cases [of i g rt ks h r])
  case (refused g1)
  with assms(1) show ?thesis by (auto simp: fresh_def status_ok_def api_statuses_def)
next
  case (ran g1 r')
  have "status_ok (snd (h r' g1))"
    by (rule st) (use ran(1,3) assms(1) rel in \<open>auto simp: let_in_def fresh_def status_ok_def\<close>)
  with ran(4) show ?thesis by (auto simp: status_ok_def api_statuses_def)
qed

lemma public_status:
  assumes "((m, p), e) \<in> set (public_routes @ report_routes True)" and "status_of (gw_w g) = None"
  shows "segments p = segments ''/metrics'' \<and> e = si_promhttp
       \<or> status_of (gw_w (snd (e s r g))) \<in> {None, Some 200, Some 503}"
proof -
  have loop: "status_of (gw_w (ready_loop bd ev bs h)) \<in> {None, Some 200, Some 503}" if "status_of (gw_w h) = None" for bd ev bs h
    using that by (induction bs arbitrary: h) (auto simp: write_doc_def write_json_def split: option.split)
  have "status_of (gw_w (snd (Ready bd ev v r g))) \<in> {None, Some 200, Some 503}" for bd ev v
    unfolding Ready_def snd_conv by (rule loop) (simp add: assms(2))
  moreover have "status_of (gw_w (snd (VersionInfo bd r g))) = Some 200" "status_of (gw_w (snd (OpenAPI t r g))) = Some 200"
    "status_of (gw_w (snd (SwaggerUI t r g))) = Some 200"
    "status_of (gw_w (snd (HealthStatus bd fmt ev v tv b r g))) \<in> {None, Some 200, Some 503}" for bd t fmt ev v tv b
    using assms(2)
    by (auto simp: VersionInfo_def OpenAPI_def SwaggerUI_def HealthStatus_def write_doc_def write_json_def Let_def split_beta)
  moreover have "e = (\<lambda>s. Ready (si_build s) (si_ev s) (si_visit s)) \<or> e = (\<lambda>s. VersionInfo (si_build s))
      \<or> e = (\<lambda>s. OpenAPI (si_spec s)) \<or> e = (\<lambda>s. SwaggerUI (si_html s))
      \<or> p = ''/metrics'' \<and> e = si_promhttp \<or> e = report_endpoint True"
    using assms(1) by (auto simp: public_routes_def report_routes_def)
  ultimately show ?thesis by (elim disjE) (simp_all add: report_endpoint_def)
qed

text \<open>
  C3: a request to any path but \<open>/metrics\<close>, whatever its method, its key, the replies of the backends
  and the panics on the way, gets a response whose status is one of those of the API, 404 or 405
  when it matches no route, or the redirect to a clean path. Below \<open>/v1\<close> these are all; elsewhere
  the statuses that only the API routes can have (401, 429, 500 and 504) do not occur. A request to
  \<open>/metrics\<close> gets whatever the page of the Prometheus client answers. A response that is given no
  status is sent as 200.
\<close>

theorem response_status_typed:
  assumes "transparent ot" and "h \<in> roots ks" and "fresh g" and "relaying (gw_reg g) (gw_router g)"
  shows "segments (tg_escaped tg) = segments ''/metrics'' \<and> root_serve ot tg h s r g = si_promhttp s r g
       \<or> status_of (gw_w (snd (root_serve ot tg h s r g)))
           \<in> insert None (Some ` {200, 400, 404, 405, 503, tg_moved tg})
       \<or> take 1 (segments (tg_escaped tg)) = [''v1'']
           \<and> status_of (gw_w (snd (root_serve ot tg h s r g))) \<in> Some ` {401, 429, 500, 504}"
proof -
  obtain speech where eq: "root_serve ot tg h s = mux_serve tg (route_table ks speech) s"
    by (rule root_serve_mux [OF assms(1,2)])
  have none: "status_of (gw_w g) = None" using assms(3) by (simp add: fresh_def)
  show ?thesis
  proof (cases rule: mux_serve_cases [of tg "route_table ks speech" s r g])
    case (1 g')
    with eq mux_status_cases [OF assms(3) 1(2)] show ?thesis by auto
  next
    case (2 pm p e)
    from route_table_entries [OF 2(1)] show ?thesis
    proof
      assume "((pm, p), e) \<in> set (public_routes @ report_routes True)"
      from public_status [OF this none, of s r] 2(3) show ?thesis unfolding eq 2(2) by auto
    next
      assume api: "((pm, p), e) \<in> set (api_routes ks by_watchdog @ speech_route ks by_watchdog)"
      have "take 1 (segments (tg_escaped tg)) = [''v1'']" using api_segments [OF api] 2(3) by simp
      moreover from api have "status_ok (snd (root_serve ot tg h s r g))"
      proof (rule api_entries)
        fix i hd
        assume e: "e = secured ks i hd"
          and st: "\<And>s r g. relaying (gw_reg g) (gw_router g) \<Longrightarrow> status_ok g \<Longrightarrow> status_ok (snd (hd s r g))"
        from secured_status [OF assms(3,4), of "hd s" "si_rt s" ks i r] st
        show ?thesis unfolding eq 2(2) e secured_def by blast
      qed
      ultimately show ?thesis unfolding status_ok_def api_statuses_def by (auto split: option.splits)
    qed
  qed
qed

theorem response_status_typed_witness:
  "status_of (gw_w (snd (root_serve plain_otel (to_path ''/docs'') (MuxHandler (route_table one_key True))
       quiet_situation (bearing ''Basic c2VjcmV0'') resting))) \<in> insert None (Some ` {200, 400, 404, 405, 503, 307})"
proof -
  have "transparent plain_otel" "MuxHandler (route_table one_key True) \<in> roots one_key"
    "relaying (gw_reg resting) (gw_router resting)"
    by (auto simp: transparent_plain roots_def resting_def)
  moreover have "segments ''/docs'' \<noteq> segments ''/metrics''" "take 1 (segments ''/docs'') \<noteq> [''v1'']" by code_simp+
  ultimately show ?thesis
    using response_status_typed [of plain_otel "MuxHandler (route_table one_key True)" one_key resting "to_path ''/docs''"
        quiet_situation "bearing ''Basic c2VjcmV0''"] resting_fresh by (simp add: to_path_def)
qed

end
