(* ===== verification/Startup.thy ===== *)
theory Startup
  imports Root_Serve
begin

text \<open>
  The start of the process: which configurations and keys bring it up, which make it exit or crash,
  and the registries, routes and limiters it is up with.
\<close>

section \<open>The start\<close>

lemma relaying_Register: "relaying reg rtr \<Longrightarrow> relays b \<Longrightarrow> relaying (Register b reg) rtr"
  by (auto simp: relaying_def Register_def Let_def split: if_splits)

lemma make_backend_props: "make_backend b = Some be \<Longrightarrow> be_Name be = bc_Name b \<and> relays be"
proof -
  have "be_Name (mlx_backend (NewMLX n u h t)) = n" "be_Name (ol_backend (NewOllama n u h t)) = n" for n u h t
    by (simp_all add: mlx_backend_def ol_backend_def NewMLX_def NewOllama_def)
  then show "make_backend b = Some be \<Longrightarrow> ?thesis"
    by (auto simp: make_backend_def relays_mlx relays_ollama split: if_splits)
qed

lemma make_backend_None: "make_backend b = None \<longleftrightarrow> bc_Type b \<notin> {''mlx'', ''ollama''}"
  by (simp add: make_backend_def)

lemma Register_fields:
  "rg_lb (Register b reg) = rg_lb reg" "fst ` set (rg_backends (Register b reg)) = insert (be_Name b) (fst ` set (rg_backends reg))"
  "rg_primary (Register b reg) = (if rg_primary reg = [] then be_Name b else rg_primary reg)"
  by (simp_all add: Register_def Let_def)

text \<open>
  What the configuration asks for under a name, said of the fields of the adapters: the type decides
  which adapter it is, trailing slashes of the URL are dropped, and a health timeout that is not
  positive is five seconds; a zero timeout of a client is none.
\<close>

definition configured_backend :: "backend_conf \<Rightarrow> backend" where
  "configured_backend b =
     (let url = trim_right_slash (bc_URL b);
          health = \<lparr>cl_timeout = if bc_HealthTimeout b \<le> 0 then 5000000000 else bc_HealthTimeout b\<rparr>;
          inference = \<lparr>cl_timeout = max 0 (bc_Timeout b)\<rparr>
      in if bc_Type b = ''ollama''
         then ol_backend \<lparr>ol_name = bc_Name b, ol_baseURL = url, ol_healthClient = health, ol_inferenceClient = inference\<rparr>
         else mlx_backend \<lparr>mlx_name = bc_Name b, mlx_baseURL = url, mlx_healthClient = health, mlx_inferenceClient = inference\<rparr>)"

definition configured_voice :: "tts_conf \<Rightarrow> backend_info" where
  "configured_voice t =
     \<lparr>bi_Name = tc_Name t, bi_Backend = None,
      bi_TTSBackend = Some (tts_http_backend
        \<lparr>th_name = tc_Name t, th_baseURL = trim_right_slash (tc_URL t), th_client = \<lparr>cl_timeout = tc_Timeout t\<rparr>\<rparr>),
      bi_Capabilities = [CapTTS], bi_Models = [\<lparr>mi_ID = tc_Name t, mi_Provider = [], mi_Kind = CapTTS\<rparr>]\<rparr>"

lemma make_backend_configured:
  "bc_Type b \<in> {''mlx'', ''ollama''} \<Longrightarrow> make_backend b = Some (configured_backend b)"
  by (auto simp: make_backend_def configured_backend_def NewMLX_def NewOllama_def newHTTPClient_def
      health_timeout_def Let_def)

lemma voice_info_configured: "voice_info t = configured_voice t"
  by (simp add: voice_info_def configured_voice_def NewTTSHTTP_def)

lemma find_snoc: "find P (xs @ [x]) = (case find P xs of None \<Rightarrow> if P x then Some x else None | Some y \<Rightarrow> Some y)"
  by (induction xs) auto

lemma register_backends_lookup:
  assumes "register_backends bs (reg, ob) = Inr (reg', ob')"
  shows "map_of (rg_backends reg') n =
     (case find (\<lambda>b. bc_Name b = n) (rev bs) of None \<Rightarrow> map_of (rg_backends reg) n | Some b \<Rightarrow> Some (configured_backend b))"
  using assms
proof (induction bs arbitrary: reg ob)
  case (Cons b bs)
  obtain be where be: "make_backend b = Some be" using Cons.prems by (cases "make_backend b") auto
  then have "be = configured_backend b"
    using make_backend_configured [of b] make_backend_None [of b] by auto
  with make_backend_props [OF be] Cons.IH [of "Register be reg"] Cons.prems be show ?case
    by (auto simp: find_snoc Register_def Let_def split: option.splits)
qed simp

lemma register_voices_lookup:
  "register_voices ts (rtr, ob) = (rtr', ob') \<Longrightarrow>
     map_of (rr_backends rtr') n =
       (case find (\<lambda>t. tc_Name t = n) (rev ts) of None \<Rightarrow> map_of (rr_backends rtr) n | Some t \<Rightarrow> Some (configured_voice t))
     \<and> rr_routes rtr' = rr_routes rtr @
         map (\<lambda>t. \<lparr>rt_Model = tc_Name t, rt_Capability = CapTTS, rt_BackendName = tc_Name t\<rparr>) ts"
proof (induction ts arbitrary: rtr ob)
  case (Cons t ts)
  have "register_voices ts (RegisterInfo (voice_info t) rtr,
      log_attrs LevelInfo ''tts backend registered'' [(''name'', tc_Name t), (''url'', tc_URL t)] ob) = (rtr', ob')"
    using Cons.prems by (simp add: register_voices_def)
  from Cons.IH [OF this] show ?case
    by (auto simp: find_snoc RegisterInfo_def voice_info_configured configured_voice_def split: option.splits)
qed (simp add: register_voices_def)

lemma register_backends_iff:
  "(\<exists>s'. register_backends bs s = Inr s') \<longleftrightarrow> (\<forall>b \<in> set bs. bc_Type b \<in> {''mlx'', ''ollama''})"
  by (induction bs s rule: register_backends.induct) (auto split: option.split simp: make_backend_None make_backend_def)

lemma register_backends_ok:
  assumes "register_backends bs (reg, ob) = Inr (reg', ob')" and "registry_ok reg" and "relaying reg rtr"
    and "\<forall>b \<in> set bs. bc_Name b \<noteq> []"
  shows "registry_ok reg' \<and> relaying reg' rtr \<and> rg_lb reg' = rg_lb reg
       \<and> fst ` set (rg_backends reg') = fst ` set (rg_backends reg) \<union> bc_Name ` set bs
       \<and> rg_primary reg' = (if rg_primary reg = [] \<and> bs \<noteq> [] then bc_Name (hd bs) else rg_primary reg)"
  using assms
proof (induction bs arbitrary: reg ob)
  case (Cons b bs)
  obtain be where be: "make_backend b = Some be" using Cons.prems(1) by (cases "make_backend b") auto
  note props = make_backend_props [OF be]
  have "registry_ok (Register be reg)" using Cons.prems props by (intro registry_ok_Register) auto
  moreover have "relaying (Register be reg) rtr" using Cons.prems props by (intro relaying_Register) auto
  ultimately have "registry_ok reg' \<and> relaying reg' rtr \<and> rg_lb reg' = rg_lb (Register be reg)
      \<and> fst ` set (rg_backends reg') = fst ` set (rg_backends (Register be reg)) \<union> bc_Name ` set bs
      \<and> rg_primary reg' = (if rg_primary (Register be reg) = [] \<and> bs \<noteq> [] then bc_Name (hd bs) else rg_primary (Register be reg))"
    using Cons.prems be by (intro Cons.IH [of "Register be reg"]) auto
  with props Cons.prems(4) show ?case by (auto simp: Register_fields)
qed simp

lemma register_voices_ok:
  "router_ok rtr \<Longrightarrow> register_voices ts (rtr, ob) = (rtr', ob') \<Longrightarrow>
     router_ok rtr' \<and> rr_lb rtr' = rr_lb rtr
     \<and> fst ` set (rr_backends rtr') = fst ` set (rr_backends rtr) \<union> tc_Name ` set ts"
proof (induction ts arbitrary: rtr ob)
  case (Cons t ts)
  have step: "register_voices ts (RegisterInfo (voice_info t) rtr,
      log_attrs LevelInfo ''tts backend registered'' [(''name'', tc_Name t), (''url'', tc_URL t)] ob) = (rtr', ob')"
    using Cons.prems(2) by (simp add: register_voices_def)
  have "router_ok (RegisterInfo (voice_info t) rtr)" using Cons.prems(1) by (rule router_ok_RegisterInfo)
  from Cons.IH [OF this step] show ?case by (auto simp: RegisterInfo_def voice_info_def)
qed (simp add: register_voices_def)

text \<open>The configuration and the keys the process starts from.\<close>

definition loaded :: "world \<Rightarrow> string \<Rightarrow> config \<Rightarrow> key_store \<Rightarrow> bool" where
  "loaded wo path cfg ks \<longleftrightarrow>
     Load (wo_read_file wo) (wo_yaml wo) (wo_parse_float wo) (wo_parse_duration wo) (wo_quote wo) (wo_getenv wo) path = Inr cfg
     \<and> NewKeyStore (wo_quote wo) (wo_getenv wo ''INFERENCIA_API_KEYS'') (wo_open_keys wo) (ac_KeysFile (cf_Auth cfg)) = Inr ks"

definition known_types :: "config \<Rightarrow> bool" where
  "known_types cfg \<longleftrightarrow> (\<forall>b \<in> set (cf_Backends cfg). bc_Type b \<in> {''mlx'', ''ollama''})"

definition tracer_fails :: "world \<Rightarrow> config \<Rightarrow> bool" where
  "tracer_fails wo cfg \<longleftrightarrow>
     oc_OTelEnabled (cf_Observability cfg)
     \<and> (\<exists>e. NewTracerProvider (wo_otel wo) (oc_OTelEndpoint (cf_Observability cfg)) (oc_OTelServiceName (cf_Observability cfg)) = Inl e)"

lemma launch_cases:
  obtains (crashed) ob' where "wf_Interval (cf_Watchdog cfg) \<le> 0" "launch wo cfg ks reg rtr ob = Crashed ob'"
  | (exited) ob' where "0 < wf_Interval (cf_Watchdog cfg)" "tracer_fails wo cfg" "launch wo cfg ks reg rtr ob = Exited ob'"
  | (up) srv w tp ob' where "0 < wf_Interval (cf_Watchdog cfg)" "\<not> tracer_fails wo cfg"
      "launch wo cfg ks reg rtr ob = Up \<lparr>ap_cfg = cfg, ap_logger = newLogger (cf_Log cfg), ap_server = srv, ap_wd = w,
         ap_tracer = tp,
         ap_gw = \<lparr>gw_reg = reg, gw_router = rtr,
           gw_rl = (\<lambda>_. NewRateLimiter (rc_RequestsPerSecond (cf_RateLimit cfg)) (rc_Burst (cf_RateLimit cfg))),
           gw_clock = wo_clock wo, gw_reads = 0, gw_w = new_writer, gw_ob = ob'\<rparr>\<rparr>"
      "hv_Handler srv \<in> roots ks"
      "gauge_level HttpRequestsInFlight (ob_metrics ob') = gauge_level HttpRequestsInFlight (ob_metrics (snd (probe (wo_visit wo)
         (wo_tvisit wo) (wo_ev wo) reg (Some rtr) ((NewWatchdog (watchdog_config cfg))\<lparr>wd_started := True, wd_cancelled := False\<rparr>, ob))))"
proof -
  obtain srv where srv: "assemble cfg ks rtr =
      Some (srv, \<lambda>_. NewRateLimiter (rc_RequestsPerSecond (cf_RateLimit cfg)) (rc_Burst (cf_RateLimit cfg)))"
    "hv_Handler srv = MuxHandler (route_table ks (0 < Len rtr))"
    using assemble_routes [of cfg ks rtr] by blast
  obtain w ob1 where probe: "probe (wo_visit wo) (wo_tvisit wo) (wo_ev wo) reg (Some rtr)
      ((NewWatchdog (watchdog_config cfg))\<lparr>wd_started := True, wd_cancelled := False\<rparr>, ob) = (w, ob1)"
    by fastforce
  have interval: "wc_Interval (wd_cfg (NewWatchdog (watchdog_config cfg))) = wf_Interval (cf_Watchdog cfg)"
    by (simp add: NewWatchdog_def watchdog_config_def)
  have roots: "hv_Handler srv \<in> roots ks" "TracedHandler op (hv_Handler srv) \<in> roots ks" for op
    by (auto simp: srv(2) roots_def)
  note start = launch_def srv(1) Start_def probe interval Let_def
  show ?thesis
  proof (cases "wf_Interval (cf_Watchdog cfg) \<le> 0")
    case True
    show ?thesis by (rule crashed [OF True]) (simp add: start True)
  next
    case False
    then have pos: "0 < wf_Interval (cf_Watchdog cfg)" by simp
    show ?thesis
    proof (cases "tracer_fails wo cfg")
      case True
      then obtain e where e: "oc_OTelEnabled (cf_Observability cfg)"
        "NewTracerProvider (wo_otel wo) (oc_OTelEndpoint (cf_Observability cfg)) (oc_OTelServiceName (cf_Observability cfg)) = Inl e"
        by (auto simp: tracer_fails_def)
      show ?thesis by (rule exited [OF pos True]) (use False e in \<open>simp add: start\<close>)
    next
      case ok: False
      show ?thesis
      proof (cases "oc_OTelEnabled (cf_Observability cfg)")
        case True
        with ok obtain tp where
          "NewTracerProvider (wo_otel wo) (oc_OTelEndpoint (cf_Observability cfg)) (oc_OTelServiceName (cf_Observability cfg)) = Inr tp"
          by (cases "NewTracerProvider (wo_otel wo) (oc_OTelEndpoint (cf_Observability cfg)) (oc_OTelServiceName (cf_Observability cfg))")
            (auto simp: tracer_fails_def)
        with pos True show ?thesis
          by (intro up [OF pos ok], simp add: start) (simp_all add: roots probe)
      next
        case False
        with pos show ?thesis
          by (intro up [OF pos ok], simp add: start) (simp_all add: roots probe)
      qed
    qed
  qed
qed

lemma main_start_exits:
  assumes "\<nexists>cfg ks. loaded wo path cfg ks \<and> known_types cfg"
  shows "\<exists>ob. main_start wo path = Exited ob"
proof (cases "Load (wo_read_file wo) (wo_yaml wo) (wo_parse_float wo) (wo_parse_duration wo) (wo_quote wo) (wo_getenv wo) path")
  case (Inr cfg)
  show ?thesis
  proof (cases "NewKeyStore (wo_quote wo) (wo_getenv wo ''INFERENCIA_API_KEYS'') (wo_open_keys wo) (ac_KeysFile (cf_Auth cfg))")
    case key: (Inr ks)
    have "loaded wo path cfg ks" using Inr key by (simp add: loaded_def)
    with assms have unknown: "\<not> known_types cfg" by blast
    let ?s = "(NewRegistry, log_attrs LevelInfo ''api keys loaded'' [(''count'', itoa (int (Count ks)))] no_observed)"
    show ?thesis
    proof (cases "register_backends (cf_Backends cfg) ?s")
      case (Inr s')
      with unknown register_backends_iff [of "cf_Backends cfg" ?s] show ?thesis
        unfolding known_types_def by blast
    qed (simp add: main_start_def Inr key)
  qed (simp add: main_start_def Inr)
qed (simp add: main_start_def)

lemma main_start_launch:
  assumes load: "loaded wo path cfg ks" and types: "known_types cfg"
  obtains reg ob rtr ob1 where
    "register_backends (cf_Backends cfg)
      (NewRegistry, log_attrs LevelInfo ''api keys loaded'' [(''count'', itoa (int (Count ks)))] no_observed) = Inr (reg, ob)"
    "register_voices (cf_TTSBackends cfg) (NewRouter, ob) = (rtr, ob1)"
    "main_start wo path = launch wo cfg ks reg rtr ob1"
proof -
  obtain reg ob where reg: "register_backends (cf_Backends cfg)
      (NewRegistry, log_attrs LevelInfo ''api keys loaded'' [(''count'', itoa (int (Count ks)))] no_observed) = Inr (reg, ob)"
    using types register_backends_iff [of "cf_Backends cfg"] unfolding known_types_def by fast
  obtain rtr ob1 where rtr: "register_voices (cf_TTSBackends cfg) (NewRouter, ob) = (rtr, ob1)" by fastforce
  show ?thesis by (rule that [OF reg rtr]) (use load in \<open>simp add: main_start_def loaded_def reg rtr\<close>)
qed

section \<open>Properties of the start\<close>

text \<open>
  C4: the process comes up exactly when the configuration and the keys load, every backend has a known
  type, the watchdog interval is positive and the tracer, if asked for, can be created; with an
  interval that is not positive it crashes although the configuration was accepted, and in every
  other case it exits. The registration of the routes never panics, and no outcome of the first
  health probes keeps the process from coming up.
\<close>

theorem main_start_outcome:
  "((\<exists>a. main_start wo path = Up a) \<longleftrightarrow>
      (\<exists>cfg ks. loaded wo path cfg ks \<and> known_types cfg \<and> 0 < wf_Interval (cf_Watchdog cfg) \<and> \<not> tracer_fails wo cfg))
   \<and> ((\<exists>ob. main_start wo path = Crashed ob) \<longleftrightarrow>
      (\<exists>cfg ks. loaded wo path cfg ks \<and> known_types cfg \<and> wf_Interval (cf_Watchdog cfg) \<le> 0))"
proof (cases "\<exists>cfg ks. loaded wo path cfg ks \<and> known_types cfg")
  case False
  with main_start_exits show ?thesis by fastforce
next
  case True
  then obtain cfg ks where load: "loaded wo path cfg ks" and types: "known_types cfg" by blast
  from main_start_launch [OF this] obtain reg rtr ob1 where main: "main_start wo path = launch wo cfg ks reg rtr ob1" .
  have up: "(\<exists>a. main_start wo path = Up a) \<longleftrightarrow> 0 < wf_Interval (cf_Watchdog cfg) \<and> \<not> tracer_fails wo cfg"
    and crash: "(\<exists>ob. main_start wo path = Crashed ob) \<longleftrightarrow> wf_Interval (cf_Watchdog cfg) \<le> 0"
    unfolding main by (cases rule: launch_cases [of cfg wo ks reg rtr ob1]; simp)+
  have "(\<exists>cfg' ks'. loaded wo path cfg' ks' \<and> P cfg') \<longleftrightarrow> P cfg" for P
  proof -
    have "cfg' = cfg" if "loaded wo path cfg' ks'" for cfg' ks' using that load by (simp add: loaded_def)
    with load show ?thesis by blast
  qed
  from this [of "\<lambda>c. known_types c \<and> 0 < wf_Interval (cf_Watchdog c) \<and> \<not> tracer_fails wo c"]
    this [of "\<lambda>c. known_types c \<and> wf_Interval (cf_Watchdog c) \<le> 0"]
  show ?thesis unfolding up crash using types by simp
qed

lemma main_start_registered:
  assumes "main_start wo path = Up a"
  shows "known_types (ap_cfg a)
       \<and> (\<forall>n. map_of (rg_backends (gw_reg (ap_gw a))) n =
            map_option configured_backend (find (\<lambda>b. bc_Name b = n) (rev (cf_Backends (ap_cfg a)))))
       \<and> (\<forall>n. map_of (rr_backends (gw_router (ap_gw a))) n =
            map_option configured_voice (find (\<lambda>t. tc_Name t = n) (rev (cf_TTSBackends (ap_cfg a)))))
       \<and> rr_routes (gw_router (ap_gw a)) =
            map (\<lambda>t. \<lparr>rt_Model = tc_Name t, rt_Capability = CapTTS, rt_BackendName = tc_Name t\<rparr>) (cf_TTSBackends (ap_cfg a))"
proof -
  have "\<exists>cfg ks. loaded wo path cfg ks \<and> known_types cfg"
    using main_start_exits [of wo path] assms by fastforce
  then obtain cfg ks where load: "loaded wo path cfg ks" and types: "known_types cfg" by blast
  obtain reg ob rtr ob1 where
    reg: "register_backends (cf_Backends cfg)
      (NewRegistry, log_attrs LevelInfo ''api keys loaded'' [(''count'', itoa (int (Count ks)))] no_observed) = Inr (reg, ob)"
    and rtr: "register_voices (cf_TTSBackends cfg) (NewRouter, ob) = (rtr, ob1)"
    and main: "main_start wo path = launch wo cfg ks reg rtr ob1"
    by (rule main_start_launch [OF load types])
  have a: "ap_cfg a = cfg" "gw_reg (ap_gw a) = reg" "gw_router (ap_gw a) = rtr"
    by (cases rule: launch_cases [of cfg wo ks reg rtr ob1]; use main assms in auto)+
  show ?thesis
    unfolding a using types register_backends_lookup [OF reg] register_voices_lookup [OF rtr]
    by (auto simp: NewRegistry_def NewRouter_def split: option.splits)
qed

lemma main_start_up:
  assumes "main_start wo path = Up a"
  shows "\<exists>ks. loaded wo path (ap_cfg a) ks \<and> hv_Handler (ap_server a) \<in> roots ks
       \<and> registry_ok (gw_reg (ap_gw a)) \<and> relaying (gw_reg (ap_gw a)) (gw_router (ap_gw a))
       \<and> fst ` set (rg_backends (gw_reg (ap_gw a))) = bc_Name ` set (cf_Backends (ap_cfg a))
       \<and> PrimaryName (gw_reg (ap_gw a)) = bc_Name (hd (cf_Backends (ap_cfg a)))
       \<and> router_ok (gw_router (ap_gw a))
       \<and> fst ` set (rr_backends (gw_router (ap_gw a))) = tc_Name ` set (cf_TTSBackends (ap_cfg a))
       \<and> unloaded (rg_lb (gw_reg (ap_gw a))) \<and> unloaded (rr_lb (gw_router (ap_gw a)))
       \<and> gw_rl (ap_gw a) = (\<lambda>_. NewRateLimiter (rc_RequestsPerSecond (cf_RateLimit (ap_cfg a))) (rc_Burst (cf_RateLimit (ap_cfg a))))"
proof -
  have "\<exists>cfg ks. loaded wo path cfg ks \<and> known_types cfg"
    using main_start_exits [of wo path] assms by fastforce
  then obtain cfg ks where load: "loaded wo path cfg ks" and types: "known_types cfg" by blast
  obtain reg ob rtr ob1 where
    reg: "register_backends (cf_Backends cfg)
      (NewRegistry, log_attrs LevelInfo ''api keys loaded'' [(''count'', itoa (int (Count ks)))] no_observed) = Inr (reg, ob)"
    and rtr: "register_voices (cf_TTSBackends cfg) (NewRouter, ob) = (rtr, ob1)"
    and main: "main_start wo path = launch wo cfg ks reg rtr ob1"
    by (rule main_start_launch [OF load types])
  have cfg: "config_ok cfg" using load Load_config_ok unfolding loaded_def by blast
  have regs: "registry_ok reg \<and> relaying reg rtr \<and> rg_lb reg = rg_lb NewRegistry
      \<and> fst ` set (rg_backends reg) = fst ` set (rg_backends NewRegistry) \<union> bc_Name ` set (cf_Backends cfg)
      \<and> rg_primary reg = (if rg_primary NewRegistry = [] \<and> cf_Backends cfg \<noteq> [] then bc_Name (hd (cf_Backends cfg)) else rg_primary NewRegistry)"
    by (rule register_backends_ok [OF reg registry_ok_New]) (use cfg in \<open>auto simp: config_ok_def\<close>)
  have rtrs: "router_ok rtr \<and> rr_lb rtr = rr_lb NewRouter
      \<and> fst ` set (rr_backends rtr) = fst ` set (rr_backends NewRouter) \<union> tc_Name ` set (cf_TTSBackends cfg)"
    by (rule register_voices_ok [OF router_ok_New rtr])
  have empty: "unloaded NewLoadBalancer" by (simp add: unloaded_def InFlight_def NewLoadBalancer_def)
  show ?thesis
  proof (cases rule: launch_cases [of cfg wo ks reg rtr ob1])
    case (up srv w tp ob')
    with main assms have a: "a = \<lparr>ap_cfg = cfg, ap_logger = newLogger (cf_Log cfg), ap_server = srv, ap_wd = w,
         ap_tracer = tp,
         ap_gw = \<lparr>gw_reg = reg, gw_router = rtr,
           gw_rl = (\<lambda>_. NewRateLimiter (rc_RequestsPerSecond (cf_RateLimit cfg)) (rc_Burst (cf_RateLimit cfg))),
           gw_clock = wo_clock wo, gw_reads = 0, gw_w = new_writer, gw_ob = ob'\<rparr>\<rparr>" by simp
    from regs rtrs up(4) load cfg empty show ?thesis
      by (intro exI [of _ ks]) (simp add: a config_ok_def PrimaryName_def NewRegistry_def NewRouter_def)
  qed (use main assms in simp_all)
qed

text \<open>
  C5: a process that is up serves the registered routes to a chat registry with the first configured
  backend's name as its primary, in which every name has the adapter of the last configured backend
  of that name: of the configured type, at the configured URL without its trailing slashes, with
  the configured timeouts (five seconds for a health timeout that is not positive). The speech
  router likewise has for every name the last configured voice of it, a HTTP speech backend that
  offers the capability \<open>tts\<close> and a model of its own name, and one route for each configured entry.
  Nothing is in flight, and both limiters are new ones of the configured rate and burst.
\<close>

theorem main_start_state:
  assumes "main_start wo path = Up a"
  shows "\<exists>ks. loaded wo path (ap_cfg a) ks \<and> hv_Handler (ap_server a) \<in> roots ks
       \<and> registry_ok (gw_reg (ap_gw a)) \<and> relaying (gw_reg (ap_gw a)) (gw_router (ap_gw a))
       \<and> fst ` set (rg_backends (gw_reg (ap_gw a))) = bc_Name ` set (cf_Backends (ap_cfg a))
       \<and> PrimaryName (gw_reg (ap_gw a)) = bc_Name (hd (cf_Backends (ap_cfg a)))
       \<and> router_ok (gw_router (ap_gw a))
       \<and> fst ` set (rr_backends (gw_router (ap_gw a))) = tc_Name ` set (cf_TTSBackends (ap_cfg a))
       \<and> known_types (ap_cfg a)
       \<and> (\<forall>n. map_of (rg_backends (gw_reg (ap_gw a))) n =
            map_option configured_backend (find (\<lambda>b. bc_Name b = n) (rev (cf_Backends (ap_cfg a)))))
       \<and> (\<forall>n. map_of (rr_backends (gw_router (ap_gw a))) n =
            map_option configured_voice (find (\<lambda>t. tc_Name t = n) (rev (cf_TTSBackends (ap_cfg a)))))
       \<and> rr_routes (gw_router (ap_gw a)) =
            map (\<lambda>t. \<lparr>rt_Model = tc_Name t, rt_Capability = CapTTS, rt_BackendName = tc_Name t\<rparr>) (cf_TTSBackends (ap_cfg a))
       \<and> unloaded (rg_lb (gw_reg (ap_gw a))) \<and> unloaded (rr_lb (gw_router (ap_gw a)))
       \<and> gw_rl (ap_gw a) = (\<lambda>_. NewRateLimiter (rc_RequestsPerSecond (cf_RateLimit (ap_cfg a))) (rc_Burst (cf_RateLimit (ap_cfg a))))"
  using main_start_up [OF assms] main_start_registered [OF assms] by blast

text \<open>A world in which the defaults are used and one key is set in the environment.\<close>

definition plain_world :: world where
  "plain_world =
     \<lparr>wo_read_file = (\<lambda>_. Inl (new_error ''EOF'')), wo_yaml = (\<lambda>_ _. Inl (new_error ''EOF'')),
      wo_parse_float = (\<lambda>_. Inl (new_error ''EOF'')), wo_parse_duration = (\<lambda>_. Inl (new_error ''EOF'')), wo_quote = id,
      wo_getenv = only_set [(''INFERENCIA_API_KEYS'', ''sk-0123456789'')],
      wo_open_keys = (\<lambda>_. Inl (new_error ''EOF'')), wo_otel = plain_otel, wo_ev = idle_env, wo_visit = [''ollama''],
      wo_tvisit = [], wo_clock = (\<lambda>_. 0)\<rparr>"

lemma plain_world_loads: "\<exists>ks. loaded plain_world [] Defaults ks"
proof -
  have "fold (override (only_set [(''INFERENCIA_API_KEYS'', k)])) (env_overrides pf pd) (c, []) = (c, [])" for k pf pd c
    by (simp add: env_overrides_def override_def only_set_def Let_def)
  moreover have "validate q Defaults = None" for q by (simp add: validate_iff config_ok_def Defaults_def)
  ultimately have "Load (wo_read_file plain_world) (wo_yaml plain_world) (wo_parse_float plain_world)
      (wo_parse_duration plain_world) (wo_quote plain_world) (wo_getenv plain_world) [] = Inr Defaults"
    by (simp add: Load_def applyEnvOverrides_def plain_world_def Let_def)
  moreover have "\<exists>ks. NewKeyStore (wo_quote plain_world) (wo_getenv plain_world ''INFERENCIA_API_KEYS'') (wo_open_keys plain_world) p = Inr ks" for p
    by (simp add: NewKeyStore_def plain_world_def only_set_def load_pieces_keys Let_def) code_simp
  ultimately show ?thesis unfolding loaded_def by blast
qed

lemma plain_world_up: "\<exists>a. main_start plain_world [] = Up a \<and> ap_cfg a = Defaults"
proof -
  obtain ks where load: "loaded plain_world [] Defaults ks" using plain_world_loads by blast
  have types: "known_types Defaults" by (simp add: known_types_def Defaults_def)
  from main_start_launch [OF load types] obtain reg rtr ob1
    where main: "main_start plain_world [] = launch plain_world Defaults ks reg rtr ob1" .
  show ?thesis
    unfolding main
    by (cases rule: launch_cases [of Defaults plain_world ks reg rtr ob1])
      (auto simp: Defaults_def tracer_fails_def)
qed

theorem main_start_state_witness:
  "\<exists>a be. main_start plain_world [] = Up a \<and> PrimaryName (gw_reg (ap_gw a)) = ''ollama''
     \<and> map_of (rg_backends (gw_reg (ap_gw a))) ''ollama'' = Some be
     \<and> (\<exists>o'. be = ol_backend o' \<and> ol_baseURL o' = trim_right_slash ''http://localhost:11434'')"
proof -
  obtain a where a: "main_start plain_world [] = Up a" "ap_cfg a = Defaults" using plain_world_up by blast
  from main_start_state [OF a(1)] have
    "map_of (rg_backends (gw_reg (ap_gw a))) ''ollama'' =
      map_option configured_backend (find (\<lambda>b. bc_Name b = ''ollama'') (rev (cf_Backends (ap_cfg a))))"
    "PrimaryName (gw_reg (ap_gw a)) = bc_Name (hd (cf_Backends (ap_cfg a)))" by blast+
  with a show ?thesis by (auto simp: Defaults_def configured_backend_def Let_def)
qed

end
