(* ===== verification/Lifetime.thy ===== *)
theory Lifetime
  imports Startup
begin

text \<open>
  The process over its whole life: requests, probes of the watchdog, sweeps of a rate limiter and the
  stop are the steps of a running process, and the state it started in is kept well-formed by all of
  them. Requests are taken one after the other here; how they interleave inside a load balancer is
  the subject of \<open>Dispatch\<close>.
\<close>

section \<open>Steps\<close>

inductive app_step :: "otel \<Rightarrow> app \<Rightarrow> app \<Rightarrow> bool" for ot where
  request:
    "status_of w = None \<Longrightarrow> wr_wrap w = [] \<Longrightarrow> situated s (ap_gw a) \<Longrightarrow> si_wd s = ap_wd a \<Longrightarrow>
     app_step ot a
       (a\<lparr>ap_gw := snd (root_serve ot tg (hv_Handler (ap_server a)) s r ((ap_gw a)\<lparr>gw_w := w\<rparr>))\<rparr>)"
| tick:
    "\<not> wd_cancelled (ap_wd a) \<Longrightarrow>
     iterates visit (rg_backends (gw_reg (ap_gw a))) \<Longrightarrow> iterates tvisit (rr_backends (gw_router (ap_gw a))) \<Longrightarrow>
     probe visit tvisit ev (gw_reg (ap_gw a)) (Some (gw_router (ap_gw a))) (ap_wd a, gw_ob (ap_gw a)) = (wd, ob) \<Longrightarrow>
     app_step ot a (a\<lparr>ap_wd := wd, ap_gw := (ap_gw a)\<lparr>gw_ob := ob\<rparr>\<rparr>)"
| sweep:
    "app_step ot a
       (a\<lparr>ap_gw := (ap_gw a)\<lparr>gw_rl := (gw_rl (ap_gw a))(i := cleanup now (gw_rl (ap_gw a) i))\<rparr>\<rparr>)"
| stop: "app_step ot a (main_stop err a)"

inductive_cases app_stepE: "app_step ot a a'"

section \<open>The invariant\<close>

definition app_ok :: "key_store \<Rightarrow> registry \<Rightarrow> router \<Rightarrow> app \<Rightarrow> bool" where
  "app_ok ks reg rtr a \<longleftrightarrow>
     gateway_ok (ap_gw a) \<and> steady (gw_clock (ap_gw a)) \<and> hv_Handler (ap_server a) \<in> roots ks
     \<and> rg_backends (gw_reg (ap_gw a)) = rg_backends reg \<and> rr_backends (gw_router (ap_gw a)) = rr_backends rtr"

lemma gateway_ok_writer [simp]: "gateway_ok (g\<lparr>gw_w := w\<rparr>) = gateway_ok g"
  by (simp add: gateway_ok_def)

lemma gateway_ok_ob:
  "gateway_ok g \<Longrightarrow> gauge_level HttpRequestsInFlight (ob_metrics ob) = gauge_level HttpRequestsInFlight (ob_metrics (gw_ob g)) \<Longrightarrow>
   gateway_ok (g\<lparr>gw_ob := ob\<rparr>)"
  by (simp add: gateway_ok_def)

text \<open>Probes set the health gauge and write log lines only.\<close>

lemma check_gauge:
  "gauge_level HttpRequestsInFlight (ob_metrics (snd (checkBackend n e s))) = gauge_level HttpRequestsInFlight (ob_metrics (snd s))"
  by (cases s; cases e) (auto simp: checkBackend_def Let_def call_delta_def)

lemma check_all_gauge:
  "gauge_level HttpRequestsInFlight (ob_metrics (snd (check_all results s))) = gauge_level HttpRequestsInFlight (ob_metrics (snd s))"
  unfolding check_all_def by (induction results arbitrary: s) (auto simp: check_gauge)

lemma probe_gauge:
  "gauge_level HttpRequestsInFlight (ob_metrics (snd (probe visit tvisit ev reg tts s))) =
   gauge_level HttpRequestsInFlight (ob_metrics (snd s))"
  by (simp add: probe_def Let_def check_all_gauge split: option.split)

lemma cleanup_limiter_ok: "limiter_ok now l \<Longrightarrow> limiter_ok now (cleanup t l)"
  by (auto simp: limiter_ok_def cleanup_def split: option.splits if_splits)

lemma app_ok_step:
  assumes ok: "app_ok ks reg rtr a" and trace: "transparent ot" and step: "app_step ot a a'"
  shows "app_ok ks reg rtr a'"
  using step
proof (cases rule: app_stepE [consumes 1, case_names request tick sweep stop])
  case (request w s tg r)
  let ?g = "(ap_gw a)\<lparr>gw_w := w\<rparr>"
  have "gateway_ok ?g" "steady (gw_clock ?g)" "hv_Handler (ap_server a) \<in> roots ks" using ok by (simp_all add: app_ok_def)
  moreover have "fresh ?g" "situated s ?g" using request by (simp_all add: fresh_def situated_def)
  ultimately have "gateway_ok (snd (root_serve ot tg (hv_Handler (ap_server a)) s r ?g))
      \<and> same_backends ?g (snd (root_serve ot tg (hv_Handler (ap_server a)) s r ?g))"
    by (intro serve_keeps trace)
  with ok request(1) show ?thesis by (simp add: app_ok_def same_backends_def)
next
  case (tick visit tvisit ev wd ob)
  have "gateway_ok ((ap_gw a)\<lparr>gw_ob := ob\<rparr>)"
    using ok probe_gauge [of visit tvisit ev "gw_reg (ap_gw a)" "Some (gw_router (ap_gw a))" "(ap_wd a, gw_ob (ap_gw a))"] tick
    by (intro gateway_ok_ob) (simp_all add: app_ok_def)
  with ok tick(1) show ?thesis by (simp add: app_ok_def)
next
  case (sweep i now)
  with ok cleanup_limiter_ok show ?thesis by (auto simp: app_ok_def gateway_ok_def)
next
  case (stop err)
  have "gateway_ok (ap_gw (main_stop err a))"
    using ok unfolding main_stop_def Let_def
    by (simp del: log_attrs_simps add: app_ok_def) (rule gateway_ok_ob, auto simp: Shutdown_def Let_def split: option.split)
  with ok show ?thesis unfolding stop by (simp add: app_ok_def main_stop_def Let_def)
qed

lemma app_ok_run:
  assumes "(app_step ot)\<^sup>*\<^sup>* a0 a" and "app_ok ks reg rtr a0" and "transparent ot"
  shows "app_ok ks reg rtr a"
  using assms(1)
proof (induction rule: rtranclp_induct)
  case base
  show ?case by (rule assms(2))
next
  case (step b c)
  from app_ok_step [OF step.IH assms(3) step.hyps(2)] show ?case .
qed

section \<open>The invariant holds at the start\<close>

lemma register_backends_metrics:
  "register_backends bs s = Inr s' \<Longrightarrow> ob_metrics (snd s') = ob_metrics (snd s)"
  by (induction bs s arbitrary: s' rule: register_backends.induct) (auto split: option.splits)

lemma register_voices_metrics: "ob_metrics (snd (register_voices ts s)) = ob_metrics (snd s)"
  unfolding register_voices_def by (induction ts arbitrary: s) (auto simp: split_beta)

lemma main_start_gauge:
  assumes "main_start wo path = Up a"
  shows "gauge_level HttpRequestsInFlight (ob_metrics (gw_ob (ap_gw a))) = 0 \<and> gw_clock (ap_gw a) = wo_clock wo"
proof -
  obtain cfg ks where "loaded wo path cfg ks" "known_types cfg"
    using main_start_exits [of wo path] assms by fastforce
  then show ?thesis
  proof (rule main_start_launch)
    fix reg ob rtr ob1
    assume reg: "register_backends (cf_Backends cfg)
        (NewRegistry, log_attrs LevelInfo ''api keys loaded'' [(''count'', itoa (int (Count ks)))] no_observed) = Inr (reg, ob)"
      and rtr: "register_voices (cf_TTSBackends cfg) (NewRouter, ob) = (rtr, ob1)"
      and main: "main_start wo path = launch wo cfg ks reg rtr ob1"
    have none: "ob_metrics ob1 = []"
      using register_backends_metrics [OF reg] register_voices_metrics [of "cf_TTSBackends cfg" "(NewRouter, ob)"] rtr
      by (simp add: no_observed_def)
    show ?thesis
    proof (cases rule: launch_cases [of cfg wo ks reg rtr ob1])
      case (up srv w tp ob')
      have "gauge_level HttpRequestsInFlight (ob_metrics ob') = 0" using up(5) none by (simp add: probe_gauge)
      with up(3) main assms show ?thesis by auto
    qed (use main assms in simp_all)
  qed
qed

lemma app_ok_start:
  assumes "main_start wo path = Up a" and "steady (wo_clock wo)"
    and "rc_RequestsPerSecond (cf_RateLimit (ap_cfg a)) = Fin r" and "rc_Burst (cf_RateLimit (ap_cfg a)) \<le> 2 ^ 53"
  shows "\<exists>ks. app_ok ks (gw_reg (ap_gw a)) (gw_router (ap_gw a)) a"
proof -
  obtain ks where state: "loaded wo path (ap_cfg a) ks" "hv_Handler (ap_server a) \<in> roots ks"
    "registry_ok (gw_reg (ap_gw a))" "relaying (gw_reg (ap_gw a)) (gw_router (ap_gw a))" "router_ok (gw_router (ap_gw a))"
    "unloaded (rg_lb (gw_reg (ap_gw a)))" "unloaded (rr_lb (gw_router (ap_gw a)))"
    "gw_rl (ap_gw a) = (\<lambda>_. NewRateLimiter (rc_RequestsPerSecond (cf_RateLimit (ap_cfg a))) (rc_Burst (cf_RateLimit (ap_cfg a))))"
    using main_start_up [OF assms(1)] by blast
  have "config_ok (ap_cfg a)" using state(1) Load_config_ok unfolding loaded_def by blast
  then have "limiter_ok now (gw_rl (ap_gw a) i)" for now i
    using assms(3,4) by (simp add: state(8) config_ok_def limiter_ok_New)
  with state main_start_gauge [OF assms(1)] assms(2) show ?thesis
    by (auto simp: app_ok_def gateway_ok_def)
qed

section \<open>Property\<close>

text \<open>
  C1: for a process started with a finite rate, after any sequence of requests on any path, probes,
  sweeps and stops, nothing is in flight between two requests: every load of both load balancers
  and the gauge of requests in flight are zero; the registries hold the configured backends, and
  every bucket of both limiters is between zero and the burst.
\<close>

theorem lifetime_invariant:
  assumes "main_start wo path = Up a0" and "(app_step ot)\<^sup>*\<^sup>* a0 a"
    and "transparent ot" and "steady (wo_clock wo)"
    and "rc_RequestsPerSecond (cf_RateLimit (ap_cfg a0)) = Fin r" and "rc_Burst (cf_RateLimit (ap_cfg a0)) \<le> 2 ^ 53"
  shows "(\<forall>b. InFlight (rg_lb (gw_reg (ap_gw a))) b = 0) \<and> (\<forall>b. InFlight (rr_lb (gw_router (ap_gw a))) b = 0)
       \<and> gauge_level HttpRequestsInFlight (ob_metrics (gw_ob (ap_gw a))) = 0
       \<and> registry_ok (gw_reg (ap_gw a)) \<and> router_ok (gw_router (ap_gw a))
       \<and> fst ` set (rg_backends (gw_reg (ap_gw a))) = bc_Name ` set (cf_Backends (ap_cfg a0))
       \<and> fst ` set (rr_backends (gw_router (ap_gw a))) = tc_Name ` set (cf_TTSBackends (ap_cfg a0))
       \<and> (\<forall>i. limiter_ok (gw_clock (ap_gw a) (gw_reads (ap_gw a))) (gw_rl (ap_gw a) i))"
proof -
  obtain ks where "app_ok ks (gw_reg (ap_gw a0)) (gw_router (ap_gw a0)) a0"
    using app_ok_start [OF assms(1,4-6)] by blast
  from app_ok_run [OF assms(2) this assms(3)]
  have "app_ok ks (gw_reg (ap_gw a0)) (gw_router (ap_gw a0)) a" .
  moreover have "fst ` set (rg_backends (gw_reg (ap_gw a0))) = bc_Name ` set (cf_Backends (ap_cfg a0))"
    "fst ` set (rr_backends (gw_router (ap_gw a0))) = tc_Name ` set (cf_TTSBackends (ap_cfg a0))"
    using main_start_up [OF assms(1)] by blast+
  ultimately show ?thesis by (auto simp: app_ok_def gateway_ok_def unloaded_def)
qed

theorem lifetime_invariant_witness:
  "\<exists>a. main_start plain_world [] = Up a \<and> (\<forall>b. InFlight (rg_lb (gw_reg (ap_gw (main_stop None a)))) b = 0)"
proof -
  obtain a where up: "main_start plain_world [] = Up a" and cfg: "ap_cfg a = Defaults" using plain_world_up by blast
  have "(app_step plain_otel)\<^sup>*\<^sup>* a (main_stop None a)" by (blast intro: app_step.stop)
  moreover have "steady (wo_clock plain_world)" by (simp add: steady_def mono_def plain_world_def)
  ultimately show ?thesis
    using lifetime_invariant [of plain_world "[]" a plain_otel "main_stop None a" 10] up cfg
    by (auto simp: transparent_plain Defaults_def)
qed

end
