(* ===== verification/File_Path.thy ===== *)
theory File_Path
  imports Go_Text
begin

text \<open>
  Prelude, part seven: the functions of \<open>path/filepath\<close> the program uses, for the separator
  \<open>/\<close>: \<open>Clean\<close>, \<open>Join\<close> and \<open>Dir\<close>. They work on the text of a path and never look
  at a file. Walking up with \<open>Dir\<close> ends: a path that is not its own parent is longer than it.
\<close>

section \<open>Definitions\<close>

fun join_parts :: "string list \<Rightarrow> string" where
  "join_parts [] = []"
| "join_parts [p] = p"
| "join_parts (p # ps) = p @ ''/'' @ join_parts ps"

text \<open>One element of a path, onto the elements kept so far (the last one first).\<close>

definition push_part :: "bool \<Rightarrow> string \<Rightarrow> string list \<Rightarrow> string list" where
  "push_part rooted p st =
     (if p = [] \<or> p = ''.'' then st
      else if p = ''..''
      then (case st of
              [] \<Rightarrow> (if rooted then [] else [p])
            | q # qs \<Rightarrow> (if q = ''..'' then p # st else qs))
      else p # st)"

definition Clean :: "string \<Rightarrow> string" where
  "Clean path =
     (let rooted = has_prefix ''/'' path;
          st = rev (fold (push_part rooted) (split_on (CHR ''/'') path) [])
      in if rooted then ''/'' @ join_parts st else if st = [] then ''.'' else join_parts st)"

definition Join :: "string list \<Rightarrow> string" where
  "Join elems = (case dropWhile (\<lambda>e. e = []) elems of [] \<Rightarrow> [] | es \<Rightarrow> Clean (join_parts es))"

text \<open>\<open>Dir\<close> cleans what is there up to the last separator.\<close>

definition up_to_slash :: "string \<Rightarrow> string" where
  "up_to_slash path = rev (dropWhile (\<lambda>c. c \<noteq> CHR ''/'') (rev path))"

definition Dir :: "string \<Rightarrow> string" where
  "Dir path = Clean (up_to_slash path)"

section \<open>The length of a cleaned path\<close>

abbreviation weight :: "string list \<Rightarrow> nat" where
  "weight ps \<equiv> sum_list (map (\<lambda>p. Suc (length p)) ps)"

lemma weight_split: "weight (split_on d s) = Suc (length s)"
  by (induction s) (auto split: list.splits)

lemma length_join: "ps \<noteq> [] \<Longrightarrow> Suc (length (join_parts ps)) = weight ps"
  by (induction ps rule: join_parts.induct) auto

lemma weight_push: "weight (push_part r p st) \<le> weight st + (if p = [] then 0 else Suc (length p))"
  by (auto simp: push_part_def split: list.splits)

lemma weight_pushes: "weight (fold (push_part r) ps st) \<le> weight st + weight ps"
proof (induction ps arbitrary: st)
  case Nil
  show ?case by simp
next
  case (Cons p ps)
  from Cons.IH [of "push_part r p st"] weight_push [of r p st] show ?case by (simp split: if_splits)
qed

lemma split_end: "split_on d (s @ [d]) = split_on d s @ [[]]"
proof (induction s)
  case (Cons c s)
  have "split_on d s \<noteq> []" by (cases s) (auto split: list.splits)
  with Cons show ?case by (auto split: list.splits)
qed simp

lemma push_empty [simp]: "push_part r [] st = st"
  by (simp add: push_part_def)

lemma length_Clean:
  assumes "p \<noteq> []" and "Clean (p @ ''/'') \<noteq> ''.''"
  shows "length (Clean (p @ ''/'')) \<le> length p"
proof -
  define r where "r = has_prefix ''/'' (p @ ''/'')"
  define st where "st = fold (push_part r) (split_on (CHR ''/'') p) []"
  have clean: "Clean (p @ ''/'') = (if r then ''/'' @ join_parts (rev st) else if rev st = [] then ''.'' else join_parts (rev st))"
    by (simp add: Clean_def Let_def split_end r_def st_def)
  have "length (join_parts (rev st)) < weight (rev st)" if "st \<noteq> []"
    using length_join [of "rev st"] that by simp
  moreover have "weight (rev st) = weight st" by (simp add: rev_map [symmetric])
  ultimately have join: "st \<noteq> [] \<Longrightarrow> length (join_parts (rev st)) < weight st" by simp
  show ?thesis
  proof (cases r)
    case True
    with assms(1) obtain q where p: "p = CHR ''/'' # q" by (cases p) (auto simp: r_def has_prefix_def)
    then have "weight st \<le> length p"
      using weight_pushes [of r "split_on (CHR ''/'') q" "[]"] weight_split [of "CHR ''/''" q] by (simp add: st_def)
    with join True clean p show ?thesis by (cases "st = []") simp_all
  next
    case False
    with assms(2) clean have "st \<noteq> []" by auto
    moreover have "weight st \<le> Suc (length p)"
      using weight_pushes [of r "split_on (CHR ''/'') p" "[]"] weight_split [of "CHR ''/''" p] by (simp add: st_def)
    ultimately show ?thesis using join False clean by simp
  qed
qed

section \<open>Walking up ends\<close>

lemma up_to_slash_cases:
  obtains "up_to_slash s = []" | p q where "up_to_slash s = p @ ''/''" "s = p @ ''/'' @ q"
proof -
  have split: "s = up_to_slash s @ rev (takeWhile (\<lambda>c. c \<noteq> CHR ''/'') (rev s))"
    unfolding up_to_slash_def by (metis rev_append rev_rev_ident takeWhile_dropWhile_id)
  show ?thesis
  proof (cases "dropWhile (\<lambda>c. c \<noteq> CHR ''/'') (rev s)")
    case Nil
    then show ?thesis using that(1) by (simp add: up_to_slash_def)
  next
    case (Cons c cs)
    then have "c = CHR ''/''" using hd_dropWhile [of "\<lambda>c. c \<noteq> CHR ''/''" "rev s"] by auto
    with Cons have "up_to_slash s = rev cs @ ''/''" by (simp add: up_to_slash_def)
    with that(2) split show ?thesis by (metis append.assoc)
  qed
qed

lemma Dir_shorter:
  assumes "Dir s \<noteq> s" and "Dir s \<noteq> ''.''"
  shows "length (Dir s) < length s"
proof (cases s rule: up_to_slash_cases)
  case 1
  then show ?thesis using assms by (simp add: Dir_def Clean_def has_prefix_def)
next
  case (2 p q)
  show ?thesis
  proof (cases "p = []")
    case True
    have "Clean ''/'' = ''/''" by (simp add: Clean_def has_prefix_def)
    with 2 True assms(1) show ?thesis by (cases q) (simp_all add: Dir_def)
  next
    case False
    from length_Clean [OF this] 2 assms(2) show ?thesis by (simp add: Dir_def)
  qed
qed

text \<open>The measure of a walk: the length of the path, except that \<open>.\<close> is the end of a relative one.\<close>

definition depth :: "string \<Rightarrow> nat" where
  "depth s = (if s = ''.'' then 0 else Suc (length s))"

lemma depth_Dir: "Dir s \<noteq> s \<Longrightarrow> depth (Dir s) < depth s"
proof -
  assume up: "Dir s \<noteq> s"
  have "Dir ''.'' = ''.''" by (simp add: Dir_def up_to_slash_def Clean_def has_prefix_def)
  with up have "s \<noteq> ''.''" by auto
  with Dir_shorter [OF up] show ?thesis by (auto simp: depth_def)
qed

lemma Dir_examples:
  "Dir ''/home/ci/repo'' = ''/home/ci'' \<and> Dir ''/home'' = ''/'' \<and> Dir ''/'' = ''/'' \<and> Dir ''repo'' = ''.''
    \<and> Join [''/home/ci/repo/'', ''docs/../go.mod''] = ''/home/ci/repo/go.mod''"
  by (simp add: Dir_def Join_def up_to_slash_def Clean_def has_prefix_def push_part_def)

end
