(* ===== verification/Integration.thy ===== *)
theory Integration
  imports File_Path Backend
begin

text \<open>
  The helpers that run the gateway for the integration tests (\<open>integration/app.go\<close>): finding the
  repoRoot of the repository, building and starting the program, and waiting until it answers. The
  machine they run on is the record \<open>host\<close> (its files and the process that was started); the
  tools they call (the environment, the Go tool, the program's answers) are the record \<open>tools\<close>.
\<close>

section \<open>The machine\<close>

record host =
  ho_files :: "string \<rightharpoonup> string"
  ho_running :: bool

text \<open>One round of waiting: the reply to the request, and the error of the context when it ends the wait.\<close>

record attempt =
  at_reply :: "gerr + http_reply"
  at_done :: "gerr option"

record tools =
  to_getenv :: "string \<Rightarrow> string"
  to_environ :: "string list"
  to_getwd :: "gerr + string"
  to_missing :: "string \<Rightarrow> gerr"
  to_mkdir :: "string \<Rightarrow> gerr option"
  to_write :: "string \<Rightarrow> (gerr \<times> string option) option"
  to_goos :: string
  to_goarch :: string
  to_build :: "string list \<Rightarrow> string \<Rightarrow> string list \<Rightarrow> gerr \<times> string + string"
  to_start :: "string \<Rightarrow> string \<Rightarrow> string list \<Rightarrow> gerr option"
  to_attempt :: "string \<Rightarrow> nat \<Rightarrow> attempt"
  to_get :: "string \<Rightarrow> gerr + http_reply"

definition is_there :: "host \<Rightarrow> string \<Rightarrow> bool" where
  "is_there h path \<longleftrightarrow> ho_files h path \<noteq> None"

definition integrationPort :: string where
  "integrationPort = ''18080''"

definition healthPath :: string where
  "healthPath = ''/health''"

section \<open>The root of the repository\<close>

function search_root :: "(string \<Rightarrow> bool) \<Rightarrow> string \<Rightarrow> string \<Rightarrow> gerr + string" where
  "search_root has start dir =
     (if has (Join [dir, ''go.mod'']) then Inr dir
      else if Dir dir = dir then Inl (new_error (''go.mod not found from '' @ start))
      else search_root has start (Dir dir))"
  by pat_completeness auto
termination by (relation "measure (\<lambda>(has, start, dir). depth dir)") (auto intro: depth_Dir)

declare search_root.simps [simp del]

definition findRepoRoot :: "tools \<Rightarrow> host \<Rightarrow> gerr + string" where
  "findRepoRoot to h =
     (let repoRoot = to_getenv to ''INTEGRATION_REPO_ROOT''
      in if repoRoot \<noteq> [] \<and> is_there h (Join [repoRoot, ''go.mod'']) then Inr repoRoot
         else case to_getwd to of
                Inl e \<Rightarrow> Inl e
              | Inr dir \<Rightarrow> search_root (is_there h) dir dir)"

section \<open>Copying the specification\<close>

text \<open>A write that fails leaves the file as it was, or with the part that was written.\<close>

definition copyFile :: "tools \<Rightarrow> string \<Rightarrow> string \<Rightarrow> host \<Rightarrow> gerr option \<times> host" where
  "copyFile to src dst h =
     (case ho_files h src of
        None \<Rightarrow> (Some (to_missing to src), h)
      | Some data \<Rightarrow>
          (case to_mkdir to (Dir dst) of
             Some e \<Rightarrow> (Some e, h)
           | None \<Rightarrow>
               (case to_write to dst of
                  Some (e, None) \<Rightarrow> (Some e, h)
                | Some (e, Some part) \<Rightarrow> (Some e, h\<lparr>ho_files := (ho_files h)(dst \<mapsto> part)\<rparr>)
                | None \<Rightarrow> (None, h\<lparr>ho_files := (ho_files h)(dst \<mapsto> data)\<rparr>))))"

section \<open>Waiting for the program\<close>

text \<open>
  The loop ends when the program answers anything at all or the context is done. \<open>None\<close> is a loop
  that never ends; \<open>Some None\<close> is the nil error.
\<close>

partial_function (option) wait_from :: "(nat \<Rightarrow> attempt) \<Rightarrow> nat \<Rightarrow> gerr option option" where
  "wait_from rounds n =
     (case at_reply (rounds n) of
        Inr resp \<Rightarrow> Some None
      | Inl err \<Rightarrow>
          (case at_done (rounds n) of
             Some e \<Rightarrow> Some (Some e)
           | None \<Rightarrow> wait_from rounds (Suc n)))"

definition waitForHealth :: "tools \<Rightarrow> string \<Rightarrow> gerr option option" where
  "waitForHealth to baseURL = wait_from (to_attempt to (baseURL @ healthPath)) 0"

definition trim_suffix_slash :: "string \<Rightarrow> string" where
  "trim_suffix_slash s = (if s \<noteq> [] \<and> last s = CHR ''/'' then butlast s else s)"

definition IsRunning :: "tools \<Rightarrow> string \<Rightarrow> bool" where
  "IsRunning to baseURL =
     (case to_get to (trim_suffix_slash baseURL @ healthPath) of
        Inl e \<Rightarrow> False
      | Inr resp \<Rightarrow> rp_status resp = 200)"

section \<open>Starting and stopping\<close>

definition spec_src :: "string \<Rightarrow> string" where
  "spec_src repoRoot = Join [repoRoot, ''docs'', ''openapi.yaml'']"

definition spec_dst :: "string \<Rightarrow> string" where
  "spec_dst repoRoot = Join [repoRoot, ''internal'', ''openapi'', ''spec.yaml'']"

definition binary_path :: "tools \<Rightarrow> string \<Rightarrow> string" where
  "binary_path to repoRoot =
     Join [repoRoot, ''inferencia_integration_test'' @ (if to_goos to = ''windows'' then ''.exe'' else [])]"

definition ensure_spec :: "tools \<Rightarrow> string \<Rightarrow> host \<Rightarrow> gerr option \<times> host" where
  "ensure_spec to repoRoot h =
     (if is_there h (spec_dst repoRoot) then (None, h) else copyFile to (spec_src repoRoot) (spec_dst repoRoot) h)"

text \<open>The cleanup function \<open>StartApp\<close> hands out: it kills the process and removes the binary.\<close>

definition stop_app :: "string \<Rightarrow> host \<Rightarrow> host" where
  "stop_app bin h = \<lparr>ho_files = (ho_files h)(bin := None), ho_running = False\<rparr>"

definition base_url :: string where
  "base_url = ''http://127.0.0.1:'' @ integrationPort"

definition GetIntegrationPort :: string where
  "GetIntegrationPort = integrationPort"

definition GetIntegrationBaseURL :: string where
  "GetIntegrationBaseURL = ''127.0.0.1:'' @ integrationPort"

text \<open>
  The base URL and the path of the binary its cleanup removes, or an error; \<open>None\<close> when the wait
  never ends.
\<close>

definition StartApp :: "tools \<Rightarrow> host \<Rightarrow> ((gerr + string \<times> string) \<times> host) option" where
  "StartApp to h =
     (case findRepoRoot to h of
        Inl e \<Rightarrow> Some (Inl (context_error ''find repo root'' e), h)
      | Inr repoRoot \<Rightarrow>
          (case ensure_spec to repoRoot h of
             (Some e, h1) \<Rightarrow> Some (Inl (context_error ''copy openapi spec'' e), h1)
           | (None, h1) \<Rightarrow>
               let bin = binary_path to repoRoot
               in case to_build to [''go'', ''build'', ''-o'', bin, ''./cmd/inferencia''] repoRoot
                         (to_environ to @ [''GOOS='' @ to_goos to, ''GOARCH='' @ to_goarch to]) of
                    Inl (e, out) \<Rightarrow>
                      Some (Inl (wrap_error (''build binary: '' @ err_msg e @ [CHR 0x0A] @ out) e), h1)
                  | Inr code \<Rightarrow>
                      let h2 = h1\<lparr>ho_files := (ho_files h1)(bin \<mapsto> code)\<rparr>
                      in case to_start to bin repoRoot
                                (to_environ to @ [''INFERENCIA_HOST=127.0.0.1'', ''INFERENCIA_PORT='' @ integrationPort,
                                   ''INFERENCIA_API_KEYS=sk-integration-test'']) of
                           Some e \<Rightarrow> Some (Inl (context_error ''start app'' e), h2)
                         | None \<Rightarrow>
                             let h3 = h2\<lparr>ho_running := True\<rparr>
                             in map_option
                                  (\<lambda>err. case err of
                                     Some e \<Rightarrow> (Inl (context_error ''wait for health'' e), stop_app bin h3)
                                   | None \<Rightarrow> (Inr (base_url, bin), h3))
                                  (waitForHealth to base_url)))"

section \<open>What finding and waiting promise\<close>

text \<open>The first point of a walk at which something holds.\<close>

definition first_on :: "('a \<Rightarrow> 'a) \<Rightarrow> ('a \<Rightarrow> bool) \<Rightarrow> 'a \<Rightarrow> 'a \<Rightarrow> bool" where
  "first_on f P s d \<longleftrightarrow> (\<exists>k. d = (f ^^ k) s \<and> P d \<and> (\<forall>j<k. \<not> P ((f ^^ j) s)))"

lemma first_on_here: "P s \<Longrightarrow> first_on f P s d \<longleftrightarrow> d = s"
proof
  assume hit: "P s" and "first_on f P s d"
  then obtain k where k: "d = (f ^^ k) s" "\<forall>j<k. \<not> P ((f ^^ j) s)" unfolding first_on_def by blast
  with hit have "k = 0" by (cases k) (auto dest: spec [of _ 0])
  with k show "d = s" by simp
next
  assume "P s" "d = s"
  then show "first_on f P s d" unfolding first_on_def by (intro exI [of _ 0]) simp
qed

lemma first_on_next: "\<not> P s \<Longrightarrow> first_on f P s d \<longleftrightarrow> first_on f P (f s) d"
proof
  assume miss: "\<not> P s" and "first_on f P s d"
  then obtain k where k: "d = (f ^^ k) s" "P d" "\<forall>j<k. \<not> P ((f ^^ j) s)" unfolding first_on_def by blast
  with miss obtain m where m: "k = Suc m" by (cases k) auto
  have "\<not> P ((f ^^ j) (f s))" if "j < m" for j
    using k(3) m that by (metis Suc_less_eq funpow_Suc_right o_apply)
  with k m show "first_on f P (f s) d" unfolding first_on_def by (metis funpow_Suc_right o_apply)
next
  assume miss: "\<not> P s" and "first_on f P (f s) d"
  then obtain k where k: "d = (f ^^ k) (f s)" "P d" "\<forall>j<k. \<not> P ((f ^^ j) (f s))" unfolding first_on_def by blast
  have "\<not> P ((f ^^ j) s)" if "j < Suc k" for j
    using k(3) miss that by (cases j) (simp_all add: funpow_Suc_right del: funpow.simps)
  with k show "first_on f P s d" unfolding first_on_def by (intro exI [of _ "Suc k"]) (simp add: funpow_Suc_right del: funpow.simps)
qed

lemma first_on_stuck: "f s = s \<Longrightarrow> \<not> P s \<Longrightarrow> \<not> first_on f P s d"
proof -
  assume "f s = s" "\<not> P s"
  moreover from this(1) have "(f ^^ k) s = s" for k by (induction k) auto
  ultimately show ?thesis by (auto simp: first_on_def)
qed

text \<open>The root is the nearest directory upwards that has a \<open>go.mod\<close>; without one, an error.\<close>

lemma search_root_nearest:
  "search_root has start dir = Inr d \<longleftrightarrow> first_on Dir (\<lambda>s. has (Join [s, ''go.mod''])) dir d"
proof (induction has start dir rule: search_root.induct)
  case (1 has start dir)
  let ?P = "\<lambda>s. has (Join [s, ''go.mod''])"
  note step = search_root.simps [of has start dir]
  consider "?P dir" | "\<not> ?P dir" "Dir dir = dir" | "\<not> ?P dir" "Dir dir \<noteq> dir" by blast
  then show ?case
  proof cases
    case 1
    with first_on_here [of ?P dir Dir d] step show ?thesis by auto
  next
    case 2
    with first_on_stuck [of Dir dir ?P d] step show ?thesis by simp
  next
    case 3
    with "1" [OF 3] first_on_next [of ?P dir Dir d] step show ?thesis by simp
  qed
qed

lemma findRepoRoot_nearest:
  assumes "to_getenv to ''INTEGRATION_REPO_ROOT'' = []" and "to_getwd to = Inr dir" and "findRepoRoot to h = Inr d"
  shows "is_there h (Join [d, ''go.mod'']) \<and> (\<exists>k. d = (Dir ^^ k) dir)"
  using assms by (auto simp: findRepoRoot_def search_root_nearest first_on_def)

text \<open>A round that ends the wait.\<close>

definition ends :: "attempt \<Rightarrow> bool" where
  "ends a \<longleftrightarrow> (\<exists>resp. at_reply a = Inr resp) \<or> at_done a \<noteq> None"

lemma wait_from_step:
  "wait_from rounds n =
     (if ends (rounds n)
      then Some (case at_reply (rounds n) of Inr resp \<Rightarrow> None | Inl err \<Rightarrow> at_done (rounds n))
      else wait_from rounds (Suc n))"
  by (subst wait_from.simps) (auto simp: ends_def split: sum.split option.split)

lemma wait_from_ends:
  "ends (rounds (n + k)) \<Longrightarrow> \<exists>r. wait_from rounds n = Some r"
proof (induction k arbitrary: n)
  case 0
  then show ?case by (simp add: wait_from_step [of rounds n])
next
  case (Suc k)
  from Suc.IH [of "Suc n"] Suc.prems show ?case by (simp add: wait_from_step [of rounds n])
qed

lemma wait_from_result:
  assumes "wait_from rounds n = Some r"
  shows "\<exists>m\<ge>n. ends (rounds m) \<and> r = (case at_reply (rounds m) of Inr resp \<Rightarrow> None | Inl err \<Rightarrow> at_done (rounds m))"
  using assms
proof (induction rule: wait_from.raw_induct [rotated 1, consumes 1])
  case (1 wait rounds n r)
  show ?case
  proof (cases "ends (rounds n)")
    case True
    with 1(2) show ?thesis by (intro exI [of _ n]) (auto simp: ends_def split: sum.splits option.splits)
  next
    case False
    with 1(2) have "wait rounds (Suc n) = Some r" by (auto simp: ends_def split: sum.splits option.splits)
    from 1(1) [OF this] obtain m where "Suc n \<le> m" "ends (rounds m)"
      "r = (case at_reply (rounds m) of Inr resp \<Rightarrow> None | Inl err \<Rightarrow> at_done (rounds m))" by blast
    then show ?thesis by (intro exI [of _ m]) simp
  qed
qed

text \<open>The wait ends exactly when some round ends it, and never in an error unless the context is done.\<close>

lemma waitForHealth_returns:
  "(\<exists>r. waitForHealth to url = Some r) \<longleftrightarrow> (\<exists>n. ends (to_attempt to (url @ healthPath) n))"
  unfolding waitForHealth_def
  using wait_from_ends [of "to_attempt to (url @ healthPath)" 0] wait_from_result [of "to_attempt to (url @ healthPath)" 0]
  by fastforce

section \<open>What starting leaves behind\<close>

lemma ensure_spec_files:
  assumes "ensure_spec to repoRoot h = (e, h1)"
  shows "ho_running h1 = ho_running h \<and> (\<forall>f. f \<noteq> spec_dst repoRoot \<longrightarrow> ho_files h1 f = ho_files h f)
       \<and> (is_there h (spec_dst repoRoot) \<longrightarrow> h1 = h)
       \<and> (e = None \<longrightarrow> is_there h1 (spec_dst repoRoot))"
  using assms by (auto simp: ensure_spec_def copyFile_def is_there_def dest: sym [of "Some _"] split: if_splits option.splits)

text \<open>
  A start that succeeds has the program running and can be undone: its cleanup leaves the machine
  without the program and the binary, and otherwise with the files it had and the specification.
\<close>

lemma StartApp_undone:
  assumes "StartApp to h = Some (Inr (url, bin), h')"
  shows "url = base_url \<and> ho_running h' \<and> \<not> ho_running (stop_app bin h') \<and> \<not> is_there (stop_app bin h') bin
       \<and> (\<exists>repoRoot. findRepoRoot to h = Inr repoRoot \<and> bin = binary_path to repoRoot
            \<and> (\<forall>f. f \<noteq> bin \<longrightarrow> f \<noteq> spec_dst repoRoot \<longrightarrow> ho_files (stop_app bin h') f = ho_files h f))"
  using assms
  by (auto simp: StartApp_def Let_def stop_app_def is_there_def dest!: ensure_spec_files
      split: sum.splits option.splits prod.splits)

text \<open>A start that fails never leaves the program running.\<close>

lemma StartApp_failed:
  assumes "StartApp to h = Some (Inl e, h')" and "\<not> ho_running h"
  shows "\<not> ho_running h'"
  using assms
  by (auto simp: StartApp_def Let_def stop_app_def dest!: ensure_spec_files
      split: sum.splits option.splits prod.splits)

text \<open>But when the binary cannot be started it stays on disk, where every other failure leaves none.\<close>

lemma StartApp_leaves_binary:
  assumes "findRepoRoot to h = Inr repoRoot" and "ensure_spec to repoRoot h = (None, h1)"
    and "\<And>args env. to_build to args repoRoot env = Inr code" and "\<And>env. to_start to (binary_path to repoRoot) repoRoot env = Some e"
  shows "\<exists>h'. StartApp to h = Some (Inl (context_error ''start app'' e), h') \<and> is_there h' (binary_path to repoRoot)"
  using assms by (simp add: StartApp_def Let_def is_there_def)

text \<open>A program that answers 503 has started for \<open>waitForHealth\<close> and is not running for \<open>IsRunning\<close>.\<close>

lemma started_not_running:
  assumes "at_reply (to_attempt to (base_url @ healthPath) 0) = Inr resp" and "rp_status resp = 503"
    and "to_get to (base_url @ healthPath) = Inr resp"
  shows "waitForHealth to base_url = Some None \<and> \<not> IsRunning to base_url"
proof -
  have "trim_suffix_slash base_url = base_url"
    by (simp add: trim_suffix_slash_def base_url_def integrationPort_def)
  with assms show ?thesis
    by (simp add: waitForHealth_def wait_from.simps [of _ 0] IsRunning_def)
qed

text \<open>A start returns whenever the wait does; the context of fifteen seconds sees to that.\<close>

lemma StartApp_returns:
  assumes "ends (to_attempt to (base_url @ healthPath) n)"
  shows "\<exists>r. StartApp to h = Some r"
proof -
  obtain r where "waitForHealth to base_url = Some r" using assms waitForHealth_returns by blast
  then show ?thesis by (auto simp: StartApp_def Let_def split: sum.split option.split prod.split)
qed

end
