(* ===== verification/Spec2Isabelle.thy ===== *)
theory Spec2Isabelle
  imports Limiter_Cleanup Watchdog Upstream Replies Config Dispatch Locking Health_Facts Lifetime Integration
begin

text \<open>
  A model of the inference gateway \<open>inferencia\<close> (Go) and the theorems about it. The gateway offers
  an OpenAI-compatible API in front of a set of model backends (MLX, Ollama, speech): it checks the
  API key, limits the rate per key, picks the least loaded healthy backend, passes the request on
  (streaming included) and reports errors in the format of the API, while a watchdog probes the
  backends in the background. All paths below are relative to \<open>src/\<close>.

  \<^bold>\<open>How the parts interact.\<close> \<open>main\<close> loads the configuration and the keys, registers the
  backends, builds the server with its routes, starts the watchdog and serves. A request goes
  through the multiplexer, then RequestID, Recover, Metrics, Logging, Auth and RateLimit (in that
  order), then a handler. The handler asks a registry for a healthy backend (which charges the load
  balancer), calls the backend's adapter, classifies its error if there is one, writes the response,
  and gives the backend back. The health checker the registries ask is the watchdog's \<open>IsHealthy\<close>.

  \<^bold>\<open>The prelude.\<close>
  \<^item> \<open>Go_Text\<close>: Go strings as byte strings and the functions of \<open>strings\<close>, \<open>strconv\<close> and
    \<open>bufio.Scanner\<close> the program uses. \<open>File_Path\<close>: \<open>Clean\<close>, \<open>Join\<close>, \<open>Dir\<close>.
  \<^item> \<open>Float64\<close>: \<open>float64\<close> as rationals with rounding to 53 bits, infinities and NaN. The locale
    \<open>rounding\<close> holds the laws of a rounding; the interpretation is \<open>round64\<close>.
  \<^item> \<open>Go_Error\<close>: errors with message, chain and the answers of \<open>errors.Is\<close> and \<open>errors.As\<close>.
    \<open>Go_Json\<close>: the text of the small documents. \<open>Go_Map\<close>: maps that the program ranges over; the
    order of a loop is an argument of which only \<open>iterates\<close> is known.
  \<^item> \<open>Keyed\<close>: the locale \<open>keyed_machine\<close>, an independent state machine per key, and what a run of
    interleaved events does to one key. The rate limiter and the watchdog are its interpretations.

  \<^bold>\<open>The components.\<close>
  \<^item> \<open>internal/backend/backend.go\<close>: \<open>Backend\<close> (documents, interfaces as records of methods, the
    environment \<open>env\<close>) and \<open>Backend_Registry\<close> (\<open>Register\<close>, \<open>PrimaryHealthy\<close>, \<open>ReleaseBackend\<close>).
  \<^item> \<open>internal/backend/loadbalancer.go\<close>: \<open>Load_Balancer\<close> with the locales \<open>flight_counter\<close> and
    \<open>balancer\<close> and their interpretation \<open>lb\<close>. \<open>Dispatch\<close> is a small-step abstraction: any number
    of concurrent requests, interleaved at the critical sections of the balancer. \<open>Locking\<close> is the
    code step by step, with every operation on the mutexes of the chat registry, the balancer, the
    router and the watchdog, for chat requests and probes of the watchdog; it refines \<open>Dispatch\<close>.
  \<^item> \<open>internal/backend/mlx.go\<close>, \<open>ollama.go\<close>, \<open>tts.go\<close>, \<open>httpclient.go\<close>: \<open>Adapters\<close>. \<open>Streaming\<close> is
    the loop over server-sent events against a specification of events. \<open>Upstream\<close> has the locale
    \<open>upstream_call\<close> with eight interpretations, one for every call that yields a document.
  \<^item> \<open>internal/apierror\<close>: \<open>Api_Error\<close>. \<open>internal/auth/keystore.go\<close>: \<open>Key_Store\<close>.
    \<open>internal/router\<close>: \<open>Router\<close>.
  \<^item> \<open>internal/middleware\<close>: \<open>Http\<close> (requests, writers, the status writer), \<open>Observe\<close> (metrics and
    log lines as values), \<open>Gateway\<close> (the state a request runs in), \<open>Middleware\<close> (the chain), and
    \<open>ratelimit.go\<close> in \<open>Rate_Limiter\<close> and \<open>Limiter_Cleanup\<close>.
  \<^item> \<open>internal/handler\<close>: \<open>Handlers\<close> (chat, models, embeddings, speech), \<open>Health\<close> (readiness, version,
    documentation, the consolidated report). \<open>internal/watchdog\<close>: \<open>Watchdog\<close>.
  \<^item> \<open>internal/config/config.go\<close>: \<open>Config\<close>. \<open>internal/logging/gcp.go\<close> and the loggers of \<open>main\<close>:
    \<open>Logging_Gcp\<close>. \<open>internal/observability/otel.go\<close>: \<open>Tracing\<close>.
  \<^item> \<open>internal/server/server.go\<close>: \<open>Mux\<close> (the multiplexer of \<open>net/http\<close> for the patterns in use) and
    \<open>Server\<close>. \<open>cmd/inferencia/main.go\<close>: \<open>Process\<close>. \<open>integration/app.go\<close>: \<open>Integration\<close>.

  \<^bold>\<open>What is shown.\<close>
  \<^item> Selection (\<open>Load_Balancer\<close>, \<open>Backend_Registry\<close>, \<open>Router\<close>): a least loaded backend among the
    healthy or best-scored ones, the right error otherwise, and loads that stay within one of each
    other. \<open>Dispatch\<close>: in every interleaving the load is the number of requests being served.
    \<open>Locking\<close>: requests and probes never block each other for good, whatever backends do not
    answer, every run is bounded, and a request that runs alone does what \<open>PrimaryHealthy\<close> computes.
  \<^item> The rate limiter: buckets stay between zero and the burst; the answers refine an integer token
    bucket; any window admits at most its budget; sweeps are transparent under a condition that is
    needed; an idle key is served again (\<open>Recovery\<close>).
  \<^item> The watchdog refines a streak of failures, and after a probe that a chat backend answers the
    next selection succeeds (\<open>Recovery\<close>).
  \<^item> Handlers (\<open>Handler_Facts\<close>, \<open>Handler_Frame\<close>, \<open>Replies\<close>, \<open>Stream_Handler\<close>): every path gives its
    backend back, what a chat or speech request is answered with, streams that arrive byte for byte
    or stop where the client left.
  \<^item> The chain (\<open>Protected\<close>, \<open>Routes\<close>): the locale \<open>well_behaved\<close> is the contract of a handler in the
    chain, interpreted for the four API handlers, which leave the accounting to it; every request
    that does not panic is counted and logged once, panics are contained, and nobody gets in without
    a key.
  \<^item> The whole process: \<open>Startup\<close> decides which configurations come up and with which state;
    \<open>Serving\<close> and \<open>Root_Serve\<close> follow one request on any path; \<open>Lifetime\<close> keeps the invariant over all
    sequences of requests, probes, sweeps and stops.

  \<^bold>\<open>Bounds.\<close> No definition uses fuel: recursions are structural, decrease a measure, or (the wait of
  \<open>Integration\<close>) are partial with \<open>None\<close> for a wait that never ends. Counters that the code keeps in
  a Go \<open>int\<close> (requests in flight, failures of a backend) are unbounded; they would need \<open>2 ^ 63\<close>
  events to wrap. The product and the sum of a refill are rounded one after the other, as Go does
  where it does not fuse the two (it may on arm64). Bursts are taken to be at most \<open>2 ^ 53\<close>, up to
  which integers are exact in \<open>float64\<close>; a rate that is not finite is allowed where it is stated.
  Clocks are integers in nanoseconds that do not run backwards (\<open>steady\<close>) and, where durations are
  subtracted, below \<open>2 ^ 63\<close>. A line of a stream is limited to \<open>stream_limit\<close> (1 MiB) and a line of a key file to \<open>max_key_line\<close>, as the
  scanners of the code are.

  \<^bold>\<open>Parameters and hypotheses.\<close> The outcome of HTTP calls and the JSON codec of the large documents are
  the record \<open>env\<close>; random numbers, decoding of bodies and panics of counters are the record
  \<open>runtime\<close>; files, YAML, parsing of floats and durations, quoting and the environment are
  arguments of \<open>Load\<close> and \<open>NewKeyStore\<close> and fields of \<open>world\<close>; the OpenTelemetry library is the
  record \<open>otel\<close>, of which \<open>transparent\<close> says that its handler does to the gateway what the handler
  inside does; the Prometheus page is a handler of which \<open>reads_only\<close> says that it leaves the
  registries, the limiters, the clock and the gauge of requests in flight alone. Each
  property with such a hypothesis has a witness with a concrete instance.

  \<^bold>\<open>Not modelled.\<close> Connections, timeouts and cancellation inside \<open>net/http\<close> (a call returns its
  outcome), the exporters of OpenTelemetry and Prometheus, the bytes and time stamps of log lines, the
  warnings \<open>Load\<close> logs before the logger exists, observed durations, flags and signals. The
  backend gauge \<open>backend_healthy\<close> is set by both the watchdog and the readiness probe; both calls
  are in the model, their interleaving in time is not. Requests are sequential in \<open>Lifetime\<close>; what
  concurrency does to the loads and the locks is the subject of \<open>Dispatch\<close> and \<open>Locking\<close>; the locks of
  speech requests and of the limiters are not interleaved. Where the panic of a ticker races the
  exit of a failed tracer, \<open>launch\<close> lets the panic come first.

  \<^bold>\<open>Findings.\<close> The model shows: limits of NaN and intervals of zero pass validation, and the first
  disables the limiter while the second crashes the watchdog; equal backend names hide a backend or
  its failures; sweeps forgive slow rates; speech requests have a rate budget of their own; negative
  token counts lose a reply; a streamed request that the backend refuses gets an empty stream; scores
  of prefixes outrank an exact model; the canonical log line has no key and a panic has no canonical
  line; severities vanish into groups; and the helpers of
  the integration tests leave a binary behind when it cannot be started.
\<close>

end
